(* ===== verification/Prelude.thy ===== *)
theory Prelude
  imports
    "HOL-Library.Char_ord"
    "HOL-Library.List_Lexorder"
    "HOL-Library.Product_Lexorder"
    "HOL-Library.AList"
    "HOL-Library.Multiset"
begin

text \<open>
  Shared vocabulary of the development: what the tunnelport sources use of the Go
  language and its standard library, and the lemmas about it that several components
  need.

  \<^item> Go strings are byte strings, \<open>string\<close>; \<open><\<close> on them is the bytewise
    lexicographic order of Go (the linear order of \<open>List_Lexorder\<close> over \<open>Char_ord\<close>).
  \<^item> \<open>itoa\<close> is decimal formatting (\<open>strconv.FormatInt\<close>, the \<open>%d\<close> verb and
    \<open>fmt.Sprint\<close> of an int), \<open>strings_join\<close> is \<open>strings.Join\<close>, \<open>go_quote\<close> the
    \<open>%q\<close> verb.
  \<^item> \<open>slice_stable\<close> is \<open>sort.SliceStable\<close> with a less predicate. The interface
    \<open>key_order\<close> says what a caller relies on: a less predicate that compares a key.
  \<^item> A Go map is an association list with distinct keys (\<open>go_map\<close>); its iteration
    order is the list's, and what is proved of a loop over it does not depend on it.
  \<^item> A \<open>time.Time\<close> is the number of nanoseconds since Go's zero time (1 January of
    year 1, 00:00:00 UTC), so that \<open>0\<close> is \<open>time.Time{}\<close>; a \<open>time.Duration\<close> is a
    number of nanoseconds.
\<close>

named_theorems go_simps \<open>evaluation rules for the Go library functions of the model\<close>

type_synonym go_time = int
type_synonym duration = int
type_synonym ('k, 'v) go_map = "('k \<times> 'v) list"


section \<open>Integers\<close>

text \<open>Go's integer division truncates towards zero.\<close>

definition go_div :: "int \<Rightarrow> int \<Rightarrow> int" where
  "go_div a b = sgn a * sgn b * (\<bar>a\<bar> div \<bar>b\<bar>)"

lemma go_div_nonneg [simp]: "0 \<le> a \<Longrightarrow> 0 < b \<Longrightarrow> go_div a b = a div b"
  by (cases "a = 0") (simp_all add: go_div_def)


section \<open>Loops\<close>

text \<open>
  The loop \<open>for i := range xs { if r := f(xs[i]); r is something { return r } }\<close>
  returns the first result there is.
\<close>

fun first_some :: "('a \<Rightarrow> 'b option) \<Rightarrow> 'a list \<Rightarrow> 'b option" where
  "first_some f [] = None"
| "first_some f (x # xs) = (case f x of Some r \<Rightarrow> Some r | None \<Rightarrow> first_some f xs)"

lemma first_some_None_iff: "first_some f xs = None \<longleftrightarrow> (\<forall>x \<in> set xs. f x = None)"
  by (induction xs) (auto split: option.splits)

lemma first_some_SomeD: "first_some f xs = Some r \<Longrightarrow> \<exists>x \<in> set xs. f x = Some r"
  by (induction xs) (auto split: option.splits)

lemma first_some_append:
  "first_some f (xs @ ys) =
     (case first_some f xs of Some r \<Rightarrow> Some r | None \<Rightarrow> first_some f ys)"
  by (induction xs) (auto split: option.splits)

lemma first_some_cong [fundef_cong]:
  "xs = ys \<Longrightarrow> (\<And>x. x \<in> set ys \<Longrightarrow> f x = g x) \<Longrightarrow> first_some f xs = first_some g ys"
  by (induction ys arbitrary: xs) (auto split: option.splits)


section \<open>Strings\<close>

definition digit_char :: "int \<Rightarrow> char" where
  "digit_char n = char_of (48 + n)"

text \<open>The digits of a number that is not negative.\<close>

function itoa_pos :: "int \<Rightarrow> string" where
  "itoa_pos n = (if n < 10 then [digit_char n] else itoa_pos (n div 10) @ [digit_char (n mod 10)])"
  by pat_completeness auto
termination
  by (relation "measure nat") auto

declare itoa_pos.simps [simp del]

text \<open>Decimal text of an integer, with the sign of a negative one.\<close>

definition itoa :: "int \<Rightarrow> string" where
  "itoa v = (if v < 0 then CHR ''-'' # itoa_pos (- v) else itoa_pos v)"

fun strings_join :: "string list \<Rightarrow> string \<Rightarrow> string" where
  "strings_join [] sep = ''''"
| "strings_join [x] sep = x"
| "strings_join (x # y # xs) sep = x @ sep @ strings_join (y # xs) sep"

text \<open>
  The \<open>%q\<close> verb (\<open>strconv.Quote\<close>) on ASCII text, which is what the result names of the
  verifier are. A byte outside ASCII is escaped as \<open>\xNN\<close>, as Go does for a byte that is
  not part of valid UTF-8.
\<close>

definition hex_digit :: "int \<Rightarrow> char" where
  "hex_digit n = (if n < 10 then digit_char n else char_of (87 + n))"

definition quote_char :: "char \<Rightarrow> string" where
  "quote_char c =
     (let n = of_char c :: int; bs = char_of (92::int)
      in if n = 34 \<or> n = 92 then [bs, c]
         else if n = 7 then [bs, CHR ''a'']
         else if n = 8 then [bs, CHR ''b'']
         else if n = 9 then [bs, CHR ''t'']
         else if n = 10 then [bs, CHR ''n'']
         else if n = 11 then [bs, CHR ''v'']
         else if n = 12 then [bs, CHR ''f'']
         else if n = 13 then [bs, CHR ''r'']
         else if 32 \<le> n \<and> n < 127 then [c]
         else [bs, CHR ''x'', hex_digit (n div 16), hex_digit (n mod 16)])"

definition go_quote :: "string \<Rightarrow> string" where
  "go_quote s = [char_of (34::int)] @ concat (map quote_char s) @ [char_of (34::int)]"

text \<open>Reading decimal text back, for the round trip of \<open>itoa\<close>.\<close>

definition digit_val :: "char \<Rightarrow> int" where
  "digit_val c = of_char c - 48"

definition atoi_pos :: "string \<Rightarrow> int" where
  "atoi_pos s = foldl (\<lambda>acc c. 10 * acc + digit_val c) 0 s"

definition is_digit :: "char \<Rightarrow> bool" where
  "is_digit c \<longleftrightarrow> 48 \<le> (of_char c :: int) \<and> (of_char c :: int) < 58"

definition atoi :: "string \<Rightarrow> int" where
  "atoi s = (case s of c # cs \<Rightarrow> if c = CHR ''-'' then - atoi_pos cs else atoi_pos s | [] \<Rightarrow> 0)"

lemma digit_char_simps [go_simps]:
  "digit_char 0 = CHR ''0''" "digit_char 1 = CHR ''1''"
  "digit_char 2 = CHR ''2''" "digit_char 3 = CHR ''3''" "digit_char 4 = CHR ''4''"
  "digit_char 5 = CHR ''5''" "digit_char 6 = CHR ''6''" "digit_char 7 = CHR ''7''"
  "digit_char 8 = CHR ''8''" "digit_char 9 = CHR ''9''"
  by code_simp+

lemmas itoa_eval [go_simps] =
  itoa_def itoa_pos.simps [of "numeral n" for n] itoa_pos.simps [of 0] itoa_pos.simps [of 1]

lemma of_char_digit_char [simp]: "0 \<le> n \<Longrightarrow> n < 10 \<Longrightarrow> of_char (digit_char n) = 48 + n"
  by (simp add: digit_char_def)

lemma digit_val_digit_char [simp]: "0 \<le> n \<Longrightarrow> n < 10 \<Longrightarrow> digit_val (digit_char n) = n"
  by (simp add: digit_val_def)

lemma is_digit_digit_char [simp]: "0 \<le> n \<Longrightarrow> n < 10 \<Longrightarrow> is_digit (digit_char n)"
  by (simp add: is_digit_def)

lemma is_digit_ne_minus: "is_digit c \<Longrightarrow> c \<noteq> CHR ''-''"
  by (auto simp: is_digit_def)

lemma itoa_pos_nonempty [simp]: "itoa_pos n \<noteq> []"
  by (subst itoa_pos.simps) simp

lemma itoa_pos_digits: "0 \<le> n \<Longrightarrow> c \<in> set (itoa_pos n) \<Longrightarrow> is_digit c"
proof (induction n rule: itoa_pos.induct)
  case (1 n)
  then show ?case
    by (cases "n < 10") (auto simp: itoa_pos.simps [of n])
qed

lemma atoi_pos_itoa_pos [simp]: "0 \<le> n \<Longrightarrow> atoi_pos (itoa_pos n) = n"
proof (induction n rule: itoa_pos.induct)
  case (1 n)
  then show ?case
    by (cases "n < 10") (auto simp: itoa_pos.simps [of n] atoi_pos_def)
qed

lemma atoi_itoa: "atoi (itoa v) = v"
proof (cases "v < 0")
  case True
  then show ?thesis by (simp add: itoa_def atoi_def)
next
  case False
  obtain c cs where c: "itoa_pos v = c # cs"
    by (meson itoa_pos_nonempty neq_Nil_conv)
  then have "is_digit c"
    using itoa_pos_digits [of v c] False by simp
  then have "c \<noteq> CHR ''-''"
    by (rule is_digit_ne_minus)
  moreover have "atoi_pos (c # cs) = v"
    using False c [symmetric] by simp
  ultimately show ?thesis
    using False c by (simp add: itoa_def atoi_def)
qed

lemma itoa_inject [simp]: "itoa v = itoa w \<longleftrightarrow> v = w"
  by (metis atoi_itoa)

lemma itoa_nonempty [simp]: "itoa v \<noteq> []"
  by (simp add: itoa_def)


section \<open>Sorting\<close>

text \<open>
  \<open>sort.SliceStable\<close>: equal elements (neither less than the other) keep their order. An
  element goes before the first one that is not less than it; elements are inserted from
  the last to the first, so the earlier of two equal ones ends up in front.
\<close>

fun insert_by :: "('a \<Rightarrow> 'a \<Rightarrow> bool) \<Rightarrow> 'a \<Rightarrow> 'a list \<Rightarrow> 'a list" where
  "insert_by lt x [] = [x]"
| "insert_by lt x (y # ys) = (if lt y x then y # insert_by lt x ys else x # y # ys)"

definition slice_stable :: "('a \<Rightarrow> 'a \<Rightarrow> bool) \<Rightarrow> 'a list \<Rightarrow> 'a list" where
  "slice_stable lt xs = foldr (insert_by lt) xs []"

lemma mset_insert_by: "mset (insert_by lt x ys) = {#x#} + mset ys"
  by (induction ys) auto

lemma mset_slice_stable [simp]: "mset (slice_stable lt xs) = mset xs"
  by (induction xs) (simp_all add: slice_stable_def mset_insert_by)

lemma set_slice_stable [simp]: "set (slice_stable lt xs) = set xs"
  using mset_slice_stable [of lt xs] by (rule mset_eq_setD)

lemma length_slice_stable [simp]: "length (slice_stable lt xs) = length xs"
  using mset_slice_stable [of lt xs] by (rule mset_eq_length)

lemma slice_stable_Nil_iff [simp]: "slice_stable lt xs = [] \<longleftrightarrow> xs = []"
  by (metis length_0_conv length_slice_stable)

text \<open>
  What the callers of the sort rely on: their less predicate compares a key in a linear
  order. The result is then the stable sort by that key, and it does not depend on the
  order of the input when the key tells the elements apart.
\<close>

locale key_order =
  fixes lt :: "'a \<Rightarrow> 'a \<Rightarrow> bool" and key :: "'a \<Rightarrow> 'k::linorder"
  assumes less_key: "lt a b \<longleftrightarrow> key a < key b"
begin

lemma insert_by_key: "insert_by lt x ys = insort_key key x ys"
  by (induction ys) (auto simp: less_key)

lemma sort_eq: "slice_stable lt xs = sort_key key xs"
  by (induction xs) (simp_all add: slice_stable_def insert_by_key)

lemma sorted_result: "sorted (map key (slice_stable lt xs))"
  by (simp add: sort_eq)

lemma stable_result:
  "filter (\<lambda>y. key y = k) (slice_stable lt xs) = filter (\<lambda>y. key y = k) xs"
  by (simp add: sort_eq sort_key_stable)

lemma order_independent:
  assumes "mset xs = mset ys" and "inj_on key (set xs)"
  shows "slice_stable lt xs = slice_stable lt ys"
  unfolding sort_eq
proof (rule sort_key_inj_key_eq)
  show "mset xs = mset (sort_key key ys)" using assms(1) by simp
  show "inj_on key (set xs)" by (rule assms(2))
  show "sorted (map key (sort_key key ys))" by simp
qed

lemma head_minimal:
  assumes "slice_stable lt xs = y # ys" and "x \<in> set xs"
  shows "key y \<le> key x"
proof -
  have "sorted (map key (y # ys))"
    using sorted_result [of xs] assms(1) by simp
  moreover have "x = y \<or> x \<in> set ys"
    using assms set_slice_stable [of lt xs] by auto
  ultimately show ?thesis by auto
qed

end


section \<open>Maps\<close>

text \<open>Assignment \<open>m[k] = v\<close> and lookup \<open>v, ok := m[k]\<close>.\<close>

abbreviation go_put :: "'k \<Rightarrow> 'v \<Rightarrow> ('k, 'v) go_map \<Rightarrow> ('k, 'v) go_map" where
  "go_put \<equiv> AList.update"

abbreviation go_get :: "('k, 'v) go_map \<Rightarrow> 'k \<Rightarrow> 'v option" where
  "go_get \<equiv> map_of"

text \<open>\<open>maps.Copy(dst, src)\<close>.\<close>

definition maps_copy :: "('k, 'v) go_map \<Rightarrow> ('k, 'v) go_map \<Rightarrow> ('k, 'v) go_map" where
  "maps_copy dst src = fold (\<lambda>(k, v). go_put k v) src dst"

lemma go_get_put [simp]: "go_get (go_put k v m) k' = (if k' = k then Some v else go_get m k')"
  by (simp add: update_conv')

lemma go_put_distinct [simp]: "distinct (map fst m) \<Longrightarrow> distinct (map fst (go_put k v m))"
  by (rule distinct_update)

text \<open>
  A loop over a map whose body, at key \<open>k\<close> with value \<open>v\<close>, writes at most the entry of \<open>k\<close> in
  the map it builds. The interface is the effect of one body run; the loop's effect
  follows, whatever the iteration order.
\<close>

locale keyed_loop =
  fixes body :: "'k \<Rightarrow> 'v \<Rightarrow> ('k, 't) go_map \<Rightarrow> ('k, 't) go_map"
    and new :: "'k \<Rightarrow> 'v \<Rightarrow> 't option"
  assumes body_get:
    "go_get (body k v m) k' =
       (if k' = k then (case new k v of Some t \<Rightarrow> Some t | None \<Rightarrow> go_get m k) else go_get m k')"
  and body_distinct: "distinct (map fst m) \<Longrightarrow> distinct (map fst (body k v m))"
begin

lemma loop_distinct:
  "distinct (map fst m) \<Longrightarrow> distinct (map fst (fold (\<lambda>(k, v). body k v) xs m))"
  by (induction xs arbitrary: m) (auto simp: body_distinct)

lemma loop_get:
  assumes "distinct (map fst xs)"
  shows "go_get (fold (\<lambda>(k, v). body k v) xs m) k =
    (case go_get xs k of
       None \<Rightarrow> go_get m k
     | Some v \<Rightarrow> (case new k v of Some t \<Rightarrow> Some t | None \<Rightarrow> go_get m k))"
  using assms
proof (induction xs arbitrary: m)
  case Nil
  then show ?case by simp
next
  case (Cons x xs)
  obtain k0 v0 where x: "x = (k0, v0)" by (cases x)
  have fresh: "go_get xs k0 = None"
    using Cons.prems x by (simp add: map_of_eq_None_iff)
  show ?case
    using Cons fresh by (simp add: x body_get split: option.split)
qed

end

interpretation copy: keyed_loop go_put "\<lambda>k v. Some v"
  by unfold_locales simp_all

lemma maps_copy_get:
  "distinct (map fst src) \<Longrightarrow>
     go_get (maps_copy dst src) k = (case go_get src k of Some v \<Rightarrow> Some v | None \<Rightarrow> go_get dst k)"
  unfolding maps_copy_def by (auto simp: copy.loop_get split: option.split)

lemma maps_copy_distinct [simp]:
  "distinct (map fst dst) \<Longrightarrow> distinct (map fst (maps_copy dst src))"
  unfolding maps_copy_def by (rule copy.loop_distinct)

lemma fold_triple:
  "fold (\<lambda>x (a, b, c). (f x a, g x b, h x c)) xs (a, b, c) = (fold f xs a, fold g xs b, fold h xs c)"
  by (induction xs arbitrary: a b c) simp_all

end
