(* ===== verification/Api.thy ===== *)
theory Api
  imports Prelude
begin

text \<open>
  The data the operator reads and writes: the \<open>RemoteApp\<close> custom resource of
  \<open>api/v1alpha1\<close>, the Kubernetes condition and pod types as far as the operator looks
  at them, and the names (labels, containers, ports) that several components share.

  Fields the operator only copies (tolerations, node and pod affinity, resource
  quantities) are values of \<open>api_value\<close>, a tree it never inspects. A Go pointer field is
  an \<open>option\<close>. Integers of 32 and 64 bits are \<open>int\<close>: none of them takes part in
  arithmetic in the operator; the one narrowing conversion of the program is modelled
  with its width in the theory of the flags.
\<close>

section \<open>Names\<close>

text \<open>\<open>types.NamespacedName\<close>, ordered by namespace and then by name.\<close>

datatype namespaced_name = NamespacedName (nn_namespace: string) (nn_name: string)

instantiation namespaced_name :: linorder
begin

definition less_eq_namespaced_name :: "namespaced_name \<Rightarrow> namespaced_name \<Rightarrow> bool" where
  "less_eq_namespaced_name a b \<longleftrightarrow> (nn_namespace a, nn_name a) \<le> (nn_namespace b, nn_name b)"

definition less_namespaced_name :: "namespaced_name \<Rightarrow> namespaced_name \<Rightarrow> bool" where
  "less_namespaced_name a b \<longleftrightarrow> (nn_namespace a, nn_name a) < (nn_namespace b, nn_name b)"

instance
proof
  fix a b c :: namespaced_name
  show "(a < b) = (a \<le> b \<and> \<not> b \<le> a)"
    unfolding less_eq_namespaced_name_def less_namespaced_name_def by (rule less_le_not_le)
  show "a \<le> a"
    by (simp add: less_eq_namespaced_name_def)
  show "a \<le> b \<Longrightarrow> b \<le> c \<Longrightarrow> a \<le> c"
    unfolding less_eq_namespaced_name_def by (rule order_trans)
  show "a \<le> b \<Longrightarrow> b \<le> a \<Longrightarrow> a = b"
    unfolding less_eq_namespaced_name_def by (cases a; cases b) (auto dest: antisym)
  show "a \<le> b \<or> b \<le> a"
    unfolding less_eq_namespaced_name_def by (rule linear)
qed

end

definition LabelRole :: string where
  "LabelRole = ''tunnelport.giantswarm.io/role''"

definition LabelRoleValue :: string where
  "LabelRoleValue = ''tbot''"

definition LabelRemoteAppInstance :: string where
  "LabelRemoteAppInstance = ''tunnelport.giantswarm.io/remoteapp''"

definition tbotContainerName :: string where
  "tbotContainerName = LabelRoleValue"

definition ghostunnelContainerName :: string where
  "ghostunnelContainerName = ''ghostunnel''"

definition tbotDiagPort :: int where
  "tbotDiagPort = 3001"

definition tlsListenPortDefault :: int where
  "tlsListenPortDefault = 8443"


section \<open>Conditions\<close>

text \<open>
  \<open>metav1.Condition\<close>. The API schema admits exactly three statuses. A zero
  \<open>LastTransitionTime\<close> is \<open>0\<close>.
\<close>

datatype condition_status = ConditionTrue | ConditionFalse | ConditionUnknown

record condition =
  cond_type :: string
  cond_status :: condition_status
  cond_observedGeneration :: int
  cond_lastTransitionTime :: go_time
  cond_reason :: string
  cond_message :: string

definition ConditionTypeReady :: string where
  "ConditionTypeReady = ''Ready''"

definition ConditionTypeReconciled :: string where
  "ConditionTypeReconciled = ''Reconciled''"

definition ConditionTypeIdentityIssued :: string where
  "ConditionTypeIdentityIssued = ''IdentityIssued''"

definition ConditionTypeTunnelServing :: string where
  "ConditionTypeTunnelServing = ''TunnelServing''"

definition ConditionTypeTunnelVerified :: string where
  "ConditionTypeTunnelVerified = ''TunnelVerified''"

definition ConditionTypeUpstreamReachable :: string where
  "ConditionTypeUpstreamReachable = ''UpstreamReachable''"

lemmas condition_type_defs =
  ConditionTypeReady_def ConditionTypeReconciled_def ConditionTypeIdentityIssued_def
  ConditionTypeTunnelServing_def ConditionTypeTunnelVerified_def
  ConditionTypeUpstreamReachable_def

lemma condition_types_distinct:
  "distinct [ConditionTypeReady, ConditionTypeReconciled, ConditionTypeIdentityIssued,
     ConditionTypeTunnelServing, ConditionTypeTunnelVerified, ConditionTypeUpstreamReachable]"
  by (simp add: condition_type_defs)

lemma condition_types_distinct_rev:
  "distinct [ConditionTypeUpstreamReachable, ConditionTypeTunnelVerified,
     ConditionTypeTunnelServing, ConditionTypeIdentityIssued, ConditionTypeReconciled,
     ConditionTypeReady]"
  by (simp add: condition_type_defs)

lemmas condition_types_neq [simp] =
  condition_types_distinct [simplified] condition_types_distinct_rev [simplified]


section \<open>RemoteApp\<close>

datatype api_value =
    StrValue string
  | NumValue int
  | BoolValue bool
  | ArrValue "api_value list"
  | ObjValue "(string \<times> api_value) list"

text \<open>\<open>corev1.ResourceRequirements\<close>; a quantity is a value the operator hands on.\<close>

record resource_requirements =
  rr_Requests :: "(string, api_value) go_map"
  rr_Limits :: "(string, api_value) go_map"

text \<open>
  \<open>corev1.Affinity\<close>: node and pod affinity are only copied, the pod anti-affinity is
  either the author's, copied, or the operator's preferred terms.
\<close>

record weighted_pod_affinity_term =
  wt_weight :: int
  wt_matchLabels :: "(string, string) go_map"
  wt_topologyKey :: string

datatype pod_anti_affinity =
    AuthorAntiAffinity api_value
  | PreferredAntiAffinity "weighted_pod_affinity_term list"

record affinity =
  aff_nodeAffinity :: "api_value option"
  aff_podAffinity :: "api_value option"
  aff_podAntiAffinity :: "pod_anti_affinity option"

record probe_spec =
  probe_Path :: string

record remote_app_spec =
  spec_AppName :: string
  spec_Port :: int
  spec_TokenName :: string
  spec_Replicas :: "int option"
  spec_NodeSelector :: "(string, string) go_map"
  spec_Tolerations :: "api_value list"
  spec_Affinity :: "affinity option"
  spec_Probe :: "probe_spec option"

record remote_app_status =
  st_Ready :: bool
  st_LastError :: string
  st_ObservedGeneration :: int
  st_Conditions :: "condition list"

record remote_app =
  ra_Namespace :: string
  ra_Name :: string
  ra_UID :: string
  ra_Generation :: int
  ra_DeletionTimestamp :: "go_time option"
  ra_Spec :: remote_app_spec
  ra_Status :: remote_app_status

abbreviation ra_key :: "remote_app \<Rightarrow> namespaced_name" where
  "ra_key cr \<equiv> NamespacedName (ra_Namespace cr) (ra_Name cr)"


section \<open>Pods\<close>

text \<open>
  The part of \<open>corev1.Pod\<close> the operator reads (ADR 0003: metadata and status, never
  logs). \<open>State.Running\<close> is not read.
\<close>

record state_waiting =
  w_Reason :: string
  w_Message :: string

record state_terminated =
  t_Reason :: string
  t_ExitCode :: int

record container_state =
  state_Waiting :: "state_waiting option"
  state_Terminated :: "state_terminated option"

record container_status =
  cs_Name :: string
  cs_State :: container_state
  cs_LastTerminationState :: container_state
  cs_Ready :: bool
  cs_RestartCount :: int

record pod_condition =
  pc_Type :: string
  pc_Status :: condition_status

record pod =
  pod_Namespace :: string
  pod_Name :: string
  pod_Labels :: "(string, string) go_map"
  pod_DeletionTimestamp :: "go_time option"
  pod_Phase :: string
  pod_Reason :: string
  pod_Conditions :: "pod_condition list"
  pod_InitContainerStatuses :: "container_status list"
  pod_ContainerStatuses :: "container_status list"

text \<open>Reading a missing key of a Go map gives the zero value, here the empty string.\<close>

definition go_index :: "(string, string) go_map \<Rightarrow> string \<Rightarrow> string" where
  "go_index m k = (case go_get m k of Some v \<Rightarrow> v | None \<Rightarrow> '''')"


section \<open>Example data\<close>

definition example_cr :: remote_app where
  "example_cr =
     \<lparr>ra_Namespace = ''mcp'', ra_Name = ''kube'', ra_UID = ''u1'', ra_Generation = 3,
      ra_DeletionTimestamp = None,
      ra_Spec = \<lparr>spec_AppName = ''kube-app'', spec_Port = 8080, spec_TokenName = ''tok'',
        spec_Replicas = None, spec_NodeSelector = [], spec_Tolerations = [],
        spec_Affinity = None, spec_Probe = None\<rparr>,
      ra_Status = \<lparr>st_Ready = False, st_LastError = '''', st_ObservedGeneration = 0,
        st_Conditions = []\<rparr>\<rparr>"

definition no_state :: container_state where
  "no_state = \<lparr>state_Waiting = None, state_Terminated = None\<rparr>"

definition example_container :: "string \<Rightarrow> bool \<Rightarrow> container_status" where
  "example_container name ready =
     \<lparr>cs_Name = name,
      cs_State = (if ready then no_state
        else no_state\<lparr>state_Waiting := Some \<lparr>w_Reason = ''CrashLoopBackOff'', w_Message = ''''\<rparr>\<rparr>),
      cs_LastTerminationState = (if ready then no_state
        else no_state\<lparr>state_Terminated := Some \<lparr>t_Reason = ''Error'', t_ExitCode = 137\<rparr>\<rparr>),
      cs_Ready = ready, cs_RestartCount = (if ready then 0 else 5)\<rparr>"

definition example_pod :: "string \<Rightarrow> bool \<Rightarrow> pod" where
  "example_pod name ready =
     \<lparr>pod_Namespace = ''mcp'', pod_Name = name,
      pod_Labels = [(LabelRole, LabelRoleValue), (LabelRemoteAppInstance, ''kube'')],
      pod_DeletionTimestamp = None, pod_Phase = ''Running'', pod_Reason = '''',
      pod_Conditions = [\<lparr>pc_Type = ''Ready'', pc_Status = (if ready then ConditionTrue else ConditionFalse)\<rparr>],
      pod_InitContainerStatuses = [example_container ''tbot'' ready],
      pod_ContainerStatuses = [example_container ''ghostunnel'' True]\<rparr>"

end
