(* ===== verification/Verification.thy ===== *)
theory Verification
  imports Api
begin

text \<open>
  The data of \<open>verify.go\<close>: the outcome of one probe, the configuration of the verifier
  and its defaults, the target of one probe, and the read interface through which the
  reconciler sees the outcomes (\<open>VerificationReader\<close>).

  \<open>VerificationResult\<close> and \<open>UpstreamResult\<close> are string types in the source and metric
  label values, so they are strings here; the switch statements over them keep their
  default branches. A Go result pair \<open>(value, ok)\<close> is an option.
\<close>

section \<open>Probe outcomes\<close>

definition ResultVerified :: string where
  "ResultVerified = ''verified''"

definition ResultCertInvalid :: string where
  "ResultCertInvalid = ''cert_invalid''"

definition ResultUnreachable :: string where
  "ResultUnreachable = ''unreachable''"

definition ResultNotReady :: string where
  "ResultNotReady = ''not_ready''"

definition UpstreamReachable :: string where
  "UpstreamReachable = ''reachable''"

definition UpstreamUnreachable :: string where
  "UpstreamUnreachable = ''unreachable''"

definition UpstreamNotProbed :: string where
  "UpstreamNotProbed = ''not_probed''"

lemmas result_defs =
  ResultVerified_def ResultCertInvalid_def ResultUnreachable_def ResultNotReady_def
  UpstreamReachable_def UpstreamUnreachable_def UpstreamNotProbed_def

lemma results_distinct:
  "distinct [ResultVerified, ResultCertInvalid, ResultUnreachable, ResultNotReady]"
  "distinct [ResultNotReady, ResultUnreachable, ResultCertInvalid, ResultVerified]"
  "distinct [UpstreamReachable, UpstreamUnreachable, UpstreamNotProbed]"
  "distinct [UpstreamNotProbed, UpstreamUnreachable, UpstreamReachable]"
  by (simp_all add: result_defs)

lemmas results_neq [simp] = results_distinct [simplified]

record upstream_probe =
  up_Result :: string
  up_StatusCode :: int
  up_URL :: string
  up_Detail :: string

record verification =
  v_Result :: string
  v_Detail :: string
  v_ServerName :: string
  v_Upstream :: upstream_probe

text \<open>The composite literal \<open>UpstreamProbe{Result: UpstreamNotProbed}\<close>.\<close>

definition notProbed :: upstream_probe where
  "notProbed = \<lparr>up_Result = UpstreamNotProbed, up_StatusCode = 0, up_URL = '''', up_Detail = ''''\<rparr>"

lemma up_Result_notProbed [simp]: "up_Result notProbed = UpstreamNotProbed"
  by (simp add: notProbed_def)


section \<open>The read interface\<close>

record verification_reader =
  rd_Enabled :: bool
  rd_UpstreamProbeEnabled :: bool
  rd_Result :: "namespaced_name \<Rightarrow> verification option"
  rd_LastUpstreamSuccess :: "namespaced_name \<Rightarrow> go_time option"
  rd_UpstreamDownSince :: "namespaced_name \<Rightarrow> go_time option"
  rd_UpstreamRecoveredAt :: "namespaced_name \<Rightarrow> go_time option"


section \<open>Configuration\<close>

record verify_config =
  vc_Enabled :: bool
  vc_Interval :: duration
  vc_Timeout :: duration
  vc_Jitter :: duration
  vc_Concurrency :: int
  vc_UpstreamProbe :: bool
  vc_UpstreamTimeout :: duration
  vc_TrustBundleFile :: string
  vc_ClusterDomain :: string
  vc_TLSPort :: int

definition second :: duration where "second = 1000000000"

definition minute :: duration where "minute = 60 * second"

definition DefaultVerifyInterval :: duration where
  "DefaultVerifyInterval = 2 * minute"

definition DefaultVerifyTimeout :: duration where
  "DefaultVerifyTimeout = 5 * second"

definition DefaultVerifyJitter :: duration where
  "DefaultVerifyJitter = 30 * second"

definition DefaultVerifyConcurrency :: int where
  "DefaultVerifyConcurrency = 8"

definition DefaultUpstreamProbeTimeout :: duration where
  "DefaultUpstreamProbeTimeout = 10 * second"

definition DefaultProbePath :: string where
  "DefaultProbePath = ''/''"

definition DefaultClusterDomain :: string where
  "DefaultClusterDomain = ''cluster.local''"

lemmas verify_default_defs =
  DefaultVerifyInterval_def DefaultVerifyTimeout_def DefaultVerifyJitter_def
  DefaultVerifyConcurrency_def DefaultUpstreamProbeTimeout_def DefaultProbePath_def
  DefaultClusterDomain_def minute_def second_def tlsListenPortDefault_def

text \<open>One assignment per \<open>if\<close> of the source, in its order.\<close>

definition withDefaults :: "verify_config \<Rightarrow> verify_config" where
  "withDefaults c0 =
    (let c1 = (if vc_Interval c0 \<le> 0 then c0\<lparr>vc_Interval := DefaultVerifyInterval\<rparr> else c0);
         c2 = (if vc_Timeout c1 \<le> 0 then c1\<lparr>vc_Timeout := DefaultVerifyTimeout\<rparr> else c1);
         c3 = (if vc_Jitter c2 \<le> 0 then c2\<lparr>vc_Jitter := DefaultVerifyJitter\<rparr> else c2);
         c4 = (if vc_Jitter c3 > go_div (vc_Interval c3) 2
               then c3\<lparr>vc_Jitter := go_div (vc_Interval c3) 2\<rparr> else c3);
         c5 = (if vc_Concurrency c4 \<le> 0 then c4\<lparr>vc_Concurrency := DefaultVerifyConcurrency\<rparr>
               else c4);
         c6 = (if vc_UpstreamTimeout c5 \<le> 0
               then c5\<lparr>vc_UpstreamTimeout := DefaultUpstreamProbeTimeout\<rparr> else c5);
         c7 = (if vc_ClusterDomain c6 = '''' then c6\<lparr>vc_ClusterDomain := DefaultClusterDomain\<rparr>
               else c6);
         c8 = (if vc_TLSPort c7 = 0 then c7\<lparr>vc_TLSPort := tlsListenPortDefault\<rparr> else c7)
     in c8)"

text \<open>What the verifier relies on once the defaults are filled in.\<close>

definition resolved :: "verify_config \<Rightarrow> bool" where
  "resolved c \<longleftrightarrow>
     0 < vc_Interval c \<and> 0 < vc_Timeout c \<and> 0 \<le> vc_Jitter c \<and> 2 * vc_Jitter c \<le> vc_Interval c \<and>
     0 < vc_Concurrency c \<and> 0 < vc_UpstreamTimeout c \<and> vc_ClusterDomain c \<noteq> '''' \<and>
     vc_TLSPort c \<noteq> 0"

lemma if_field_update:
  "(if P then c\<lparr>vc_Interval := x\<rparr> else c) = c\<lparr>vc_Interval := (if P then x else vc_Interval c)\<rparr>"
  "(if P then c\<lparr>vc_Timeout := x\<rparr> else c) = c\<lparr>vc_Timeout := (if P then x else vc_Timeout c)\<rparr>"
  "(if P then c\<lparr>vc_Jitter := x\<rparr> else c) = c\<lparr>vc_Jitter := (if P then x else vc_Jitter c)\<rparr>"
  "(if P then c\<lparr>vc_Concurrency := x\<rparr> else c) =
     c\<lparr>vc_Concurrency := (if P then x else vc_Concurrency c)\<rparr>"
  "(if P then c\<lparr>vc_UpstreamTimeout := x\<rparr> else c) =
     c\<lparr>vc_UpstreamTimeout := (if P then x else vc_UpstreamTimeout c)\<rparr>"
  "(if P then c\<lparr>vc_ClusterDomain := y\<rparr> else c) =
     c\<lparr>vc_ClusterDomain := (if P then y else vc_ClusterDomain c)\<rparr>"
  "(if P then c\<lparr>vc_TLSPort := x\<rparr> else c) = c\<lparr>vc_TLSPort := (if P then x else vc_TLSPort c)\<rparr>"
  by simp_all

lemma withDefaults_eq:
  "withDefaults c =
    (let iv = (if vc_Interval c \<le> 0 then DefaultVerifyInterval else vc_Interval c);
         j = (if vc_Jitter c \<le> 0 then DefaultVerifyJitter else vc_Jitter c)
     in c\<lparr>vc_Interval := iv,
          vc_Timeout := (if vc_Timeout c \<le> 0 then DefaultVerifyTimeout else vc_Timeout c),
          vc_Jitter := min j (iv div 2),
          vc_Concurrency := (if vc_Concurrency c \<le> 0 then DefaultVerifyConcurrency
                             else vc_Concurrency c),
          vc_UpstreamTimeout := (if vc_UpstreamTimeout c \<le> 0 then DefaultUpstreamProbeTimeout
                                 else vc_UpstreamTimeout c),
          vc_ClusterDomain := (if vc_ClusterDomain c = '''' then DefaultClusterDomain
                               else vc_ClusterDomain c),
          vc_TLSPort := (if vc_TLSPort c = 0 then tlsListenPortDefault else vc_TLSPort c)\<rparr>)"
proof -
  have "0 < (if vc_Interval c \<le> 0 then DefaultVerifyInterval else vc_Interval c)"
    by (simp add: verify_default_defs)
  then have half: "go_div (if vc_Interval c \<le> 0 then DefaultVerifyInterval else vc_Interval c) 2 =
      (if vc_Interval c \<le> 0 then DefaultVerifyInterval else vc_Interval c) div 2"
    by (intro go_div_nonneg) simp_all
  have clamp: "(if j > m then m else j) = min j m" for j m :: int
    by (simp add: min_def)
  show ?thesis
    by (simp add: withDefaults_def if_field_update Let_def half clamp cong: if_cong split del: if_split)
qed

lemma withDefaults_resolved: "resolved (withDefaults c)"
proof -
  have "0 \<le> min j (iv div 2) \<and> 2 * min j (iv div 2) \<le> iv" if "0 < iv" "0 \<le> j" for iv j :: int
    using that by (auto simp: min_def)
  then show ?thesis
    by (simp add: withDefaults_eq resolved_def Let_def verify_default_defs)
qed

lemma withDefaults_idem: "withDefaults (withDefaults c) = withDefaults c"
  by (simp add: withDefaults_eq Let_def verify_default_defs min_def)

lemma withDefaults_enabled [simp]: "vc_Enabled (withDefaults c) = vc_Enabled c"
  by (simp add: withDefaults_eq Let_def)

lemma withDefaults_upstreamProbe [simp]: "vc_UpstreamProbe (withDefaults c) = vc_UpstreamProbe c"
  by (simp add: withDefaults_eq Let_def)

text \<open>The configuration a round runs with is well formed, whatever was configured: every
  bound is positive, the jitter takes at most half the interval, the port and the cluster
  domain are set; filling in twice is filling in once, and what was configured properly
  stays.\<close>

theorem withDefaults_wellformed:
  "resolved (withDefaults c) \<and> withDefaults (withDefaults c) = withDefaults c \<and>
   vc_Enabled (withDefaults c) = vc_Enabled c \<and> vc_UpstreamProbe (withDefaults c) = vc_UpstreamProbe c \<and>
   vc_TrustBundleFile (withDefaults c) = vc_TrustBundleFile c \<and>
   (resolved c \<and> 0 < vc_Jitter c \<longrightarrow> withDefaults c = c)"
proof (intro conjI impI)
  assume "resolved c \<and> 0 < vc_Jitter c"
  then have "min (vc_Jitter c) (vc_Interval c div 2) = vc_Jitter c" "0 < vc_Interval c" "0 < vc_Timeout c"
    "0 < vc_Concurrency c" "0 < vc_UpstreamTimeout c" "vc_ClusterDomain c \<noteq> ''''" "vc_TLSPort c \<noteq> 0"
    "0 < vc_Jitter c"
    by (auto simp: resolved_def min_def)
  then show "withDefaults c = c"
    unfolding withDefaults_eq Let_def by simp
qed (simp_all add: withDefaults_resolved withDefaults_idem, simp_all add: withDefaults_eq Let_def)

theorem withDefaults_wellformed_witness:
  "withDefaults \<lparr>vc_Enabled = True, vc_Interval = 60, vc_Timeout = 5, vc_Jitter = 10, vc_Concurrency = 2,
      vc_UpstreamProbe = True, vc_UpstreamTimeout = 9, vc_TrustBundleFile = ''/ca.pem'',
      vc_ClusterDomain = ''example.org'', vc_TLSPort = 443\<rparr> =
    \<lparr>vc_Enabled = True, vc_Interval = 60, vc_Timeout = 5, vc_Jitter = 10, vc_Concurrency = 2,
      vc_UpstreamProbe = True, vc_UpstreamTimeout = 9, vc_TrustBundleFile = ''/ca.pem'',
      vc_ClusterDomain = ''example.org'', vc_TLSPort = 443\<rparr>"
  using withDefaults_wellformed [of "\<lparr>vc_Enabled = True, vc_Interval = 60, vc_Timeout = 5, vc_Jitter = 10,
      vc_Concurrency = 2, vc_UpstreamProbe = True, vc_UpstreamTimeout = 9,
      vc_TrustBundleFile = ''/ca.pem'', vc_ClusterDomain = ''example.org'', vc_TLSPort = 443\<rparr>"]
  by (simp add: resolved_def)


section \<open>Targets\<close>

definition serviceFQDN :: "string \<Rightarrow> string \<Rightarrow> string \<Rightarrow> string" where
  "serviceFQDN ns name clusterDomain = name @ ''.'' @ ns @ ''.svc.'' @ clusterDomain"

definition probePath :: "remote_app \<Rightarrow> string" where
  "probePath cr =
     (case spec_Probe (ra_Spec cr) of
        Some p \<Rightarrow> if probe_Path p \<noteq> '''' then probe_Path p else DefaultProbePath
      | None \<Rightarrow> DefaultProbePath)"

record probe_target =
  pt_addr :: string
  pt_serverName :: string
  pt_path :: string
  pt_upstreamTimeout :: duration

lemma probePath_nonempty [simp]: "probePath cr \<noteq> ''''"
  by (simp add: probePath_def DefaultProbePath_def split: option.split)

text \<open>
  A service name is unambiguous for the names Kubernetes admits: a Service name and a
  namespace are DNS labels, which hold no dot.
\<close>

lemma append_dot_inject:
  assumes "CHR ''.'' \<notin> set xs" "CHR ''.'' \<notin> set ys"
    and "xs @ ''.'' @ us = ys @ ''.'' @ vs"
  shows "xs = ys \<and> us = vs"
  using assms
proof (induction xs arbitrary: ys)
  case Nil
  then show ?case by (cases ys) auto
next
  case (Cons x xs)
  then show ?case by (cases ys) auto
qed

lemma serviceFQDN_inject:
  assumes "CHR ''.'' \<notin> set n" "CHR ''.'' \<notin> set n'" "CHR ''.'' \<notin> set ns" "CHR ''.'' \<notin> set ns'"
    and eq: "serviceFQDN ns n d = serviceFQDN ns' n' d"
  shows "ns = ns' \<and> n = n'"
proof -
  have "n @ ''.'' @ (ns @ ''.svc.'' @ d) = n' @ ''.'' @ (ns' @ ''.svc.'' @ d)"
    using eq by (simp add: serviceFQDN_def)
  from append_dot_inject [OF assms(1,2) this]
  have n: "n = n'" and "ns @ ''.'' @ (''svc.'' @ d) = ns' @ ''.'' @ (''svc.'' @ d)"
    by simp_all
  from append_dot_inject [OF assms(3,4) this(2)] n show ?thesis by simp
qed

end
