(* ===== verification/GoText.thy ===== *)
theory GoText
  imports Prelude
begin

text \<open>
  The text functions of Go's standard library that reach a condition message or an
  address: RFC 3339 formatting of a UTC time, \<open>time.Duration.String\<close>,
  \<open>http.StatusText\<close> and \<open>net.JoinHostPort\<close>. The calendar is the proleptic Gregorian one
  counted from 1 January of year 1; its correctness is a round trip with the count of
  days.
\<close>

section \<open>Dates\<close>

definition is_leap :: "int \<Rightarrow> bool" where
  "is_leap y \<longleftrightarrow> y mod 4 = 0 \<and> (y mod 100 \<noteq> 0 \<or> y mod 400 = 0)"

definition month_lengths :: "bool \<Rightarrow> int list" where
  "month_lengths leap = [31, if leap then 29 else 28, 31, 30, 31, 30, 31, 31, 30, 31, 30, 31]"

text \<open>The month and the day within it, from the months left and the days left.\<close>

fun month_day :: "int \<Rightarrow> int list \<Rightarrow> int \<Rightarrow> int \<times> int" where
  "month_day m [] d = (m, d + 1)"
| "month_day m [l] d = (m, d + 1)"
| "month_day m (l # ls) d = (if d < l then (m, d + 1) else month_day (m + 1) ls (d - l))"

text \<open>The year and the day of the year, from the days since 1 January of year 1.\<close>

definition year_day :: "int \<Rightarrow> int \<times> int" where
  "year_day days =
     (let n400 = days div 146097; d = days mod 146097;
          n100 = min (d div 36524) 3; d = d - n100 * 36524;
          n4 = d div 1461; d = d mod 1461;
          n1 = min (d div 365) 3; d = d - n1 * 365
      in (400 * n400 + 100 * n100 + 4 * n4 + n1 + 1, d))"

definition civil_date :: "int \<Rightarrow> int \<times> int \<times> int" where
  "civil_date days =
     (let (y, d) = year_day days; (m, dd) = month_day 1 (month_lengths (is_leap y)) d
      in (y, m, dd))"

definition days_before_year :: "int \<Rightarrow> int" where
  "days_before_year y = 365 * (y - 1) + (y - 1) div 4 - (y - 1) div 100 + (y - 1) div 400"

definition days_of_civil :: "int \<times> int \<times> int \<Rightarrow> int" where
  "days_of_civil = (\<lambda>(y, m, d).
     days_before_year y + sum_list (take (nat (m - 1)) (month_lengths (is_leap y))) + (d - 1))"

text \<open>The four parts of the day count: cycles of 400, 100, 4 years and the year itself.\<close>

lemma year_day_parts:
  obtains a b c e d where
    "year_day days = (400 * a + 100 * b + 4 * c + e + 1, d)"
    "days = 146097 * a + 36524 * b + 1461 * c + 365 * e + d"
    "0 \<le> b" "b \<le> 3" "0 \<le> c" "c \<le> 24" "0 \<le> e" "e \<le> 3" "0 \<le> d"
    "d < 366" "e < 3 \<or> (c = 24 \<and> b < 3) \<longrightarrow> d < 365"
proof -
  define a where "a = days div 146097"
  define r where "r = days mod 146097"
  define b where "b = min (r div 36524) 3"
  define r2 where "r2 = r - b * 36524"
  define c where "c = r2 div 1461"
  define r3 where "r3 = r2 mod 1461"
  define e where "e = min (r3 div 365) 3"
  define d where "d = r3 - e * 365"
  have days: "days = 146097 * a + r" and r: "0 \<le> r" "r < 146097"
    by (simp_all add: a_def r_def)
  have b: "0 \<le> b" "b \<le> 3" "0 \<le> r2" "b < 3 \<Longrightarrow> r2 < 36524" "r2 < 36525"
    using r unfolding r2_def b_def by (auto simp: min_def)
  have c: "r2 = 1461 * c + r3" "0 \<le> c" "c \<le> 24" "0 \<le> r3" "r3 < 1461"
    using b unfolding c_def r3_def by auto
  have q: "0 \<le> r3 div 365" "r3 = 365 * (r3 div 365) + r3 mod 365" "0 \<le> r3 mod 365" "r3 mod 365 < 365"
    using c by (simp_all add: pos_imp_zdiv_nonneg_iff)
  have e: "0 \<le> e" "e \<le> 3" "0 \<le> d" "d < 366" "e < 3 \<longrightarrow> d < 365"
  proof -
    show "0 \<le> e" "e \<le> 3" using q by (simp_all add: e_def)
    consider "r3 div 365 \<le> 3" "e = r3 div 365" | "3 < r3 div 365" "e = 3"
      unfolding e_def by linarith
    then show "0 \<le> d" "d < 366" "e < 3 \<longrightarrow> d < 365"
      using q c unfolding d_def by (cases; linarith)+
  qed
  have last: "d < 365" if "c = 24" "b < 3"
  proof -
    have "r3 < 1460" using that b(4) c(1) by linarith
    then show ?thesis using e unfolding d_def by (cases "e = 3") linarith+
  qed
  show ?thesis
  proof (rule that)
    show "year_day days = (400 * a + 100 * b + 4 * c + e + 1, d)"
      by (simp add: year_day_def Let_def a_def b_def c_def d_def e_def r_def r2_def r3_def)
    show "days = 146097 * a + 36524 * b + 1461 * c + 365 * e + d"
      using days c(1) by (simp add: r2_def d_def)
    show "e < 3 \<or> (c = 24 \<and> b < 3) \<longrightarrow> d < 365"
      using e(5) last by blast
  qed (use b c e in simp_all)
qed

lemma days_before_year_parts:
  fixes a b c e :: int
  assumes "0 \<le> b" "b \<le> 3" "0 \<le> c" "c \<le> 24" "0 \<le> e" "e \<le> 3"
  shows "days_before_year (400 * a + 100 * b + 4 * c + e + 1) =
    146097 * a + 36524 * b + 1461 * c + 365 * e"
proof -
  define y where "y = 400 * a + 100 * b + 4 * c + e"
  have "y div 4 = 100 * a + 25 * b + c" "y div 100 = 4 * a + b" "y div 400 = a"
    using assms unfolding y_def by linarith+
  moreover have "days_before_year (y + 1) = 365 * y + y div 4 - y div 100 + y div 400"
    by (simp add: days_before_year_def)
  ultimately show ?thesis by (simp add: y_def)
qed

lemma cycle_mod_zero:
  fixes k n q :: int
  assumes "1 \<le> k" "k \<le> n"
  shows "(n * q + k) mod n = 0 \<longleftrightarrow> k = n"
proof (cases "k = n")
  case True
  then show ?thesis by simp
next
  case False
  then have "k mod n = k" using assms by simp
  then show ?thesis using False assms by simp
qed

lemma is_leap_parts:
  fixes a b c e :: int
  assumes "0 \<le> b" "b \<le> 3" "0 \<le> c" "c \<le> 24" "0 \<le> e" "e \<le> 3"
  shows "is_leap (400 * a + 100 * b + 4 * c + e + 1) \<longleftrightarrow> e = 3 \<and> (c = 24 \<longrightarrow> b = 3)"
proof -
  define y where "y = 400 * a + 100 * b + 4 * c + e + 1"
  have "y = 4 * (100 * a + 25 * b + c) + (e + 1)" by (simp add: y_def)
  then have m4: "y mod 4 = 0 \<longleftrightarrow> e = 3"
    using cycle_mod_zero [of "e + 1" 4 "100 * a + 25 * b + c"] assms by auto
  have ce: "4 * c + e + 1 = 100 \<longleftrightarrow> c = 24 \<and> e = 3"
    using assms by linarith
  have "y = 100 * (4 * a + b) + (4 * c + e + 1)" by (simp add: y_def)
  then have m100: "y mod 100 = 0 \<longleftrightarrow> c = 24 \<and> e = 3"
    using cycle_mod_zero [of "4 * c + e + 1" 100 "4 * a + b"] assms ce by simp
  have bce: "100 * b + 4 * c + e + 1 = 400 \<longleftrightarrow> b = 3 \<and> c = 24 \<and> e = 3"
    using assms by linarith
  have "y = 400 * a + (100 * b + 4 * c + e + 1)" by (simp add: y_def)
  then have m400: "y mod 400 = 0 \<longleftrightarrow> b = 3 \<and> c = 24 \<and> e = 3"
    using cycle_mod_zero [of "100 * b + 4 * c + e + 1" 400 a] assms bce by simp
  show ?thesis
    using m4 m100 m400 unfolding is_leap_def y_def [symmetric] by auto
qed

lemma sum_month_lengths: "sum_list (month_lengths leap) = (if leap then 366 else 365)"
  by (simp add: month_lengths_def)

text \<open>Walking the months loses no day and ends inside a month.\<close>

lemma month_day_spec:
  assumes "ls \<noteq> []" and "0 \<le> d" and "d < sum_list ls" and "month_day m ls d = (m', d')"
  shows "m \<le> m' \<and> m' < m + int (length ls) \<and> 1 \<le> d' \<and> d' \<le> ls ! nat (m' - m) \<and>
    sum_list (take (nat (m' - m)) ls) + (d' - 1) = d"
  using assms
proof (induction m ls d rule: month_day.induct)
  case (1 m d)
  then show ?case by simp
next
  case (2 m l d)
  then show ?case by auto
next
  case (3 m l l' ls d)
  show ?case
  proof (cases "d < l")
    case True
    with 3 show ?thesis by auto
  next
    case False
    with 3 have IH: "m + 1 \<le> m' \<and> m' < m + 1 + int (length (l' # ls)) \<and> 1 \<le> d' \<and>
        d' \<le> (l' # ls) ! nat (m' - (m + 1)) \<and>
        sum_list (take (nat (m' - (m + 1))) (l' # ls)) + (d' - 1) = d - l"
      by auto
    then have "nat (m' - m) = Suc (nat (m' - (m + 1)))" by auto
    with IH show ?thesis by auto
  qed
qed

lemma month_lengths_le: "i < length (month_lengths leap) \<Longrightarrow> month_lengths leap ! i \<le> 31"
  by (simp add: month_lengths_def nth_Cons split: nat.splits)

text \<open>
  The fields of a date are in range, and in the four-digit years from 1 to 9999 for the
  days from 1 January of year 1 to 31 December 9999.
\<close>

lemma civil_date_parts:
  obtains y m d where "civil_date days = (y, m, d)" "days_of_civil (y, m, d) = days"
    "1 \<le> m" "m \<le> 12" "1 \<le> d" "d \<le> 31" "0 \<le> days \<Longrightarrow> days < 3652059 \<Longrightarrow> 1 \<le> y \<and> y \<le> 9999"
proof -
  obtain a b c e d where
    yd: "year_day days = (400 * a + 100 * b + 4 * c + e + 1, d)"
    and days: "days = 146097 * a + 36524 * b + 1461 * c + 365 * e + d"
    and bounds: "0 \<le> b" "b \<le> 3" "0 \<le> c" "c \<le> 24" "0 \<le> e" "e \<le> 3"
    and d: "0 \<le> d" "d < 366" "e < 3 \<or> (c = 24 \<and> b < 3) \<longrightarrow> d < 365"
    by (rule year_day_parts [of days])
  let ?y = "400 * a + 100 * b + 4 * c + e + 1" and ?ls = "month_lengths (is_leap (400 * a + 100 * b + 4 * c + e + 1))"
  obtain m dd where md: "month_day 1 ?ls d = (m, dd)"
    by (cases "month_day 1 ?ls d")
  have twelve: "length ?ls = 12" "?ls \<noteq> []" by (simp_all add: month_lengths_def)
  have "d < sum_list ?ls"
    using d bounds by (auto simp: sum_month_lengths is_leap_parts)
  then have spec: "1 \<le> m \<and> m < 1 + int (length ?ls) \<and> 1 \<le> dd \<and> dd \<le> ?ls ! nat (m - 1) \<and>
      sum_list (take (nat (m - 1)) ?ls) + (dd - 1) = d"
    by (intro month_day_spec [OF twelve(2) d(1) _ md])
  then have "dd \<le> 31" using month_lengths_le [of "nat (m - 1)" "is_leap ?y"] twelve(1) by force
  moreover have "days_of_civil (?y, m, dd) = days"
    using days_before_year_parts [OF bounds, of a] spec days by (simp add: days_of_civil_def)
  moreover have "civil_date days = (?y, m, dd)"
    by (simp add: civil_date_def yd md)
  moreover have "1 \<le> ?y \<and> ?y \<le> 9999" if "0 \<le> days" "days < 3652059"
  proof -
    have "0 \<le> a" "a \<le> 24" using that days bounds d by linarith+
    moreover have "a = 24 \<Longrightarrow> b = 3 \<Longrightarrow> c = 24 \<Longrightarrow> e \<noteq> 3" using that(2) days d(1) by simp
    ultimately show ?thesis using bounds by linarith
  qed
  ultimately show ?thesis using that spec twelve(1) by simp
qed

lemma civil_date_roundtrip: "days_of_civil (civil_date days) = days"
  by (metis civil_date_parts)


section \<open>Times and durations\<close>

text \<open>\<open>appendInt\<close> of package \<open>time\<close>: decimal, zero padded to a width.\<close>

definition append_int :: "int \<Rightarrow> nat \<Rightarrow> string" where
  "append_int x width =
     (let u = itoa \<bar>x\<bar>
      in (if x < 0 then ''-'' else '''') @ replicate (width - length u) (CHR ''0'') @ u)"

text \<open>\<open>t.Truncate(time.Second)\<close>: down to a multiple of a second since the zero time.\<close>

definition truncate_second :: "go_time \<Rightarrow> go_time" where
  "truncate_second t = t - t mod 1000000000"

text \<open>\<open>t.UTC().Format(time.RFC3339)\<close>.\<close>

definition format_rfc3339 :: "go_time \<Rightarrow> string" where
  "format_rfc3339 t =
     (let secs = t div 1000000000; (y, m, d) = civil_date (secs div 86400); sod = secs mod 86400
      in append_int y 4 @ ''-'' @ append_int m 2 @ ''-'' @ append_int d 2 @ ''T'' @
         append_int (sod div 3600) 2 @ '':'' @ append_int (sod mod 3600 div 60) 2 @ '':'' @
         append_int (sod mod 60) 2 @ ''Z'')"

lemma truncate_second_div: "truncate_second t div 1000000000 = t div 1000000000"
  by (simp add: truncate_second_def minus_mod_eq_mult_div)

lemma format_rfc3339_truncate: "format_rfc3339 (truncate_second t) = format_rfc3339 t"
  by (simp add: format_rfc3339_def truncate_second_div)

lemma format_rfc3339_same_second:
  "t div 1000000000 = t' div 1000000000 \<Longrightarrow> format_rfc3339 t = format_rfc3339 t'"
  by (simp add: format_rfc3339_def)

text \<open>
  Reading the text back: the fields stand at fixed places while the year has four digits.
\<close>

definition parse_rfc3339 :: "string \<Rightarrow> go_time" where
  "parse_rfc3339 s =
     (let field = (\<lambda>i n. atoi (take n (drop i s)));
          days = days_of_civil (field 0 4, field 5 2, field 8 2)
      in (days * 86400 + field 11 2 * 3600 + field 14 2 * 60 + field 17 2) * 1000000000)"

lemma length_itoa_pos: "0 \<le> n \<Longrightarrow> n < 10 ^ w \<Longrightarrow> 0 < w \<Longrightarrow> length (itoa_pos n) \<le> w"
proof (induction n arbitrary: w rule: itoa_pos.induct)
  case (1 n)
  show ?case
  proof (cases "n < 10")
    case True
    with 1 show ?thesis by (simp add: itoa_pos.simps [of n])
  next
    case False
    have "w \<noteq> 1" using False 1(3) by auto
    then obtain v where w: "w = Suc v" "0 < v" using 1(4) by (cases w) auto
    have "n div 10 < 10 ^ v" using 1(3) w by (simp add: div_less_iff_less_mult mult.commute)
    then have "length (itoa_pos (n div 10)) \<le> v" using 1 False w by simp
    with False w show ?thesis by (simp add: itoa_pos.simps [of n])
  qed
qed

lemma atoi_pos_zeros: "atoi_pos (replicate k (CHR ''0'') @ s) = atoi_pos s"
  by (induction k) (simp_all add: atoi_pos_def digit_val_def)

lemma atoi_digits: "list_all is_digit s \<Longrightarrow> atoi s = atoi_pos s"
  by (cases s) (auto simp: atoi_def atoi_pos_def dest: is_digit_ne_minus)

lemma append_int_field:
  assumes "0 \<le> x" and "x < 10 ^ w" and "0 < w"
  shows "length (append_int x w) = w" "atoi (append_int x w) = x" "list_all is_digit (append_int x w)"
proof -
  have shape: "append_int x w = replicate (w - length (itoa_pos x)) (CHR ''0'') @ itoa_pos x"
    using assms by (simp add: append_int_def itoa_def Let_def)
  from shape show "length (append_int x w) = w" using length_itoa_pos [OF assms] by simp
  show "list_all is_digit (append_int x w)"
    using itoa_pos_digits [OF assms(1)] by (auto simp: shape list_all_iff is_digit_def)
  then show "atoi (append_int x w) = x"
    by (simp add: atoi_digits) (simp add: shape atoi_pos_zeros assms)
qed

lemma parse_format_rfc3339:
  assumes "0 \<le> t" and "t < 3652059 * 86400 * 1000000000"
  shows "parse_rfc3339 (format_rfc3339 t @ rest) = truncate_second t"
proof -
  define secs where "secs = t div 1000000000"
  define sod where "sod = secs mod 86400"
  have "0 \<le> secs div 86400" "secs div 86400 < 3652059" using assms by (simp_all add: secs_def)
  then obtain y m d where cd: "civil_date (secs div 86400) = (y, m, d)"
    and days: "days_of_civil (y, m, d) = secs div 86400"
    and b: "1 \<le> m" "m \<le> 12" "1 \<le> d" "d \<le> 31" "1 \<le> y" "y \<le> 9999"
    by (metis civil_date_parts)
  have sod: "0 \<le> sod" "sod < 86400" by (simp_all add: sod_def)
  have f: "length (append_int y 4) = 4" "atoi (append_int y 4) = y"
    "length (append_int m 2) = 2" "atoi (append_int m 2) = m"
    "length (append_int d 2) = 2" "atoi (append_int d 2) = d"
    "length (append_int (sod div 3600) 2) = 2" "atoi (append_int (sod div 3600) 2) = sod div 3600"
    "length (append_int (sod mod 3600 div 60) 2) = 2"
    "atoi (append_int (sod mod 3600 div 60) 2) = sod mod 3600 div 60"
    "length (append_int (sod mod 60) 2) = 2" "atoi (append_int (sod mod 60) 2) = sod mod 60"
    using b sod by (intro append_int_field; simp)+
  have "format_rfc3339 t = append_int y 4 @ ''-'' @ append_int m 2 @ ''-'' @ append_int d 2 @ ''T'' @
      append_int (sod div 3600) 2 @ '':'' @ append_int (sod mod 3600 div 60) 2 @ '':'' @
      append_int (sod mod 60) 2 @ ''Z''"
    by (simp add: format_rfc3339_def Let_def flip: secs_def sod_def) (simp add: cd)
  then have "parse_rfc3339 (format_rfc3339 t @ rest) =
      (days_of_civil (y, m, d) * 86400 + sod div 3600 * 3600 + sod mod 3600 div 60 * 60 + sod mod 60) * 1000000000"
    by (simp add: parse_rfc3339_def Let_def f)
  also have "sod div 3600 * 3600 + sod mod 3600 div 60 * 60 + sod mod 60 = sod"
  proof -
    have "sod mod 60 = sod mod 3600 mod 60" by (simp add: mod_mod_cancel)
    then have "sod mod 3600 div 60 * 60 + sod mod 60 = sod mod 3600" by (simp only: div_mult_mod_eq)
    then show ?thesis by (simp only: add.assoc div_mult_mod_eq)
  qed
  then have "(days_of_civil (y, m, d) * 86400 + sod div 3600 * 3600 + sod mod 3600 div 60 * 60 + sod mod 60) *
      1000000000 = (secs div 86400 * 86400 + secs mod 86400) * 1000000000"
    by (simp only: days add.assoc) (simp add: sod_def)
  finally show ?thesis
    by (simp only: div_mult_mod_eq) (simp add: truncate_second_def secs_def minus_mod_eq_div_mult)
qed

text \<open>
  \<open>Duration.String\<close>. \<open>fmt_frac v prec\<close> is the text of the last \<open>prec\<close> decimal digits of \<open>v\<close> as
  a fraction, without trailing zeros and without the point when they are all zero. The
  micro sign is the two bytes 0xC2 0xB5.
\<close>

fun drop_zeros :: "string \<Rightarrow> string" where
  "drop_zeros [] = []"
| "drop_zeros (c # cs) = (if c = CHR ''0'' then drop_zeros cs else c # cs)"

definition fmt_frac :: "int \<Rightarrow> nat \<Rightarrow> string" where
  "fmt_frac v prec =
     (let ds = rev (drop_zeros (rev (append_int (v mod 10 ^ prec) prec)))
      in if ds = [] then [] else ''.'' @ ds)"

definition duration_string :: "duration \<Rightarrow> string" where
  "duration_string d =
     (let u = \<bar>d\<bar>; neg = (if d < 0 then ''-'' else '''')
      in if u = 0 then ''0s''
         else if u < 1000 then neg @ itoa u @ ''ns''
         else if u < 1000000
         then neg @ itoa (u div 1000) @ fmt_frac u 3 @ [char_of (194::int), char_of (181::int), CHR ''s'']
         else if u < 1000000000 then neg @ itoa (u div 1000000) @ fmt_frac u 6 @ ''ms''
         else (let secs = u div 1000000000; mins = secs div 60; hours = mins div 60
               in neg @ (if hours > 0 then itoa hours @ ''h'' else '''') @
                  (if mins > 0 then itoa (mins mod 60) @ ''m'' else '''') @
                  itoa (secs mod 60) @ fmt_frac u 9 @ ''s''))"


section \<open>HTTP and addresses\<close>

text \<open>\<open>http.StatusText\<close>: the empty string for a code it has no text for.\<close>

definition status_texts :: "(int \<times> string) list" where
  "status_texts =
    [(100, ''Continue''), (101, ''Switching Protocols''), (102, ''Processing''),
     (103, ''Early Hints''),
     (200, ''OK''), (201, ''Created''), (202, ''Accepted''),
     (203, ''Non-Authoritative Information''), (204, ''No Content''), (205, ''Reset Content''),
     (206, ''Partial Content''), (207, ''Multi-Status''), (208, ''Already Reported''),
     (226, ''IM Used''),
     (300, ''Multiple Choices''), (301, ''Moved Permanently''), (302, ''Found''),
     (303, ''See Other''), (304, ''Not Modified''), (305, ''Use Proxy''),
     (307, ''Temporary Redirect''), (308, ''Permanent Redirect''),
     (400, ''Bad Request''), (401, ''Unauthorized''), (402, ''Payment Required''),
     (403, ''Forbidden''), (404, ''Not Found''), (405, ''Method Not Allowed''),
     (406, ''Not Acceptable''), (407, ''Proxy Authentication Required''),
     (408, ''Request Timeout''), (409, ''Conflict''), (410, ''Gone''), (411, ''Length Required''),
     (412, ''Precondition Failed''), (413, ''Request Entity Too Large''),
     (414, ''Request URI Too Long''), (415, ''Unsupported Media Type''),
     (416, ''Requested Range Not Satisfiable''), (417, ''Expectation Failed''),
     (418, [CHR ''I'', char_of (39::int)] @ ''m a teapot''), (421, ''Misdirected Request''),
     (422, ''Unprocessable Entity''), (423, ''Locked''), (424, ''Failed Dependency''),
     (425, ''Too Early''), (426, ''Upgrade Required''), (428, ''Precondition Required''),
     (429, ''Too Many Requests''), (431, ''Request Header Fields Too Large''),
     (451, ''Unavailable For Legal Reasons''),
     (500, ''Internal Server Error''), (501, ''Not Implemented''), (502, ''Bad Gateway''),
     (503, ''Service Unavailable''), (504, ''Gateway Timeout''),
     (505, ''HTTP Version Not Supported''), (506, ''Variant Also Negotiates''),
     (507, ''Insufficient Storage''), (508, ''Loop Detected''), (510, ''Not Extended''),
     (511, ''Network Authentication Required'')]"

definition http_StatusText :: "int \<Rightarrow> string" where
  "http_StatusText code = (case map_of status_texts code of Some t \<Rightarrow> t | None \<Rightarrow> '''')"

text \<open>
  \<open>net.JoinHostPort\<close>: a host with a colon (an IPv6 literal) is put in brackets.
\<close>

definition join_host_port :: "string \<Rightarrow> string \<Rightarrow> string" where
  "join_host_port host port =
     (if CHR '':'' \<in> set host then ''['' @ host @ '']:'' @ port else host @ '':'' @ port)"

lemma bracketed_host:
  assumes "x @ '':'' @ p = ''['' @ y @ '']:'' @ p"
  shows "x = ''['' @ y @ '']''"
proof -
  have "(x @ '':'') @ p = (''['' @ y @ '']:'') @ p" using assms by simp
  then have "x @ '':'' = (''['' @ y @ '']'') @ '':''" by (subst (asm) append_same_eq) simp
  then show ?thesis by (subst (asm) append_same_eq)
qed

lemma join_host_port_inject: "join_host_port h p = join_host_port h' p \<longleftrightarrow> h = h'"
proof
  assume eq: "join_host_port h p = join_host_port h' p"
  consider "CHR '':'' \<in> set h" "CHR '':'' \<in> set h'" | "CHR '':'' \<notin> set h" "CHR '':'' \<notin> set h'"
    | "CHR '':'' \<in> set h" "CHR '':'' \<notin> set h'" | "CHR '':'' \<notin> set h" "CHR '':'' \<in> set h'" by blast
  then show "h = h'"
  proof cases
    case 3
    with eq bracketed_host [of h' p h] have "h' = ''['' @ h @ '']''" by (simp add: join_host_port_def)
    with 3 show ?thesis by simp
  next
    case 4
    with eq bracketed_host [of h p h'] have "h = ''['' @ h' @ '']''" by (simp add: join_host_port_def)
    with 4 show ?thesis by simp
  qed (use eq in \<open>simp_all add: join_host_port_def\<close>)
qed simp

end
