(* ===== verification/Status.thy ===== *)
theory Status
  imports Verification GoText "HOL-Library.Monad_Syntax"
begin

text \<open>
  \<open>status.go\<close>: from the pods of a RemoteApp and the latest probe outcome to its status.

  A run-time panic of the source (an index out of range, a nil pointer) is the value
  \<open>None\<close> of the functions that could panic; that it never happens is a lemma. The
  functions return what the code returns: \<open>summarizeStatus\<close> and \<open>summarizeRole\<close> a pair,
  \<open>computeStatus\<close> the status. The condition helpers of
  \<open>k8s.io/apimachinery/pkg/api/meta\<close> are a parameter (\<open>meta_ops\<close>), with their
  documented behaviour as the locale \<open>condition_meta\<close>; \<open>metav1.Now()\<close> is the parameter
  \<open>clock\<close>, the reading at the time the condition of a type is set.

  The lemmas describe the pod summaries (permutation of the pod list, tbot first,
  emptiness of \<open>lastError\<close>), every condition of the computed status, and the fixpoint
  property the reconciler's hot-loop guard needs.
\<close>

section \<open>Constants\<close>

definition noTbotPodsMsg :: string where "noTbotPodsMsg = ''no tbot pods''"

definition reasonCrashLoopBackOff :: string where "reasonCrashLoopBackOff = ''CrashLoopBackOff''"
definition reasonError :: string where "reasonError = ''Error''"
definition reasonContainerCreating :: string where "reasonContainerCreating = ''ContainerCreating''"

definition reasonTunnelReady :: string where "reasonTunnelReady = ''TunnelReady''"
definition reasonPodNotReady :: string where "reasonPodNotReady = ''PodNotReady''"
definition reasonNoPods :: string where "reasonNoPods = ''NoPods''"
definition reasonIdentityIssued :: string where "reasonIdentityIssued = ''IdentityIssued''"
definition reasonIdentityNotIssued :: string where "reasonIdentityNotIssued = ''IdentityNotIssued''"
definition reasonTunnelServing :: string where "reasonTunnelServing = ''TunnelServing''"
definition reasonTunnelNotServing :: string where "reasonTunnelNotServing = ''TunnelNotServing''"
definition reasonCertificateVerified :: string where
  "reasonCertificateVerified = ''CertificateVerified''"
definition reasonCertificateInvalid :: string where
  "reasonCertificateInvalid = ''CertificateInvalid''"
definition reasonTunnelUnreachable :: string where "reasonTunnelUnreachable = ''TunnelUnreachable''"
definition reasonVerificationPending :: string where
  "reasonVerificationPending = ''VerificationPending''"
definition reasonNotVerifiedNotReady :: string where
  "reasonNotVerifiedNotReady = ''TunnelNotReady''"
definition reasonUpstreamReachable :: string where "reasonUpstreamReachable = ''UpstreamReachable''"
definition reasonUpstreamUnreachable :: string where
  "reasonUpstreamUnreachable = ''UpstreamUnreachable''"
definition reasonUpstreamPending :: string where "reasonUpstreamPending = ''ProbePending''"
definition reasonUpstreamNotVerified :: string where
  "reasonUpstreamNotVerified = ''TunnelNotVerified''"

lemmas reason_defs =
  reasonCrashLoopBackOff_def reasonError_def reasonContainerCreating_def reasonTunnelReady_def
  reasonPodNotReady_def reasonNoPods_def reasonIdentityIssued_def reasonIdentityNotIssued_def
  reasonTunnelServing_def reasonTunnelNotServing_def reasonCertificateVerified_def
  reasonCertificateInvalid_def reasonTunnelUnreachable_def reasonVerificationPending_def
  reasonNotVerifiedNotReady_def reasonUpstreamReachable_def reasonUpstreamUnreachable_def
  reasonUpstreamPending_def reasonUpstreamNotVerified_def


section \<open>One pod\<close>

definition PodReady :: string where "PodReady = ''Ready''"
definition PodFailed :: string where "PodFailed = ''Failed''"

fun conditions_ready :: "pod_condition list \<Rightarrow> bool" where
  "conditions_ready [] = False"
| "conditions_ready (c # cs) =
     (if pc_Type c = PodReady then pc_Status c = ConditionTrue else conditions_ready cs)"

definition isPodReady :: "pod \<Rightarrow> bool" where
  "isPodReady p = conditions_ready (pod_Conditions p)"

fun liveTbotPods :: "pod list \<Rightarrow> pod list" where
  "liveTbotPods [] = []"
| "liveTbotPods (p # ps) =
     (if pod_DeletionTimestamp p \<noteq> None then liveTbotPods ps else p # liveTbotPods ps)"

definition allContainerStatuses :: "pod \<Rightarrow> container_status list" where
  "allContainerStatuses p = pod_InitContainerStatuses p @ pod_ContainerStatuses p"

text \<open>
  The loop of \<open>unreadyContainers\<close> with its two variables: the index \<open>tbot\<close> of the tbot
  entry in \<open>out\<close>, \<open>-1\<close> when there is none yet, and \<open>out\<close>. The swap after it is guarded by
  \<open>tbot > 0\<close>.
\<close>

fun unready_loop ::
  "container_status list \<Rightarrow> int \<Rightarrow> container_status list \<Rightarrow> int \<times> container_status list" where
  "unready_loop [] tbot out = (tbot, out)"
| "unready_loop (cs # css) tbot out =
     (if cs_Ready cs then unready_loop css tbot out
      else unready_loop css (if cs_Name cs = tbotContainerName then int (length out) else tbot)
             (out @ [cs]))"

definition unreadyContainers :: "pod \<Rightarrow> container_status list" where
  "unreadyContainers p =
     (case unready_loop (allContainerStatuses p) (-1) [] of
        (tbot, out) \<Rightarrow>
          if tbot > 0 then out[0 := out ! nat tbot, nat tbot := out ! 0] else out)"

fun findContainer :: "container_status list \<Rightarrow> string \<Rightarrow> container_status option" where
  "findContainer [] container = None"
| "findContainer (cs # css) container =
     (if cs_Name cs = container then Some cs else findContainer css container)"

definition findContainerStatus :: "pod \<Rightarrow> string \<Rightarrow> container_status option" where
  "findContainerStatus p container = findContainer (allContainerStatuses p) container"

text \<open>The two guarded returns in the loop of \<open>podErrorReason\<close>.\<close>

definition containerReason :: "container_status \<Rightarrow> string option" where
  "containerReason cs =
     (let waiting = (case state_Waiting (cs_State cs) of Some w \<Rightarrow> w_Reason w | None \<Rightarrow> '''');
          terminated = (case state_Terminated (cs_State cs) of Some t \<Rightarrow> t_Reason t | None \<Rightarrow> '''')
      in if waiting \<noteq> '''' then Some waiting
         else if terminated \<noteq> '''' then Some terminated else None)"

definition podErrorReason :: "pod \<Rightarrow> string" where
  "podErrorReason p =
     (case first_some containerReason (unreadyContainers p) of
        Some r \<Rightarrow> r
      | None \<Rightarrow>
          if pod_Phase p = PodFailed
          then if pod_Reason p \<noteq> '''' then pod_Reason p else ''Failed''
          else pod_Phase p)"

definition containerWaitingSummary :: "container_status \<Rightarrow> string" where
  "containerWaitingSummary cs =
     (case state_Waiting (cs_State cs) of
        None \<Rightarrow> ''''
      | Some w \<Rightarrow>
          let first = (if cs_RestartCount cs > 0
                       then w_Reason w @ '' ('' @ itoa (cs_RestartCount cs) @ '' restarts)''
                       else w_Reason w);
              parts = (case state_Terminated (cs_LastTerminationState cs) of
                         Some t \<Rightarrow> [first, ''last termination: '' @ t_Reason t @ '' ('' @
                                           itoa (t_ExitCode t) @ '')'']
                       | None \<Rightarrow> [first]);
              out = strings_join parts '', ''
          in if w_Message w \<noteq> '''' then out @ '': '' @ w_Message w else out)"

definition containerTerminatedSummary :: "container_status \<Rightarrow> string" where
  "containerTerminatedSummary cs =
     (case state_Terminated (cs_State cs) of
        None \<Rightarrow> ''''
      | Some t \<Rightarrow> ''Terminated: '' @ t_Reason t @ '' ('' @ itoa (t_ExitCode t) @ '')'')"

text \<open>
  The two guarded returns in the loops of \<open>summarizePodError\<close> and \<open>summarizeRole\<close>.
\<close>

definition containerSummary :: "container_status \<Rightarrow> string option" where
  "containerSummary cs =
     (if containerWaitingSummary cs \<noteq> '''' then Some (containerWaitingSummary cs)
      else if containerTerminatedSummary cs \<noteq> '''' then Some (containerTerminatedSummary cs)
      else None)"

definition summarizePodError :: "pod option \<Rightarrow> string" where
  "summarizePodError pod =
     (case pod of
        None \<Rightarrow> noTbotPodsMsg
      | Some p \<Rightarrow>
          if isPodReady p then ''''
          else (case first_some containerSummary (unreadyContainers p) of
                  Some msg \<Rightarrow> msg
                | None \<Rightarrow>
                    if pod_Phase p = PodFailed
                    then ''Failed: '' @ (if pod_Reason p = '''' then ''Failed'' else pod_Reason p)
                    else if pod_Phase p \<noteq> '''' then pod_Phase p
                    else ''unknown pod state''))"


section \<open>Many pods\<close>

definition errorSeverity :: "string \<Rightarrow> int" where
  "errorSeverity reason =
     (if reason \<in> {''ImagePullBackOff'', ''ErrImagePull'', ''CreateContainerConfigError''} then 1
      else if reason = reasonCrashLoopBackOff then 2
      else if reason \<in> {reasonError, ''OOMKilled''} then 3
      else if reason \<in> {reasonContainerCreating, ''PodInitializing''} then 4
      else 5)"

definition severity_less :: "pod \<Rightarrow> pod \<Rightarrow> bool" where
  "severity_less a b =
     (let sa = errorSeverity (podErrorReason a); sb = errorSeverity (podErrorReason b)
      in if sa \<noteq> sb then sa < sb else pod_Name a < pod_Name b)"

definition sortBySeverityThenName :: "pod list \<Rightarrow> pod list" where
  "sortBySeverityThenName pods = slice_stable severity_less pods"

definition pickWorstSummary :: "pod list \<Rightarrow> string option" where
  "pickWorstSummary pods =
     (let ordered = sortBySeverityThenName pods in
      case first_some (\<lambda>p. let msg = summarizePodError (Some p)
                            in if msg \<noteq> '''' then Some msg else None) ordered of
        Some msg \<Rightarrow> Some msg
      | None \<Rightarrow> (case ordered of [] \<Rightarrow> None | p # _ \<Rightarrow> Some (summarizePodError (Some p))))"

definition summarizeStatus :: "pod list \<Rightarrow> (bool \<times> string) option" where
  "summarizeStatus pods =
     (let live = liveTbotPods pods in
      if live = [] then Some (False, noTbotPodsMsg)
      else if \<exists>p \<in> set live. isPodReady p then Some (True, '''')
      else do { msg \<leftarrow> pickWorstSummary live; Some (False, msg) })"

text \<open>
  The first loop of \<open>summarizeRole\<close>: \<open>None\<close> is the early return on a ready container,
  \<open>Some unready\<close> the collected pods.
\<close>

fun role_loop :: "string \<Rightarrow> pod list \<Rightarrow> pod list \<Rightarrow> pod list option" where
  "role_loop container [] unready = Some unready"
| "role_loop container (p # ps) unready =
     (case findContainerStatus p container of
        None \<Rightarrow> role_loop container ps unready
      | Some cs \<Rightarrow> if cs_Ready cs then None else role_loop container ps (unready @ [p]))"

text \<open>
  The second loop. \<open>containerWaitingSummary\<close> dereferences its argument, so a pod without
  the container is the panic.
\<close>

fun role_summary :: "string \<Rightarrow> pod list \<Rightarrow> string option" where
  "role_summary container [] = Some ''not ready''"
| "role_summary container (p # ps) =
     (case findContainerStatus p container of
        None \<Rightarrow> None
      | Some cs \<Rightarrow> (case containerSummary cs of
                      Some msg \<Rightarrow> Some msg
                    | None \<Rightarrow> role_summary container ps))"

definition summarizeRole :: "pod list \<Rightarrow> string \<Rightarrow> (bool \<times> string) option" where
  "summarizeRole pods container =
     (let live = liveTbotPods pods in
      if live = [] then Some (False, noTbotPodsMsg)
      else case role_loop container live [] of
             None \<Rightarrow> Some (True, '''')
           | Some unready \<Rightarrow>
               if unready = [] then Some (False, '''')
               else do { msg \<leftarrow> role_summary container (sortBySeverityThenName unready);
                         Some (False, msg) })"


section \<open>The condition helpers of apimachinery\<close>

text \<open>
  \<open>SetStatusCondition\<close> takes the clock reading it would take from \<open>metav1.Now()\<close>. The
  laws are its documentation, for a new condition whose \<open>LastTransitionTime\<close> is unset (the
  operator never sets it): an existing condition of the type is updated in place, with a
  new transition time only when the status differs; otherwise the condition is appended.
\<close>

record meta_ops =
  SetStatusCondition :: "go_time \<Rightarrow> condition list \<Rightarrow> condition \<Rightarrow> condition list"
  RemoveStatusCondition :: "condition list \<Rightarrow> string \<Rightarrow> condition list"
  FindStatusCondition :: "condition list \<Rightarrow> string \<Rightarrow> condition option"

definition has_type :: "string \<Rightarrow> condition \<Rightarrow> bool" where
  "has_type t c \<longleftrightarrow> cond_type c = t"

locale condition_meta =
  fixes ops :: meta_ops
  assumes find_law: "FindStatusCondition ops cs t = find (has_type t) cs"
    and remove_law: "RemoveStatusCondition ops cs t = filter (\<lambda>c. \<not> has_type t c) cs"
    and set_absent: "cond_lastTransitionTime c = 0 \<Longrightarrow> \<forall>x \<in> set cs. \<not> has_type (cond_type c) x \<Longrightarrow>
      SetStatusCondition ops now cs c = cs @ [c\<lparr>cond_lastTransitionTime := now\<rparr>]"
    and set_present: "cond_lastTransitionTime c = 0 \<Longrightarrow>
      \<forall>x \<in> set xs. \<not> has_type (cond_type c) x \<Longrightarrow> has_type (cond_type c) old \<Longrightarrow>
      SetStatusCondition ops now (xs @ old # ys) c =
        xs @ c\<lparr>cond_lastTransitionTime :=
                 (if cond_status old = cond_status c then cond_lastTransitionTime old else now)\<rparr> # ys"


section \<open>Conditions\<close>

definition statusCodeText :: "int \<Rightarrow> string" where
  "statusCodeText code =
     (let text = http_StatusText code
      in if text \<noteq> '''' then itoa code @ '' '' @ text else itoa code)"

definition boolToConditionStatus :: "bool \<Rightarrow> condition_status" where
  "boolToConditionStatus b = (if b then ConditionTrue else ConditionFalse)"

definition readyConditionReason :: "bool \<Rightarrow> string \<Rightarrow> string" where
  "readyConditionReason ready lastError =
     (if ready then reasonTunnelReady
      else if lastError = noTbotPodsMsg then reasonNoPods
      else reasonPodNotReady)"

text \<open>A \<open>metav1.Condition\<close> literal: \<open>LastTransitionTime\<close> is left at its zero value.\<close>

definition mk_condition :: "string \<Rightarrow> int \<Rightarrow> condition_status \<times> string \<times> string \<Rightarrow> condition" where
  "mk_condition condType generation body =
     (case body of (st, reason, message) \<Rightarrow>
        \<lparr>cond_type = condType, cond_status = st, cond_observedGeneration = generation,
         cond_lastTransitionTime = 0, cond_reason = reason, cond_message = message\<rparr>)"

definition roleCondition ::
  "string \<Rightarrow> int \<Rightarrow> bool \<Rightarrow> string \<Rightarrow> string \<Rightarrow> string \<Rightarrow> string \<Rightarrow> condition" where
  "roleCondition condType generation ready summary trueReason falseReason readyMessage =
     mk_condition condType generation
       (if ready then (ConditionTrue, trueReason, readyMessage)
        else if summary = '''' then (ConditionUnknown, falseReason, ''no container status yet'')
        else if summary = noTbotPodsMsg then (ConditionFalse, reasonNoPods, summary)
        else (ConditionFalse, falseReason, summary))"

definition lastGoodProbe :: "verification_reader \<Rightarrow> namespaced_name \<Rightarrow> string" where
  "lastGoodProbe verifications key =
     (case rd_LastUpstreamSuccess verifications key of
        Some t \<Rightarrow> ''last good probe '' @ format_rfc3339 (truncate_second t)
      | None \<Rightarrow> ''no good probe recorded since this replica started verifying'')"

text \<open>The switch of \<open>setVerifiedCondition\<close>: status, reason and message.\<close>

definition verified_body :: "verification option \<Rightarrow> condition_status \<times> string \<times> string" where
  "verified_body res =
     (case res of
        None \<Rightarrow> (ConditionUnknown, reasonVerificationPending, ''no TLS verification result yet'')
      | Some r \<Rightarrow>
          if v_Result r = ResultVerified then
            (ConditionTrue, reasonCertificateVerified,
             ''served certificate verifies for '' @ v_ServerName r)
          else if v_Result r = ResultNotReady then
            (ConditionUnknown, reasonNotVerifiedNotReady,
             ''tunnel is not ready; certificate not verified'')
          else if v_Result r = ResultCertInvalid then
            (ConditionFalse, reasonCertificateInvalid, v_Detail r)
          else if v_Result r = ResultUnreachable then
            (ConditionFalse, reasonTunnelUnreachable, v_Detail r)
          else
            (ConditionUnknown, reasonVerificationPending,
             ''unclassified verification result '' @ go_quote (v_Result r)))"

definition setVerifiedCondition ::
  "meta_ops \<Rightarrow> go_time \<Rightarrow> condition list \<Rightarrow> remote_app \<Rightarrow> verification_reader option \<Rightarrow>
   condition list" where
  "setVerifiedCondition ops now conditions cr verifications =
     (case verifications of
        None \<Rightarrow> RemoveStatusCondition ops conditions ConditionTypeTunnelVerified
      | Some rd \<Rightarrow>
          if \<not> rd_Enabled rd then RemoveStatusCondition ops conditions ConditionTypeTunnelVerified
          else SetStatusCondition ops now conditions
                 (mk_condition ConditionTypeTunnelVerified (ra_Generation cr)
                    (verified_body (rd_Result rd (ra_key cr)))))"

text \<open>The switch of \<open>upstreamCondition\<close>.\<close>

definition upstream_body ::
  "verification_reader \<Rightarrow> namespaced_name \<Rightarrow> condition_status \<times> string \<times> string" where
  "upstream_body rd key =
     (case rd_Result rd key of
        None \<Rightarrow> (ConditionUnknown, reasonUpstreamPending, ''no upstream probe result yet'')
      | Some r \<Rightarrow>
          if v_Result r = ResultNotReady then
            (ConditionUnknown, reasonNotVerifiedNotReady,
             ''tunnel is not ready; upstream not probed'')
          else if v_Result r \<noteq> ResultVerified then
            (ConditionUnknown, reasonUpstreamNotVerified,
             ''tunnel TLS did not verify; upstream not probed'')
          else if up_Result (v_Upstream r) = UpstreamReachable then
            (ConditionTrue, reasonUpstreamReachable,
             ''upstream answered HTTP '' @ statusCodeText (up_StatusCode (v_Upstream r)) @
             '' for '' @ up_URL (v_Upstream r))
          else if up_Result (v_Upstream r) = UpstreamUnreachable then
            (ConditionFalse, reasonUpstreamUnreachable,
             (if up_StatusCode (v_Upstream r) \<noteq> 0
              then ''upstream returned HTTP '' @ statusCodeText (up_StatusCode (v_Upstream r)) @
                   '' for '' @ up_URL (v_Upstream r)
              else up_Detail (v_Upstream r)) @ ''; '' @ lastGoodProbe rd key)
          else
            (ConditionUnknown, reasonUpstreamPending,
             ''no upstream probe outcome ('' @ go_quote (up_Result (v_Upstream r)) @ '')''))"

definition upstreamCondition ::
  "remote_app \<Rightarrow> verification_reader option \<Rightarrow> condition option" where
  "upstreamCondition cr verifications =
     (case verifications of
        None \<Rightarrow> None
      | Some rd \<Rightarrow>
          if \<not> rd_Enabled rd \<or> \<not> rd_UpstreamProbeEnabled rd then None
          else Some (mk_condition ConditionTypeUpstreamReachable (ra_Generation cr)
                       (upstream_body rd (ra_key cr))))"


section \<open>The status\<close>

text \<open>
  The Ready condition and \<open>lastError\<close>, as \<open>computeStatus\<close> builds them from the pod
  summary and the upstream condition.
\<close>

definition ready_part ::
  "remote_app \<Rightarrow> bool \<Rightarrow> string \<Rightarrow> condition option \<Rightarrow> bool \<times> condition \<times> string" where
  "ready_part cr podsReady lastError upstream =
     (let upstreamDown = (case upstream of Some c \<Rightarrow> cond_status c = ConditionFalse | None \<Rightarrow> False);
          upstreamMessage = (case upstream of Some c \<Rightarrow> cond_message c | None \<Rightarrow> '''');
          ready = (podsReady \<and> \<not> upstreamDown);
          readyCond = mk_condition ConditionTypeReady (ra_Generation cr)
            (boolToConditionStatus ready, readyConditionReason ready lastError, lastError)
      in if ready then (ready, readyCond\<lparr>cond_message := ''tbot tunnel ready''\<rparr>, lastError)
         else if podsReady \<and> upstreamDown then
           (ready, readyCond\<lparr>cond_reason := reasonUpstreamUnreachable,
                             cond_message := upstreamMessage\<rparr>, upstreamMessage)
         else (ready, readyCond, lastError))"

definition reconciled_condition :: "remote_app \<Rightarrow> string \<Rightarrow> condition" where
  "reconciled_condition cr applyErrSummary =
     mk_condition ConditionTypeReconciled (ra_Generation cr)
       (if applyErrSummary = ''''
        then (ConditionTrue, ''ReconcileSucceeded'', ''all owned objects applied'')
        else (ConditionFalse, ''ReconcileError'', applyErrSummary))"

definition computeStatus ::
  "meta_ops \<Rightarrow> (string \<Rightarrow> go_time) \<Rightarrow> remote_app \<Rightarrow> pod list \<Rightarrow> condition list \<Rightarrow> string \<Rightarrow>
   verification_reader option \<Rightarrow> remote_app_status option" where
  "computeStatus ops clock cr pods prevConditions applyErrSummary verifications =
     do {
       (podsReady, podError) \<leftarrow> summarizeStatus pods;
       let upstream = upstreamCondition cr verifications;
       let (ready, readyCond, lastError) = ready_part cr podsReady podError upstream;
       let conditions =
         SetStatusCondition ops (clock ConditionTypeReady) prevConditions readyCond;
       (identityReady, identitySummary) \<leftarrow> summarizeRole pods tbotContainerName;
       let conditions = SetStatusCondition ops (clock ConditionTypeIdentityIssued) conditions
         (roleCondition ConditionTypeIdentityIssued (ra_Generation cr) identityReady
            identitySummary reasonIdentityIssued reasonIdentityNotIssued
            ''tbot reports a usable identity'');
       (servingReady, servingSummary) \<leftarrow> summarizeRole pods ghostunnelContainerName;
       let conditions = SetStatusCondition ops (clock ConditionTypeTunnelServing) conditions
         (roleCondition ConditionTypeTunnelServing (ra_Generation cr) servingReady
            servingSummary reasonTunnelServing reasonTunnelNotServing
            ''TLS listener is accepting connections'');
       let conditions =
         setVerifiedCondition ops (clock ConditionTypeTunnelVerified) conditions cr verifications;
       let conditions =
         (case upstream of
            None \<Rightarrow> RemoveStatusCondition ops conditions ConditionTypeUpstreamReachable
          | Some c \<Rightarrow> SetStatusCondition ops (clock ConditionTypeUpstreamReachable) conditions c);
       let conditions = SetStatusCondition ops (clock ConditionTypeReconciled) conditions
         (reconciled_condition cr applyErrSummary);
       Some \<lparr>st_Ready = ready, st_LastError = lastError,
             st_ObservedGeneration = ra_Generation cr, st_Conditions = conditions\<rparr>
     }"


section \<open>Lemmas: pod summaries\<close>

lemma liveTbotPods_filter: "liveTbotPods pods = filter (\<lambda>p. pod_DeletionTimestamp p = None) pods"
  by (induction pods) auto

lemma set_liveTbotPods [simp]:
  "p \<in> set (liveTbotPods pods) \<longleftrightarrow> p \<in> set pods \<and> pod_DeletionTimestamp p = None"
  by (auto simp: liveTbotPods_filter)

lemma mset_liveTbotPods:
  "mset pods = mset pods' \<Longrightarrow> mset (liveTbotPods pods) = mset (liveTbotPods pods')"
  by (simp add: liveTbotPods_filter mset_filter)

interpretation sev: key_order severity_less "\<lambda>p. (errorSeverity (podErrorReason p), pod_Name p)"
  by unfold_locales (auto simp: severity_less_def Let_def)

lemma mset_sortBySeverityThenName [simp]: "mset (sortBySeverityThenName ps) = mset ps"
  by (simp add: sortBySeverityThenName_def)

lemma set_sortBySeverityThenName [simp]: "set (sortBySeverityThenName ps) = set ps"
  by (simp add: sortBySeverityThenName_def)

lemma sortBySeverityThenName_Nil [simp]: "sortBySeverityThenName ps = [] \<longleftrightarrow> ps = []"
  by (simp add: sortBySeverityThenName_def)

lemma sortBySeverityThenName_perm:
  assumes "mset ps = mset qs" and "inj_on pod_Name (set ps)"
  shows "sortBySeverityThenName ps = sortBySeverityThenName qs"
  unfolding sortBySeverityThenName_def
  using assms by (intro sev.order_independent) (auto simp: inj_on_def)

text \<open>
  The loop of \<open>unreadyContainers\<close> collects the unready containers in order and remembers
  where the last tbot entry stands.
\<close>

lemma unready_loop_out:
  "unready_loop css tbot out = (tbot', out') \<Longrightarrow> out' = out @ filter (\<lambda>cs. \<not> cs_Ready cs) css"
  by (induction css tbot out rule: unready_loop.induct) (auto split: if_splits)

lemma unready_loop_tbot:
  "unready_loop css tbot out = (tbot', out') \<Longrightarrow>
   (tbot = -1 \<and> (\<forall>cs \<in> set out. cs_Name cs \<noteq> tbotContainerName) \<or>
    0 \<le> tbot \<and> tbot < int (length out) \<and> cs_Name (out ! nat tbot) = tbotContainerName) \<Longrightarrow>
   (tbot' = -1 \<and> (\<forall>cs \<in> set out'. cs_Name cs \<noteq> tbotContainerName) \<or>
    0 \<le> tbot' \<and> tbot' < int (length out') \<and> cs_Name (out' ! nat tbot') = tbotContainerName)"
proof (induction css tbot out rule: unready_loop.induct)
  case (2 cs css tbot out)
  show ?case
  proof (cases "cs_Ready cs")
    case False
    then show ?thesis
      using "2.prems"
      by (intro "2.IH"(2)) (auto simp: nth_append nat_less_iff)
  qed (use 2 in auto)
qed auto

lemma mset_swap_head:
  assumes "0 < i" and "i < length xs"
  shows "mset (xs[0 := xs ! i, i := xs ! 0]) = mset xs"
  using assms by (metis length_greater_0_conv list.size(3) mset_swap not_less_zero)

lemma unreadyContainers_mset:
  "mset (unreadyContainers p) = mset (filter (\<lambda>cs. \<not> cs_Ready cs) (allContainerStatuses p))"
proof -
  obtain tbot out where loop: "unready_loop (allContainerStatuses p) (-1) [] = (tbot, out)"
    by fastforce
  have out: "out = filter (\<lambda>cs. \<not> cs_Ready cs) (allContainerStatuses p)"
    using unready_loop_out [OF loop] by simp
  have "tbot = -1 \<or> 0 \<le> tbot \<and> tbot < int (length out)"
    using unready_loop_tbot [OF loop] by auto
  then show ?thesis
    using mset_swap_head [of "nat tbot" out] by (auto simp: unreadyContainers_def loop out)
qed

lemma unreadyContainers_tbot_first:
  assumes "cs \<in> set (allContainerStatuses p)" and "\<not> cs_Ready cs"
    and "cs_Name cs = tbotContainerName"
  shows "\<exists>c cs'. unreadyContainers p = c # cs' \<and> cs_Name c = tbotContainerName"
proof -
  obtain tbot out where loop: "unready_loop (allContainerStatuses p) (-1) [] = (tbot, out)"
    by fastforce
  have "cs \<in> set out"
    using unready_loop_out [OF loop] assms by simp
  then have tbot: "0 \<le> tbot" "tbot < int (length out)" "cs_Name (out ! nat tbot) = tbotContainerName"
    using unready_loop_tbot [OF loop] assms(3) by auto
  then obtain c cs' where out: "out = c # cs'"
    by (cases out) auto
  show ?thesis
  proof (cases "tbot > 0")
    case True
    then obtain k where "nat tbot = Suc k"
      by (metis gr0_conv_Suc zero_less_nat_eq)
    with True tbot show ?thesis by (simp add: unreadyContainers_def loop out)
  next
    case False
    with tbot show ?thesis by (simp add: unreadyContainers_def loop out)
  qed
qed

lemma set_unreadyContainers [simp]:
  "set (unreadyContainers p) = {cs \<in> set (allContainerStatuses p). \<not> cs_Ready cs}"
  using unreadyContainers_mset [of p] by (metis mset_eq_setD set_filter)

lemma containerSummary_nonempty: "containerSummary cs = Some msg \<Longrightarrow> msg \<noteq> ''''"
  by (auto simp: containerSummary_def split: if_splits)

lemma summarizePodError_empty_iff [simp]: "summarizePodError (Some p) = '''' \<longleftrightarrow> isPodReady p"
  by (auto simp: summarizePodError_def split: option.split
      dest!: first_some_SomeD containerSummary_nonempty)

text \<open>\<open>lastError\<close> names the pod that sorts first by severity and name.\<close>

definition worst_pod :: "pod list \<Rightarrow> pod" where
  "worst_pod pods = hd (sortBySeverityThenName pods)"

lemma worst_pod_in: "pods \<noteq> [] \<Longrightarrow> worst_pod pods \<in> set pods"
  unfolding worst_pod_def by (metis hd_in_set set_sortBySeverityThenName sortBySeverityThenName_Nil)

lemma worst_pod_minimal:
  assumes "p \<in> set pods"
  shows "(errorSeverity (podErrorReason (worst_pod pods)), pod_Name (worst_pod pods)) \<le>
         (errorSeverity (podErrorReason p), pod_Name p)"
proof -
  have "sortBySeverityThenName pods \<noteq> []" using assms by auto
  then obtain q qs where "slice_stable severity_less pods = q # qs"
    by (metis neq_Nil_conv sortBySeverityThenName_def)
  with sev.head_minimal [OF this assms] show ?thesis
    by (simp add: worst_pod_def sortBySeverityThenName_def)
qed

lemma pickWorstSummary_unready:
  assumes "pods \<noteq> []" and "\<forall>p \<in> set pods. \<not> isPodReady p"
  shows "pickWorstSummary pods = Some (summarizePodError (Some (worst_pod pods)))"
proof -
  obtain q qs where ord: "sortBySeverityThenName pods = q # qs"
    using assms(1) by (metis neq_Nil_conv sortBySeverityThenName_Nil)
  then have "q \<in> set pods" by (metis list.set_intros(1) set_sortBySeverityThenName)
  with assms(2) show ?thesis by (simp add: pickWorstSummary_def ord worst_pod_def)
qed

definition pods_ready :: "pod list \<Rightarrow> bool" where
  "pods_ready pods \<longleftrightarrow> (\<exists>p \<in> set pods. pod_DeletionTimestamp p = None \<and> isPodReady p)"

definition pod_error :: "pod list \<Rightarrow> string" where
  "pod_error pods =
     (if liveTbotPods pods = [] then noTbotPodsMsg
      else if pods_ready pods then ''''
      else summarizePodError (Some (worst_pod (liveTbotPods pods))))"

lemma summarizeStatus_eq: "summarizeStatus pods = Some (pods_ready pods, pod_error pods)"
proof (cases "liveTbotPods pods = [] \<or> pods_ready pods")
  case True
  then show ?thesis
    by (cases "liveTbotPods pods = []")
      (auto simp: summarizeStatus_def pod_error_def pods_ready_def liveTbotPods_filter
        filter_empty_conv Let_def)
next
  case False
  then have "\<forall>p \<in> set (liveTbotPods pods). \<not> isPodReady p"
    by (fastforce simp: pods_ready_def)
  moreover have "liveTbotPods pods \<noteq> []" using False by simp
  moreover have "\<not> pods_ready pods" using False by simp
  ultimately show ?thesis
    using pickWorstSummary_unready [of "liveTbotPods pods"]
    by (auto simp: summarizeStatus_def pod_error_def Let_def)
qed

lemma pods_ready_live: "pods_ready pods \<Longrightarrow> liveTbotPods pods \<noteq> []"
  by (auto simp: pods_ready_def liveTbotPods_filter filter_empty_conv)

lemma pod_error_empty_iff [simp]: "pod_error pods = '''' \<longleftrightarrow> pods_ready pods"
proof -
  have "\<not> isPodReady (worst_pod (liveTbotPods pods))"
    if "liveTbotPods pods \<noteq> []" "\<not> pods_ready pods"
    using worst_pod_in [OF that(1)] that(2) by (auto simp: pods_ready_def)
  then show ?thesis
    by (auto simp: pod_error_def noTbotPodsMsg_def dest: pods_ready_live)
qed

lemma pods_ready_perm: "mset pods = mset pods' \<Longrightarrow> pods_ready pods = pods_ready pods'"
  unfolding pods_ready_def by (metis mset_eq_setD)

lemma summarizeStatus_perm:
  assumes "mset pods = mset pods'" and "inj_on pod_Name (set pods)"
  shows "summarizeStatus pods = summarizeStatus pods'"
proof -
  have live: "mset (liveTbotPods pods) = mset (liveTbotPods pods')"
    using assms(1) by (rule mset_liveTbotPods)
  have "inj_on pod_Name (set (liveTbotPods pods))"
    using assms(2) by (rule inj_on_subset) auto
  then have "worst_pod (liveTbotPods pods) = worst_pod (liveTbotPods pods')"
    using live by (simp add: worst_pod_def sortBySeverityThenName_perm)
  moreover have "liveTbotPods pods = [] \<longleftrightarrow> liveTbotPods pods' = []"
    using live by (metis mset_zero_iff)
  ultimately show ?thesis
    using pods_ready_perm [OF assms(1)] by (simp add: summarizeStatus_eq pod_error_def)
qed


section \<open>Lemmas: roles\<close>

definition role_unready :: "string \<Rightarrow> pod \<Rightarrow> bool" where
  "role_unready container p \<longleftrightarrow>
     (\<exists>cs. findContainerStatus p container = Some cs \<and> \<not> cs_Ready cs)"

definition role_ready :: "string \<Rightarrow> pod list \<Rightarrow> bool" where
  "role_ready container pods \<longleftrightarrow>
     (\<exists>p \<in> set pods. pod_DeletionTimestamp p = None \<and>
        (\<exists>cs. findContainerStatus p container = Some cs \<and> cs_Ready cs))"

lemma findContainer_find: "findContainer css c = find (\<lambda>cs. cs_Name cs = c) css"
  by (induction css) auto

lemma role_loop_eq:
  "role_loop c ps acc =
     (if \<exists>p \<in> set ps. \<exists>cs. findContainerStatus p c = Some cs \<and> cs_Ready cs then None
      else Some (acc @ filter (role_unready c) ps))"
proof (induction c ps acc rule: role_loop.induct)
  case (2 c p ps acc)
  have "role_unready c p \<longleftrightarrow> (\<exists>cs. findContainerStatus p c = Some cs \<and> \<not> cs_Ready cs)"
    by (simp add: role_unready_def)
  with 2 show ?case by (cases "findContainerStatus p c") auto
qed simp

lemma role_summary_total:
  "\<forall>p \<in> set ps. role_unready c p \<Longrightarrow> \<exists>msg. role_summary c ps = Some msg \<and> msg \<noteq> ''''"
  by (induction c ps rule: role_summary.induct)
    (auto simp: role_unready_def split: option.splits dest: containerSummary_nonempty)

definition role_message :: "string \<Rightarrow> pod list \<Rightarrow> string" where
  "role_message c pods =
     (if liveTbotPods pods = [] then noTbotPodsMsg
      else if role_ready c pods \<or> filter (role_unready c) (liveTbotPods pods) = [] then ''''
      else the (role_summary c (sortBySeverityThenName (filter (role_unready c) (liveTbotPods pods)))))"

lemma role_ready_live: "role_ready c pods \<Longrightarrow> liveTbotPods pods \<noteq> []"
  by (auto simp: role_ready_def liveTbotPods_filter filter_empty_conv)

lemma summarizeRole_eq: "summarizeRole pods c = Some (role_ready c pods, role_message c pods)"
proof -
  have "\<forall>p \<in> set (sortBySeverityThenName (filter (role_unready c) (liveTbotPods pods))). role_unready c p"
    by auto
  from role_summary_total [OF this] obtain msg where
    "role_summary c (sortBySeverityThenName (filter (role_unready c) (liveTbotPods pods))) = Some msg"
    by blast
  moreover have "role_ready c pods \<longleftrightarrow>
    (\<exists>p \<in> set (liveTbotPods pods). \<exists>cs. findContainerStatus p c = Some cs \<and> cs_Ready cs)"
    by (auto simp: role_ready_def)
  ultimately show ?thesis
    using role_ready_live [of c pods]
    by (auto simp: summarizeRole_def role_message_def role_loop_eq Let_def)
qed

lemma role_or_none:
  "findContainerStatus p c = None \<longleftrightarrow>
     \<not> role_unready c p \<and> (\<forall>cs. findContainerStatus p c = Some cs \<longrightarrow> \<not> cs_Ready cs)"
  by (cases "findContainerStatus p c") (auto simp: role_unready_def)

lemma role_message_empty_iff:
  "role_message c pods = '''' \<longleftrightarrow>
     liveTbotPods pods \<noteq> [] \<and>
     (role_ready c pods \<or> (\<forall>p \<in> set (liveTbotPods pods). findContainerStatus p c = None))"
proof -
  have "\<forall>p \<in> set (sortBySeverityThenName (filter (role_unready c) (liveTbotPods pods))). role_unready c p"
    by auto
  from role_summary_total [OF this] obtain msg where
    "role_summary c (sortBySeverityThenName (filter (role_unready c) (liveTbotPods pods))) = Some msg"
    "msg \<noteq> ''''" by blast
  moreover have "filter (role_unready c) (liveTbotPods pods) = [] \<longleftrightarrow>
      (\<forall>p \<in> set (liveTbotPods pods). findContainerStatus p c = None)" if "\<not> role_ready c pods"
    using that role_or_none by (fastforce simp: filter_empty_conv role_ready_def)
  ultimately show ?thesis
    by (auto simp: role_message_def noTbotPodsMsg_def)
qed

lemma summarizeRole_perm:
  assumes "mset pods = mset pods'" and "inj_on pod_Name (set pods)"
  shows "summarizeRole pods c = summarizeRole pods' c"
proof -
  have live: "mset (filter P (liveTbotPods pods)) = mset (filter P (liveTbotPods pods'))" for P
    using mset_liveTbotPods [OF assms(1)] by simp
  have "inj_on pod_Name (set (filter P (liveTbotPods pods)))" for P
    using assms(2) by (rule inj_on_subset) auto
  then have "sortBySeverityThenName (filter P (liveTbotPods pods)) =
      sortBySeverityThenName (filter P (liveTbotPods pods'))" for P
    using live by (intro sortBySeverityThenName_perm)
  moreover have "filter P (liveTbotPods pods) = [] \<longleftrightarrow> filter P (liveTbotPods pods') = []" for P
    using live [of P] by (metis mset_zero_iff)
  moreover have "liveTbotPods pods = [] \<longleftrightarrow> liveTbotPods pods' = []"
    using mset_liveTbotPods [OF assms(1)] by (metis mset_zero_iff)
  moreover have "role_ready c pods = role_ready c pods'"
    unfolding role_ready_def using mset_eq_setD [OF assms(1)] by metis
  ultimately show ?thesis
    by (simp add: summarizeRole_eq role_message_def)
qed


section \<open>Lemmas: conditions\<close>

text \<open>
  What a status update wants of the condition list: per type, a condition to set or its
  absence. The code's sequence of \<open>SetStatusCondition\<close> and \<open>RemoveStatusCondition\<close>
  calls is the fold of \<open>update_condition\<close> over such a list.
\<close>

definition update_condition ::
  "meta_ops \<Rightarrow> (string \<Rightarrow> go_time) \<Rightarrow> string \<times> condition option \<Rightarrow> condition list \<Rightarrow> condition list" where
  "update_condition ops clock w cs =
     (case w of
        (t, None) \<Rightarrow> RemoveStatusCondition ops cs t
      | (t, Some c) \<Rightarrow> SetStatusCondition ops (clock t) cs c)"

definition well_formed_wants :: "(string \<times> condition option) list \<Rightarrow> bool" where
  "well_formed_wants ws \<longleftrightarrow>
     distinct (map fst ws) \<and>
     (\<forall>t c. (t, Some c) \<in> set ws \<longrightarrow> cond_type c = t \<and> cond_lastTransitionTime c = 0)"

text \<open>The transition time moves only when the status does.\<close>

definition stamp :: "go_time \<Rightarrow> condition option \<Rightarrow> condition \<Rightarrow> condition" where
  "stamp now old c =
     c\<lparr>cond_lastTransitionTime :=
         (case old of
            Some o' \<Rightarrow> if cond_status o' = cond_status c then cond_lastTransitionTime o' else now
          | None \<Rightarrow> now)\<rparr>"

definition find_cond :: "string \<Rightarrow> condition list \<Rightarrow> condition option" where
  "find_cond t cs = find (has_type t) cs"

lemma find_cond_simps [simp]:
  "find_cond t [] = None"
  "find_cond t (c # cs) = (if cond_type c = t then Some c else find_cond t cs)"
  by (simp_all add: find_cond_def has_type_def)

lemma find_cond_append:
  "find_cond t (xs @ ys) = (case find_cond t xs of Some c \<Rightarrow> Some c | None \<Rightarrow> find_cond t ys)"
  by (induction xs) auto

lemma find_cond_None: "find_cond t cs = None \<longleftrightarrow> t \<notin> cond_type ` set cs"
  by (induction cs) auto

lemma find_cond_type: "find_cond t cs = Some c \<Longrightarrow> cond_type c = t \<and> c \<in> set cs"
  by (induction cs) (auto split: if_splits)

lemma find_cond_split:
  "find_cond t cs = Some c \<Longrightarrow> \<exists>xs ys. cs = xs @ c # ys \<and> find_cond t xs = None"
proof (induction cs)
  case (Cons a cs)
  show ?case
  proof (cases "cond_type a = t")
    case True
    with Cons.prems show ?thesis by (intro exI [of _ "[]"] exI [of _ cs]) auto
  next
    case False
    with Cons obtain xs ys where "cs = xs @ c # ys" "find_cond t xs = None" by auto
    with False show ?thesis by (intro exI [of _ "a # xs"] exI [of _ ys]) auto
  qed
qed simp

context condition_meta
begin

lemma find_eq: "FindStatusCondition ops cs t = find_cond t cs"
  by (simp add: find_law find_cond_def)

lemma remove_eq: "RemoveStatusCondition ops cs t = filter (\<lambda>c. cond_type c \<noteq> t) cs"
  by (simp add: remove_law has_type_def)

lemma set_cases:
  assumes "cond_lastTransitionTime c = 0"
  obtains (append) "find_cond (cond_type c) cs = None"
      "SetStatusCondition ops now cs c = cs @ [stamp now None c]"
  | (update) xs old ys where "cs = xs @ old # ys" "find_cond (cond_type c) xs = None"
      "cond_type old = cond_type c"
      "SetStatusCondition ops now cs c = xs @ stamp now (Some old) c # ys"
proof (cases "find_cond (cond_type c) cs")
  case None
  then have "\<forall>x \<in> set cs. \<not> has_type (cond_type c) x"
    unfolding find_cond_None has_type_def by (metis imageI)
  from set_absent [OF assms this]
  have "SetStatusCondition ops now cs c = cs @ [stamp now None c]"
    by (simp add: stamp_def)
  with None show ?thesis by (rule append)
next
  case (Some old)
  obtain xs ys where split: "cs = xs @ old # ys" "find_cond (cond_type c) xs = None"
    using find_cond_split [OF Some] by blast
  moreover have "cond_type old = cond_type c"
    using find_cond_type [OF Some] by simp
  moreover from split(2) this have "SetStatusCondition ops now cs c = xs @ stamp now (Some old) c # ys"
    unfolding split(1)
    by (subst set_present [OF assms]) (auto simp: stamp_def has_type_def find_cond_None image_iff)
  ultimately show ?thesis by (rule update)
qed

lemma find_set:
  assumes "cond_lastTransitionTime c = 0"
  shows "find_cond t (SetStatusCondition ops now cs c) =
    (if t = cond_type c then Some (stamp now (find_cond t cs) c) else find_cond t cs)"
  using assms
proof (cases rule: set_cases [where cs = cs and now = now])
  case append
  then show ?thesis by (auto simp: find_cond_append stamp_def split: option.split)
next
  case (update xs old ys)
  then show ?thesis by (auto simp: find_cond_append stamp_def split: option.split)
qed

lemma find_remove:
  "find_cond t (RemoveStatusCondition ops cs t') = (if t = t' then None else find_cond t cs)"
  unfolding remove_eq by (induction cs) auto

lemma set_same:
  assumes "cond_lastTransitionTime c = 0" and "find_cond (cond_type c) cs = Some (stamp t' old c)"
  shows "SetStatusCondition ops now cs c = cs"
  using assms(1)
proof (cases rule: set_cases [where cs = cs and now = now])
  case append
  then show ?thesis using assms(2) by simp
next
  case (update xs old' ys)
  then have "old' = stamp t' old c" using assms(2) by (simp add: find_cond_append)
  with update show ?thesis by (simp add: stamp_def)
qed

lemma remove_absent: "find_cond t cs = None \<Longrightarrow> RemoveStatusCondition ops cs t = cs"
  unfolding remove_eq by (simp add: find_cond_None filter_id_conv image_iff) metis

lemma find_update:
  assumes "\<forall>c. snd w = Some c \<longrightarrow> cond_type c = fst w \<and> cond_lastTransitionTime c = 0"
  shows "find_cond t (update_condition ops clock w cs) =
    (if t = fst w then map_option (stamp (clock t) (find_cond t cs)) (snd w) else find_cond t cs)"
  using assms
  by (cases w) (auto simp: update_condition_def find_set find_remove split: option.split)

lemma find_updates:
  assumes "well_formed_wants ws"
  shows "find_cond t (fold (update_condition ops clock) ws cs) =
    (case map_of ws t of
       None \<Rightarrow> find_cond t cs
     | Some w \<Rightarrow> map_option (stamp (clock t) (find_cond t cs)) w)"
  using assms
proof (induction ws arbitrary: cs)
  case (Cons w ws)
  have wf: "well_formed_wants ws" and fresh: "map_of ws (fst w) = None"
    using Cons.prems by (auto simp: well_formed_wants_def map_of_eq_None_iff)
  have "\<forall>c. snd w = Some c \<longrightarrow> cond_type c = fst w \<and> cond_lastTransitionTime c = 0"
    using Cons.prems by (cases w) (auto simp: well_formed_wants_def)
  from find_update [OF this] show ?case
    using fresh by (cases w) (auto simp: Cons.IH [OF wf] split: option.split)
qed simp

lemma updates_again:
  assumes "well_formed_wants ws"
    and "\<And>t w. (t, w) \<in> set ws \<Longrightarrow> \<exists>t' old. find_cond t cs = map_option (stamp t' old) w"
  shows "fold (update_condition ops clock) ws cs = cs"
proof -
  have "update_condition ops clock w cs = cs" if mem: "w \<in> set ws" for w
  proof -
    obtain t c where w: "w = (t, c)" by (cases w)
    obtain t' old where "find_cond t cs = map_option (stamp t' old) c"
      using assms(2) mem unfolding w by blast
    moreover have "\<forall>d. c = Some d \<longrightarrow> cond_type d = t \<and> cond_lastTransitionTime d = 0"
      using assms(1) mem w by (auto simp: well_formed_wants_def)
    ultimately show ?thesis
      by (cases c) (auto simp: w update_condition_def remove_absent intro: set_same)
  qed
  then show ?thesis by (induction ws) auto
qed

lemma updates_fixpoint:
  assumes "well_formed_wants ws"
  shows "fold (update_condition ops clock') ws (fold (update_condition ops clock) ws cs) =
    fold (update_condition ops clock) ws cs"
proof (rule updates_again [OF assms])
  fix t w assume "(t, w) \<in> set ws"
  then have "map_of ws t = Some w"
    using assms by (simp add: well_formed_wants_def map_of_is_SomeI)
  then show "\<exists>t' old. find_cond t (fold (update_condition ops clock) ws cs) = map_option (stamp t' old) w"
    by (auto simp: find_updates [OF assms])
qed

lemma update_types:
  assumes "\<forall>c. snd w = Some c \<longrightarrow> cond_type c = fst w \<and> cond_lastTransitionTime c = 0"
    and "distinct (map cond_type cs)"
  shows "distinct (map cond_type (update_condition ops clock w cs))"
proof (cases "snd w")
  case None
  then show ?thesis
    using assms(2) by (cases w) (simp add: update_condition_def remove_eq distinct_map_filter)
next
  case (Some c)
  then have c: "cond_type c = fst w" "cond_lastTransitionTime c = 0" using assms(1) by auto
  have upd: "update_condition ops clock w cs = SetStatusCondition ops (clock (fst w)) cs c"
    using Some by (cases w) (simp add: update_condition_def)
  from c(2) show ?thesis
  proof (cases rule: set_cases [where cs = cs and now = "clock (fst w)"])
    case append
    then show ?thesis using assms(2) by (auto simp: upd find_cond_None stamp_def)
  next
    case (update xs old ys)
    then show ?thesis using assms(2) unfolding upd by (auto simp: stamp_def)
  qed
qed

lemma updates_types:
  "well_formed_wants ws \<Longrightarrow> distinct (map cond_type cs) \<Longrightarrow>
   distinct (map cond_type (fold (update_condition ops clock) ws cs))"
proof (induction ws arbitrary: cs)
  case (Cons w ws)
  then have "\<forall>c. snd w = Some c \<longrightarrow> cond_type c = fst w \<and> cond_lastTransitionTime c = 0"
    by (cases w) (auto simp: well_formed_wants_def)
  with Cons show ?case by (auto simp: well_formed_wants_def intro!: Cons.IH update_types)
qed simp

end


section \<open>Lemmas: the status\<close>

definition verified_want ::
  "remote_app \<Rightarrow> verification_reader option \<Rightarrow> condition option" where
  "verified_want cr verifications =
     (case verifications of
        Some rd \<Rightarrow>
          if rd_Enabled rd
          then Some (mk_condition ConditionTypeTunnelVerified (ra_Generation cr)
                       (verified_body (rd_Result rd (ra_key cr))))
          else None
      | None \<Rightarrow> None)"

definition upstream_down :: "remote_app \<Rightarrow> verification_reader option \<Rightarrow> bool" where
  "upstream_down cr verifications \<longleftrightarrow>
     (\<exists>rd v. verifications = Some rd \<and> rd_Enabled rd \<and> rd_UpstreamProbeEnabled rd \<and>
        rd_Result rd (ra_key cr) = Some v \<and> v_Result v = ResultVerified \<and>
        up_Result (v_Upstream v) = UpstreamUnreachable)"

text \<open>The conditions a RemoteApp's status is to carry, in the order the code sets them.\<close>

definition wants ::
  "remote_app \<Rightarrow> pod list \<Rightarrow> string \<Rightarrow> verification_reader option \<Rightarrow>
   (string \<times> condition option) list" where
  "wants cr pods applyErrSummary verifications =
     [(ConditionTypeReady, Some (fst (snd
         (ready_part cr (pods_ready pods) (pod_error pods) (upstreamCondition cr verifications))))),
      (ConditionTypeIdentityIssued, Some (roleCondition ConditionTypeIdentityIssued
         (ra_Generation cr) (role_ready tbotContainerName pods) (role_message tbotContainerName pods)
         reasonIdentityIssued reasonIdentityNotIssued ''tbot reports a usable identity'')),
      (ConditionTypeTunnelServing, Some (roleCondition ConditionTypeTunnelServing
         (ra_Generation cr) (role_ready ghostunnelContainerName pods)
         (role_message ghostunnelContainerName pods)
         reasonTunnelServing reasonTunnelNotServing ''TLS listener is accepting connections'')),
      (ConditionTypeTunnelVerified, verified_want cr verifications),
      (ConditionTypeUpstreamReachable, upstreamCondition cr verifications),
      (ConditionTypeReconciled, Some (reconciled_condition cr applyErrSummary))]"

lemma mk_condition_simps [simp]:
  "cond_type (mk_condition t g b) = t"
  "cond_status (mk_condition t g b) = fst b"
  "cond_observedGeneration (mk_condition t g b) = g"
  "cond_lastTransitionTime (mk_condition t g b) = 0"
  "cond_reason (mk_condition t g b) = fst (snd b)"
  "cond_message (mk_condition t g b) = snd (snd b)"
  by (simp_all add: mk_condition_def split: prod.split)

lemma ready_part_cond [simp]:
  "cond_type (fst (snd (ready_part cr r e u))) = ConditionTypeReady"
  "cond_lastTransitionTime (fst (snd (ready_part cr r e u))) = 0"
  "cond_observedGeneration (fst (snd (ready_part cr r e u))) = ra_Generation cr"
  "cond_status (fst (snd (ready_part cr r e u))) = boolToConditionStatus (fst (ready_part cr r e u))"
  by (simp_all add: ready_part_def Let_def)

lemma roleCondition_simps [simp]:
  "cond_type (roleCondition t g r s a b m) = t"
  "cond_lastTransitionTime (roleCondition t g r s a b m) = 0"
  "cond_observedGeneration (roleCondition t g r s a b m) = g"
  by (simp_all add: roleCondition_def)

lemma reconciled_condition_simps [simp]:
  "cond_type (reconciled_condition cr e) = ConditionTypeReconciled"
  "cond_lastTransitionTime (reconciled_condition cr e) = 0"
  "cond_observedGeneration (reconciled_condition cr e) = ra_Generation cr"
  by (simp_all add: reconciled_condition_def)

lemma upstreamCondition_SomeD:
  "upstreamCondition cr v = Some c \<Longrightarrow>
     cond_type c = ConditionTypeUpstreamReachable \<and> cond_lastTransitionTime c = 0 \<and>
     cond_observedGeneration c = ra_Generation cr"
  by (auto simp: upstreamCondition_def split: option.splits if_splits)

lemma verified_want_SomeD:
  "verified_want cr v = Some c \<Longrightarrow>
     cond_type c = ConditionTypeTunnelVerified \<and> cond_lastTransitionTime c = 0 \<and>
     cond_observedGeneration c = ra_Generation cr"
  by (auto simp: verified_want_def split: option.splits if_splits)

lemma wants_wf [simp]: "well_formed_wants (wants cr pods e v)"
  by (auto simp: well_formed_wants_def wants_def
      dest: verified_want_SomeD [OF sym] upstreamCondition_SomeD [OF sym])

lemma setVerifiedCondition_eq:
  "setVerifiedCondition ops (clock ConditionTypeTunnelVerified) cs cr v =
     update_condition ops clock (ConditionTypeTunnelVerified, verified_want cr v) cs"
  by (simp add: setVerifiedCondition_def update_condition_def verified_want_def split: option.split)

lemma computeStatus_eq:
  "computeStatus ops clock cr pods prev e v =
     Some \<lparr>st_Ready = fst (ready_part cr (pods_ready pods) (pod_error pods) (upstreamCondition cr v)),
           st_LastError = snd (snd (ready_part cr (pods_ready pods) (pod_error pods)
                                      (upstreamCondition cr v))),
           st_ObservedGeneration = ra_Generation cr,
           st_Conditions = fold (update_condition ops clock) (wants cr pods e v) prev\<rparr>"
  by (auto simp: computeStatus_def summarizeStatus_eq summarizeRole_eq wants_def
      setVerifiedCondition_eq Let_def update_condition_def [of ops clock "(_, Some _)"]
      update_condition_def [of ops clock "(ConditionTypeUpstreamReachable, _)"]
      split: prod.split option.split)

lemma upstream_down_iff:
  "upstream_down cr v \<longleftrightarrow> (\<exists>c. upstreamCondition cr v = Some c \<and> cond_status c = ConditionFalse)"
  by (auto simp: upstream_down_def upstreamCondition_def upstream_body_def split: option.splits if_splits)

lemma ready_part_ready:
  "fst (ready_part cr r e (upstreamCondition cr v)) \<longleftrightarrow> r \<and> \<not> upstream_down cr v"
  unfolding upstream_down_iff
  by (auto simp: ready_part_def Let_def split: option.splits if_splits)

lemma ready_part_condition:
  "cond_status (fst (snd (ready_part cr r e (upstreamCondition cr v)))) =
     boolToConditionStatus (r \<and> \<not> upstream_down cr v)"
  "r \<and> upstream_down cr v \<Longrightarrow>
     cond_reason (fst (snd (ready_part cr r e (upstreamCondition cr v)))) = reasonUpstreamUnreachable \<and>
     cond_message (fst (snd (ready_part cr r e (upstreamCondition cr v)))) =
       snd (snd (ready_part cr r e (upstreamCondition cr v)))"
  unfolding upstream_down_iff
  by (auto simp: ready_part_def Let_def split: option.splits if_splits)


section \<open>The documented behaviour, executable\<close>

text \<open>The condition helpers as their documentation describes them, to evaluate examples with.\<close>

fun documented_set :: "go_time \<Rightarrow> condition list \<Rightarrow> condition \<Rightarrow> condition list" where
  "documented_set now [] c =
     [if cond_lastTransitionTime c = 0 then c\<lparr>cond_lastTransitionTime := now\<rparr> else c]"
| "documented_set now (x # xs) c =
     (if cond_type x = cond_type c
      then (if cond_status x = cond_status c
            then c\<lparr>cond_lastTransitionTime := cond_lastTransitionTime x\<rparr>
            else if cond_lastTransitionTime c = 0 then c\<lparr>cond_lastTransitionTime := now\<rparr> else c) # xs
      else x # documented_set now xs c)"

definition documented_meta :: meta_ops where
  "documented_meta =
     \<lparr>SetStatusCondition = documented_set,
      RemoveStatusCondition = (\<lambda>cs t. filter (\<lambda>c. cond_type c \<noteq> t) cs),
      FindStatusCondition = (\<lambda>cs t. find (\<lambda>c. cond_type c = t) cs)\<rparr>"

lemma documented_set_skip:
  "\<forall>x \<in> set xs. cond_type x \<noteq> cond_type c \<Longrightarrow>
   documented_set now (xs @ ys) c = xs @ documented_set now ys c"
  by (induction xs) auto

interpretation documented: condition_meta documented_meta
proof
  fix cs xs ys and c old :: condition and t and now
  show "FindStatusCondition documented_meta cs t = find (has_type t) cs"
    by (simp add: documented_meta_def has_type_def [abs_def])
  show "RemoveStatusCondition documented_meta cs t = filter (\<lambda>c. \<not> has_type t c) cs"
    by (simp add: documented_meta_def has_type_def)
  show "SetStatusCondition documented_meta now cs c = cs @ [c\<lparr>cond_lastTransitionTime := now\<rparr>]"
    if "cond_lastTransitionTime c = 0" "\<forall>x \<in> set cs. \<not> has_type (cond_type c) x"
    using that documented_set_skip [of cs c now "[]"] by (simp add: documented_meta_def has_type_def)
  show "SetStatusCondition documented_meta now (xs @ old # ys) c =
      xs @ c\<lparr>cond_lastTransitionTime :=
               (if cond_status old = cond_status c then cond_lastTransitionTime old else now)\<rparr> # ys"
    if "cond_lastTransitionTime c = 0" "\<forall>x \<in> set xs. \<not> has_type (cond_type c) x"
      "has_type (cond_type c) old"
    using that documented_set_skip [of xs c now "old # ys"]
    by (simp add: documented_meta_def has_type_def)
qed


section \<open>Lemmas: what each condition says\<close>

lemma find_computed:
  assumes "condition_meta ops" and "computeStatus ops clock cr pods prev e v = Some s"
  shows "FindStatusCondition ops (st_Conditions s) t =
    (case map_of (wants cr pods e v) t of
       None \<Rightarrow> find_cond t prev
     | Some w \<Rightarrow> map_option (stamp (clock t) (find_cond t prev)) w)"
  using assms(2) condition_meta.find_updates [OF assms(1) wants_wf]
  by (auto simp: computeStatus_eq condition_meta.find_eq [OF assms(1)])

lemma stamp_simps [simp]:
  "cond_type (stamp now old c) = cond_type c"
  "cond_status (stamp now old c) = cond_status c"
  "cond_observedGeneration (stamp now old c) = cond_observedGeneration c"
  "cond_reason (stamp now old c) = cond_reason c"
  "cond_message (stamp now old c) = cond_message c"
  by (simp_all add: stamp_def)

lemma wants_lookup [simp]:
  "map_of (wants cr pods e v) ConditionTypeTunnelVerified = Some (verified_want cr v)"
  "map_of (wants cr pods e v) ConditionTypeUpstreamReachable = Some (upstreamCondition cr v)"
  "map_of (wants cr pods e v) ConditionTypeReconciled = Some (Some (reconciled_condition cr e))"
  "map_of (wants cr pods e v) ConditionTypeReady = Some (Some (fst (snd
     (ready_part cr (pods_ready pods) (pod_error pods) (upstreamCondition cr v)))))"
  "map_of (wants cr pods e v) ConditionTypeIdentityIssued = Some (Some
     (roleCondition ConditionTypeIdentityIssued
         (ra_Generation cr) (role_ready tbotContainerName pods) (role_message tbotContainerName pods)
         reasonIdentityIssued reasonIdentityNotIssued ''tbot reports a usable identity''))"
  "map_of (wants cr pods e v) ConditionTypeTunnelServing = Some (Some
     (roleCondition ConditionTypeTunnelServing
         (ra_Generation cr) (role_ready ghostunnelContainerName pods)
         (role_message ghostunnelContainerName pods)
         reasonTunnelServing reasonTunnelNotServing ''TLS listener is accepting connections''))"
  by (simp_all add: wants_def)

lemma computed_from_want:
  assumes "condition_meta ops" and "computeStatus ops clock cr pods prev e v = Some s"
    and "t \<in> set (map fst (wants cr pods e v)) \<and>
      FindStatusCondition ops (st_Conditions s) t = Some c"
  shows "\<exists>d. (t, Some d) \<in> set (wants cr pods e v) \<and>
    c = stamp (clock t) (FindStatusCondition ops prev t) d"
proof -
  obtain w where w: "(t, w) \<in> set (wants cr pods e v)" using assms(3) by auto
  then have "map_of (wants cr pods e v) t = Some w"
    using wants_wf [of cr pods e v] by (simp add: well_formed_wants_def map_of_is_SomeI)
  with assms(3) find_computed [OF assms(1,2), of t] w show ?thesis
    by (cases w) (auto simp: condition_meta.find_eq [OF assms(1)])
qed

text \<open>The status a condition list reports for a type.\<close>

definition cond_is :: "meta_ops \<Rightarrow> condition list \<Rightarrow> string \<Rightarrow> condition_status option" where
  "cond_is ops cs t = map_option cond_status (FindStatusCondition ops cs t)"

lemma cond_is_computed:
  assumes "condition_meta ops" and "computeStatus ops clock cr pods prev e v = Some s"
    and "map_of (wants cr pods e v) t = Some w"
  shows "cond_is ops (st_Conditions s) t = map_option cond_status w"
  using find_computed [OF assms(1,2), of t] assms(3)
  by (simp add: cond_is_def option.map_comp comp_def)

lemma upstream_body_status:
  "fst (upstream_body rd k) =
     (case rd_Result rd k of
        Some r \<Rightarrow>
          if v_Result r = ResultVerified \<and> up_Result (v_Upstream r) = UpstreamReachable then ConditionTrue
          else if v_Result r = ResultVerified \<and> up_Result (v_Upstream r) = UpstreamUnreachable
          then ConditionFalse else ConditionUnknown
      | None \<Rightarrow> ConditionUnknown)"
  by (auto simp: upstream_body_def split: option.split)

lemma verified_body_status:
  "fst (verified_body res) =
     (case res of
        Some r \<Rightarrow> if v_Result r = ResultVerified then ConditionTrue
                  else if v_Result r \<in> {ResultCertInvalid, ResultUnreachable} then ConditionFalse
                  else ConditionUnknown
      | None \<Rightarrow> ConditionUnknown)"
  by (auto simp: verified_body_def split: option.split)

lemma upstream_message_nonempty: "upstreamCondition cr v = Some c \<Longrightarrow> cond_message c \<noteq> ''''"
  by (auto simp: upstreamCondition_def upstream_body_def split: option.splits if_splits)

lemma ready_part_error:
  "snd (snd (ready_part cr (pods_ready pods) (pod_error pods) (upstreamCondition cr v))) = '''' \<longleftrightarrow>
     fst (ready_part cr (pods_ready pods) (pod_error pods) (upstreamCondition cr v))"
  using upstream_message_nonempty [of cr v]
  by (auto simp: ready_part_def Let_def split: option.splits)


section \<open>Properties\<close>

text \<open>
  The example of the witnesses: two pods, one of them Ready; the certificate verified and
  the upstream answered 503.
\<close>

definition example_outcome :: verification where
  "example_outcome =
     \<lparr>v_Result = ResultVerified, v_Detail = '''', v_ServerName = ''kube.mcp.svc.cluster.local'',
      v_Upstream = \<lparr>up_Result = UpstreamUnreachable, up_StatusCode = 503, up_URL = ''https://kube/'',
        up_Detail = ''''\<rparr>\<rparr>"

definition example_reader :: verification_reader where
  "example_reader =
     \<lparr>rd_Enabled = True, rd_UpstreamProbeEnabled = True, rd_Result = (\<lambda>_. Some example_outcome),
      rd_LastUpstreamSuccess = (\<lambda>_. None), rd_UpstreamDownSince = (\<lambda>_. Some 5),
      rd_UpstreamRecoveredAt = (\<lambda>_. None)\<rparr>"

definition example_pods :: "pod list" where
  "example_pods = [example_pod ''b'' False, example_pod ''a'' True]"

definition example_status :: remote_app_status where
  "example_status =
     the (computeStatus documented_meta (\<lambda>_. 7) example_cr example_pods [] '''' (Some example_reader))"

lemma example_status_computed:
  "computeStatus documented_meta (\<lambda>_. 7) example_cr example_pods [] '''' (Some example_reader) =
     Some example_status"
  by (simp add: example_status_def computeStatus_eq)

text \<open>C6. The roll-up: \<open>computeStatus\<close> never panics; the RemoteApp is Ready exactly when a
  pod that is not being deleted is Ready and the upstream probe did not fail; \<open>lastError\<close>
  is empty exactly when it is Ready; the observed generation is the spec's.\<close>

theorem computeStatus_ready:
  "\<exists>s. computeStatus ops clock cr pods prev applyErr v = Some s \<and>
     (st_Ready s \<longleftrightarrow>
        (\<exists>p. p \<in> set pods \<and> pod_DeletionTimestamp p = None \<and> isPodReady p) \<and>
        \<not> upstream_down cr v) \<and>
     (st_LastError s = '''' \<longleftrightarrow> st_Ready s) \<and>
     st_ObservedGeneration s = ra_Generation cr"
proof -
  have "pods_ready pods \<longleftrightarrow> (\<exists>p. p \<in> set pods \<and> pod_DeletionTimestamp p = None \<and> isPodReady p)"
    by (auto simp: pods_ready_def)
  from this [symmetric] show ?thesis
    by (simp only: computeStatus_eq) (simp add: ready_part_error ready_part_ready)
qed

text \<open>The hot-loop guard's premise: computing the status again, from the conditions just
  computed and the same inputs, at any later clock reading, gives the same status with the
  same transition times.\<close>

theorem computeStatus_fixpoint:
  assumes "condition_meta ops"
    and "computeStatus ops clock cr pods prev applyErr v = Some s"
  shows "computeStatus ops clock' cr pods (st_Conditions s) applyErr v = Some s"
  using assms(2) condition_meta.updates_fixpoint [OF assms(1) wants_wf]
  by (auto simp: computeStatus_eq)

theorem computeStatus_fixpoint_witness:
  "computeStatus documented_meta (\<lambda>_. 9) example_cr example_pods (st_Conditions example_status) ''''
     (Some example_reader) = Some example_status"
  by (rule computeStatus_fixpoint [OF documented.condition_meta_axioms example_status_computed])

text \<open>C24. The message of an outage tells when the path last worked: it ends with a time that
  reads back as the last good probe of the RemoteApp, to the second, for the times of the
  years 1 to 9999.\<close>

theorem outage_message_roundtrip:
  assumes "upstreamCondition cr (Some rd) = Some c" and "cond_status c = ConditionFalse"
    and "rd_LastUpstreamSuccess rd (ra_key cr) = Some t"
    and "0 \<le> t" and "t < 3652059 * 86400 * second"
  shows "\<exists>detail stamp. cond_message c = detail @ ''; last good probe '' @ stamp \<and>
    parse_rfc3339 stamp = truncate_second t"
proof (intro exI conjI)
  let ?v = "v_Upstream (the (rd_Result rd (ra_key cr)))"
  show "cond_message c =
      (if up_StatusCode ?v \<noteq> 0
       then ''upstream returned HTTP '' @ statusCodeText (up_StatusCode ?v) @ '' for '' @ up_URL ?v
       else up_Detail ?v) @ ''; last good probe '' @ format_rfc3339 (truncate_second t)"
    using assms(1-3)
    by (auto simp: upstreamCondition_def upstream_body_def lastGoodProbe_def split: option.splits if_splits)
  show "parse_rfc3339 (format_rfc3339 (truncate_second t)) = truncate_second t"
    using parse_format_rfc3339 [of t "[]"] assms(4,5) by (simp add: format_rfc3339_truncate second_def)
qed

theorem outage_message_roundtrip_witness:
  "\<exists>detail stamp. cond_message (the (upstreamCondition example_cr (Some (example_reader
      \<lparr>rd_LastUpstreamSuccess := (\<lambda>_. Some 63900000000123456789)\<rparr>)))) =
     detail @ ''; last good probe '' @ stamp \<and> parse_rfc3339 stamp = 63900000000000000000"
  using outage_message_roundtrip [of example_cr "example_reader
      \<lparr>rd_LastUpstreamSuccess := (\<lambda>_. Some 63900000000123456789)\<rparr>" _ 63900000000123456789]
  by (simp add: upstreamCondition_def upstream_body_def example_reader_def example_outcome_def
      truncate_second_def second_def)

text \<open>C34. The status does not depend on the order of the pod list, when the pods have
  different names, as pods of one namespace have.\<close>

theorem computeStatus_pod_order:
  assumes "mset pods = mset pods'" and "inj_on pod_Name (set pods)"
  shows "computeStatus ops clock cr pods prev applyErr v =
         computeStatus ops clock cr pods' prev applyErr v"
  unfolding computeStatus_def
  using summarizeStatus_perm [OF assms] summarizeRole_perm [OF assms] by simp

theorem computeStatus_pod_order_witness:
  "computeStatus documented_meta (\<lambda>_. 7) example_cr [example_pod ''b'' False, example_pod ''a'' False]
     [] '''' None =
   computeStatus documented_meta (\<lambda>_. 7) example_cr [example_pod ''a'' False, example_pod ''b'' False]
     [] '''' None"
  by (rule computeStatus_pod_order) (simp_all add: example_pod_def)

text \<open>TunnelVerified: absent exactly when verification is not wired or off; True exactly
  for a verified handshake, False exactly for a certificate that does not verify or a tunnel
  that cannot be reached, and Unknown for everything else, no result included.\<close>

theorem computeStatus_TunnelVerified:
  assumes "condition_meta ops"
    and "computeStatus ops clock cr pods prev applyErr v = Some s"
  shows "cond_is ops (st_Conditions s) ConditionTypeTunnelVerified =
    (case v of
       None \<Rightarrow> None
     | Some rd \<Rightarrow>
         if \<not> rd_Enabled rd then None
         else Some (case rd_Result rd (ra_key cr) of
                None \<Rightarrow> ConditionUnknown
              | Some r \<Rightarrow>
                  if v_Result r = ResultVerified then ConditionTrue
                  else if v_Result r \<in> {ResultCertInvalid, ResultUnreachable} then ConditionFalse
                  else ConditionUnknown))"
  using cond_is_computed [OF assms, of ConditionTypeTunnelVerified]
  by (simp add: verified_want_def verified_body_status split: option.split)

theorem computeStatus_TunnelVerified_witness:
  "cond_is documented_meta (st_Conditions example_status) ConditionTypeTunnelVerified =
     Some ConditionTrue"
  using computeStatus_TunnelVerified [OF documented.condition_meta_axioms example_status_computed]
  by (simp add: example_reader_def example_outcome_def)

text \<open>C23. UpstreamReachable and Ready: with verification or the upstream probe off the condition
  is absent; it is Unknown when there is no outcome, the outcome is not Verified, or its
  upstream result is neither reachable nor unreachable; it is True or False exactly when the
  outcome is Verified with the upstream result reachable or unreachable, whether or not a
  request was sent (\<open>probeUpstream\<close> also reports unreachable when it could not send one); and
  Ready is the pods' readiness unless the condition is False.\<close>

theorem computeStatus_UpstreamReachable:
  assumes "condition_meta ops"
    and "computeStatus ops clock cr pods prev applyErr v = Some s"
  shows "cond_is ops (st_Conditions s) ConditionTypeUpstreamReachable =
    (case v of
       None \<Rightarrow> None
     | Some rd \<Rightarrow>
         if \<not> rd_Enabled rd \<or> \<not> rd_UpstreamProbeEnabled rd then None
         else Some (case rd_Result rd (ra_key cr) of
                None \<Rightarrow> ConditionUnknown
              | Some r \<Rightarrow>
                  if v_Result r \<noteq> ResultVerified then ConditionUnknown
                  else if up_Result (v_Upstream r) = UpstreamReachable then ConditionTrue
                  else if up_Result (v_Upstream r) = UpstreamUnreachable then ConditionFalse
                  else ConditionUnknown)) \<and>
    (st_Ready s \<longleftrightarrow> pods_ready pods \<and>
       cond_is ops (st_Conditions s) ConditionTypeUpstreamReachable \<noteq> Some ConditionFalse)"
proof -
  have cond: "cond_is ops (st_Conditions s) ConditionTypeUpstreamReachable =
      map_option cond_status (upstreamCondition cr v)"
    by (rule cond_is_computed [OF assms wants_lookup(2)])
  moreover have "st_Ready s \<longleftrightarrow> pods_ready pods \<and> \<not> upstream_down cr v"
    using assms(2) by (auto simp: computeStatus_eq ready_part_ready)
  ultimately have "st_Ready s \<longleftrightarrow> pods_ready pods \<and>
      cond_is ops (st_Conditions s) ConditionTypeUpstreamReachable \<noteq> Some ConditionFalse"
    by (auto simp: upstream_down_iff)
  with cond show ?thesis
    by (auto simp: upstreamCondition_def upstream_body_status split: option.split)
qed

theorem computeStatus_UpstreamReachable_witness:
  "cond_is documented_meta (st_Conditions example_status) ConditionTypeUpstreamReachable =
     Some ConditionFalse \<and> \<not> st_Ready example_status"
  using computeStatus_UpstreamReachable [OF documented.condition_meta_axioms example_status_computed]
  by (simp add: example_reader_def example_outcome_def)

text \<open>C33. The per-role conditions: True exactly when a live pod has the container ready,
  Unknown exactly when there are live pods and none of them reports the container.\<close>

theorem computeStatus_roles:
  assumes "condition_meta ops"
    and "computeStatus ops clock cr pods prev applyErr v = Some s"
    and "(t, c) \<in> {(ConditionTypeIdentityIssued, tbotContainerName),
                   (ConditionTypeTunnelServing, ghostunnelContainerName)}"
  shows "cond_is ops (st_Conditions s) t = Some
    (if role_ready c pods then ConditionTrue
     else if liveTbotPods pods \<noteq> [] \<and>
             (\<forall>p \<in> set (liveTbotPods pods). findContainerStatus p c = None)
     then ConditionUnknown else ConditionFalse)"
proof -
  have "t = ConditionTypeIdentityIssued \<and> c = tbotContainerName \<or>
        t = ConditionTypeTunnelServing \<and> c = ghostunnelContainerName"
    using assms(3) by blast
  then obtain a b m where "map_of (wants cr pods applyErr v) t = Some (Some
      (roleCondition t (ra_Generation cr) (role_ready c pods) (role_message c pods) a b m))"
    by fastforce
  from cond_is_computed [OF assms(1,2) this]
  show ?thesis
    using role_message_empty_iff [of c pods] by (simp add: roleCondition_def)
qed

theorem computeStatus_roles_witness:
  "cond_is documented_meta (st_Conditions example_status) ConditionTypeIdentityIssued =
     Some ConditionTrue"
proof -
  have "role_ready tbotContainerName example_pods"
    by (simp add: role_ready_def example_pods_def example_pod_def findContainerStatus_def
        allContainerStatuses_def example_container_def tbotContainerName_def LabelRoleValue_def)
  then show ?thesis
    using computeStatus_roles [OF documented.condition_meta_axioms example_status_computed,
        of ConditionTypeIdentityIssued tbotContainerName] by simp
qed

text \<open>Bookkeeping of the condition list: conditions of other types are kept as they are,
  there is still one condition per type, every condition the operator sets carries the
  current generation, and its transition time is the old one when its status is the old
  one.\<close>

theorem computeStatus_bookkeeping:
  assumes "condition_meta ops"
    and "computeStatus ops clock cr pods prev applyErr v = Some s"
    and "distinct (map cond_type prev)"
  shows "distinct (map cond_type (st_Conditions s)) \<and>
    (\<forall>t. t \<notin> set (map fst (wants cr pods applyErr v)) \<longrightarrow>
       FindStatusCondition ops (st_Conditions s) t = FindStatusCondition ops prev t) \<and>
    (\<forall>t c. t \<in> set (map fst (wants cr pods applyErr v)) \<and>
         FindStatusCondition ops (st_Conditions s) t = Some c \<longrightarrow>
       cond_observedGeneration c = ra_Generation cr \<and>
       cond_lastTransitionTime c =
         (case FindStatusCondition ops prev t of
            Some old \<Rightarrow> if cond_status old = cond_status c then cond_lastTransitionTime old else clock t
          | None \<Rightarrow> clock t))"
proof (intro conjI allI impI)
  show "distinct (map cond_type (st_Conditions s))"
    using assms(2) condition_meta.updates_types [OF assms(1) wants_wf assms(3)]
    by (auto simp: computeStatus_eq)
  show "FindStatusCondition ops (st_Conditions s) t = FindStatusCondition ops prev t"
    if "t \<notin> set (map fst (wants cr pods applyErr v))" for t
    using that find_computed [OF assms(1,2), of t]
    by (simp add: condition_meta.find_eq [OF assms(1)] map_of_eq_None_iff [THEN iffD2])
  fix t c
  assume tc: "t \<in> set (map fst (wants cr pods applyErr v)) \<and>
    FindStatusCondition ops (st_Conditions s) t = Some c"
  then obtain d where "(t, Some d) \<in> set (wants cr pods applyErr v)"
      and d: "c = stamp (clock t) (FindStatusCondition ops prev t) d"
    using computed_from_want [OF assms(1,2)] by blast
  then show "cond_observedGeneration c = ra_Generation cr"
    by (auto simp: wants_def dest: verified_want_SomeD [OF sym] upstreamCondition_SomeD [OF sym])
  show "cond_lastTransitionTime c =
      (case FindStatusCondition ops prev t of
         Some old \<Rightarrow> if cond_status old = cond_status c then cond_lastTransitionTime old else clock t
       | None \<Rightarrow> clock t)"
    by (simp add: d stamp_def split: option.split)
qed

theorem computeStatus_bookkeeping_witness:
  "distinct (map cond_type (st_Conditions example_status)) \<and>
   FindStatusCondition documented_meta (st_Conditions example_status) ''Other'' = None"
proof -
  have "''Other'' \<notin> set (map fst (wants example_cr example_pods '''' (Some example_reader)))"
    by (simp add: wants_def condition_type_defs)
  then show ?thesis
    using computeStatus_bookkeeping [OF documented.condition_meta_axioms example_status_computed]
    by (simp add: documented_meta_def)
qed

text \<open>The containers a pod's summary walks: exactly its unready containers, and a tbot
  container first whenever an unready one exists.\<close>

theorem unreadyContainers_order:
  "mset (unreadyContainers p) = mset (filter (\<lambda>cs. \<not> cs_Ready cs) (allContainerStatuses p)) \<and>
   ((\<exists>cs. cs \<in> set (allContainerStatuses p) \<and> \<not> cs_Ready cs \<and> cs_Name cs = tbotContainerName) \<longleftrightarrow>
    (\<exists>c rest. unreadyContainers p = c # rest \<and> cs_Name c = tbotContainerName))"
proof -
  have "c \<in> set (allContainerStatuses p) \<and> \<not> cs_Ready c" if "unreadyContainers p = c # rest" for c rest
    using that set_unreadyContainers [of p] by (metis (no_types, lifting) list.set_intros(1) mem_Collect_eq)
  then show ?thesis
    using unreadyContainers_tbot_first [of _ p] unreadyContainers_mset [of p] by blast
qed

text \<open>C32. \<open>lastError\<close> of pods none of which is Ready is the summary of one live pod, which
  no other live pod beats in severity and then in name, and it is not empty.\<close>

theorem summarizeStatus_worst:
  assumes "liveTbotPods pods \<noteq> []" and "\<forall>p \<in> set (liveTbotPods pods). \<not> isPodReady p"
  shows "\<exists>w. w \<in> set (liveTbotPods pods) \<and>
    summarizeStatus pods = Some (False, summarizePodError (Some w)) \<and>
    summarizePodError (Some w) \<noteq> '''' \<and>
    (\<forall>p \<in> set (liveTbotPods pods).
       (errorSeverity (podErrorReason w), pod_Name w) \<le> (errorSeverity (podErrorReason p), pod_Name p))"
proof -
  have "\<not> pods_ready pods" using assms(2) by (auto simp: pods_ready_def)
  then show ?thesis
    using assms worst_pod_in [OF assms(1)] worst_pod_minimal
    by (intro exI [of _ "worst_pod (liveTbotPods pods)"]) (auto simp: summarizeStatus_eq pod_error_def)
qed

theorem summarizeStatus_worst_witness:
  "\<exists>w. w \<in> set (liveTbotPods [example_pod ''b'' False, example_pod ''a'' False]) \<and>
     summarizeStatus [example_pod ''b'' False, example_pod ''a'' False] =
       Some (False, summarizePodError (Some w))"
proof -
  have "liveTbotPods [example_pod ''b'' False, example_pod ''a'' False] \<noteq> []"
    by (simp add: example_pod_def)
  moreover have "\<forall>p \<in> set (liveTbotPods [example_pod ''b'' False, example_pod ''a'' False]). \<not> isPodReady p"
    by (simp add: example_pod_def isPodReady_def PodReady_def)
  ultimately show ?thesis
    using summarizeStatus_worst [of "[example_pod ''b'' False, example_pod ''a'' False]"] by blast
qed

end
