(* ===== verification/Store.thy ===== *)
theory Store
  imports Verification "HOL-Library.Monad_Syntax"
begin

text \<open>
  \<open>verify_metrics.go\<close>: the \<open>VerificationStore\<close>, which holds the latest outcome per
  RemoteApp, the upstream bookkeeping the reconciler's Events rest on, and the metrics
  derived from both.

  The store's mutex makes every method atomic, so each method is one function on the
  record. The clock field \<open>now\<close> is an argument of \<open>Replace\<close>. The loop of \<open>Replace\<close> over
  the new outcomes builds three maps at once; its effect on one key is
  \<open>Replace_bookkeeping\<close>, and the interface \<open>outage_tracker\<close> turns the effect of one
  round into a characterisation of whole histories of rounds.
\<close>

section \<open>State and operations\<close>

record verification_store =
  vs_results :: "(namespaced_name, verification) go_map"
  vs_lastUpstreamSuccess :: "(namespaced_name, go_time) go_map"
  vs_upstreamDownSince :: "(namespaced_name, go_time) go_map"
  vs_upstreamRecoveredAt :: "(namespaced_name, go_time) go_map"
  vs_bundleAvailable :: bool
  vs_probed :: bool
  vs_enabled :: bool
  vs_upstreamProbe :: bool

definition NewVerificationStore :: "bool \<Rightarrow> bool \<Rightarrow> verification_store" where
  "NewVerificationStore enabled upstreamProbe =
     \<lparr>vs_results = [], vs_lastUpstreamSuccess = [], vs_upstreamDownSince = [],
      vs_upstreamRecoveredAt = [], vs_bundleAvailable = False, vs_probed = False,
      vs_enabled = enabled, vs_upstreamProbe = (enabled \<and> upstreamProbe)\<rparr>"

definition Enabled :: "verification_store \<Rightarrow> bool" where
  "Enabled s = vs_enabled s"

definition UpstreamProbeEnabled :: "verification_store \<Rightarrow> bool" where
  "UpstreamProbeEnabled s = vs_upstreamProbe s"

definition Result :: "verification_store \<Rightarrow> namespaced_name \<Rightarrow> verification option" where
  "Result s key = go_get (vs_results s) key"

definition LastUpstreamSuccess :: "verification_store \<Rightarrow> namespaced_name \<Rightarrow> go_time option" where
  "LastUpstreamSuccess s key = go_get (vs_lastUpstreamSuccess s) key"

definition UpstreamDownSince :: "verification_store \<Rightarrow> namespaced_name \<Rightarrow> go_time option" where
  "UpstreamDownSince s key = go_get (vs_upstreamDownSince s) key"

definition UpstreamRecoveredAt :: "verification_store \<Rightarrow> namespaced_name \<Rightarrow> go_time option" where
  "UpstreamRecoveredAt s key = go_get (vs_upstreamRecoveredAt s) key"

text \<open>The store as the interface the reconciler consumes.\<close>

definition store_reader :: "verification_store \<Rightarrow> verification_reader" where
  "store_reader s =
     \<lparr>rd_Enabled = Enabled s, rd_UpstreamProbeEnabled = UpstreamProbeEnabled s,
      rd_Result = Result s, rd_LastUpstreamSuccess = LastUpstreamSuccess s,
      rd_UpstreamDownSince = UpstreamDownSince s, rd_UpstreamRecoveredAt = UpstreamRecoveredAt s\<rparr>"

text \<open>The closure \<open>carry\<close> of \<open>Replace\<close>.\<close>

definition carry ::
  "(namespaced_name, go_time) go_map \<Rightarrow> (namespaced_name, go_time) go_map \<Rightarrow> namespaced_name \<Rightarrow>
   (namespaced_name, go_time) go_map" where
  "carry src dst key = (case go_get src key of Some t \<Rightarrow> go_put key t dst | None \<Rightarrow> dst)"

text \<open>The body of the loop of \<open>Replace\<close>, on the maps (successes, down, recovered).\<close>

definition replace_body ::
  "verification_store \<Rightarrow> go_time \<Rightarrow> namespaced_name \<times> verification \<Rightarrow>
   (namespaced_name, go_time) go_map \<times> (namespaced_name, go_time) go_map \<times>
     (namespaced_name, go_time) go_map \<Rightarrow>
   (namespaced_name, go_time) go_map \<times> (namespaced_name, go_time) go_map \<times>
     (namespaced_name, go_time) go_map" where
  "replace_body s now = (\<lambda>(key, v) (successes, down, recovered).
     if up_Result (v_Upstream v) = UpstreamReachable then
       (go_put key now successes,
        down,
        (case go_get (vs_upstreamDownSince s) key of
           Some _ \<Rightarrow> go_put key now recovered
         | None \<Rightarrow> carry (vs_upstreamRecoveredAt s) recovered key))
     else if up_Result (v_Upstream v) = UpstreamUnreachable then
       (carry (vs_lastUpstreamSuccess s) successes key,
        (case go_get (vs_upstreamDownSince s) key of
           Some t \<Rightarrow> go_put key t down
         | None \<Rightarrow> go_put key now down),
        carry (vs_upstreamRecoveredAt s) recovered key)
     else
       (carry (vs_lastUpstreamSuccess s) successes key,
        carry (vs_upstreamDownSince s) down key,
        carry (vs_upstreamRecoveredAt s) recovered key))"

definition Replace ::
  "verification_store \<Rightarrow> (namespaced_name, verification) go_map \<Rightarrow> go_time \<Rightarrow> verification_store" where
  "Replace s results now =
     (let next_results = maps_copy [] results;
          (successes, down, recovered) = fold (replace_body s now) next_results ([], [], [])
      in s\<lparr>vs_results := next_results,
           vs_lastUpstreamSuccess := successes,
           vs_upstreamDownSince := down,
           vs_upstreamRecoveredAt := recovered,
           vs_bundleAvailable := True,
           vs_probed := True\<rparr>)"

definition SetBundleUnavailable :: "verification_store \<Rightarrow> verification_store" where
  "SetBundleUnavailable s = s\<lparr>vs_results := [], vs_bundleAvailable := False, vs_probed := True\<rparr>"


section \<open>Metrics\<close>

definition MetricTLSVerification :: string where
  "MetricTLSVerification = ''tunnelport_remoteapp_tls_verification''"

definition MetricUpstreamProbeStatus :: string where
  "MetricUpstreamProbeStatus = ''tunnelport_remoteapp_upstream_probe_status''"

definition MetricTLSVerificationAvailable :: string where
  "MetricTLSVerificationAvailable = ''tunnelport_tls_verification_available''"

definition LabelRemoteAppName :: string where
  "LabelRemoteAppName = ''remoteapp_name''"

definition LabelRemoteAppNamespace :: string where
  "LabelRemoteAppNamespace = ''remoteapp_namespace''"

definition LabelResult :: string where
  "LabelResult = ''result''"

lemma metric_names_neq [simp]:
  "MetricTLSVerification \<noteq> MetricUpstreamProbeStatus"
  "MetricUpstreamProbeStatus \<noteq> MetricTLSVerification"
  "MetricTLSVerificationAvailable \<noteq> MetricTLSVerification"
  "MetricTLSVerification \<noteq> MetricTLSVerificationAvailable"
  "MetricTLSVerificationAvailable \<noteq> MetricUpstreamProbeStatus"
  "MetricUpstreamProbeStatus \<noteq> MetricTLSVerificationAvailable"
  by (simp_all add: MetricTLSVerification_def MetricUpstreamProbeStatus_def
      MetricTLSVerificationAvailable_def)

text \<open>
  The descriptors \<open>NewVerificationStore\<close> creates, without their help texts. The store never
  replaces them, so they are constants and not fields of the record.
\<close>

record metric_desc =
  md_fqName :: string
  md_variableLabels :: "string list"

definition verificationDesc :: metric_desc where
  "verificationDesc =
     \<lparr>md_fqName = MetricTLSVerification,
      md_variableLabels = [LabelRemoteAppName, LabelRemoteAppNamespace, LabelResult]\<rparr>"

definition upstreamDesc :: metric_desc where
  "upstreamDesc =
     \<lparr>md_fqName = MetricUpstreamProbeStatus,
      md_variableLabels = [LabelRemoteAppName, LabelRemoteAppNamespace, LabelResult]\<rparr>"

definition availableDesc :: metric_desc where
  "availableDesc = \<lparr>md_fqName = MetricTLSVerificationAvailable, md_variableLabels = []\<rparr>"

definition Describe :: "verification_store \<Rightarrow> metric_desc list" where
  "Describe s = [verificationDesc, upstreamDesc, availableDesc]"

text \<open>
  One exported gauge sample. The sample values of the store are the integers 0, 1 and
  HTTP status codes, so \<open>float64\<close> is not needed. \<open>prometheus.MustNewConstMetric\<close> pairs the
  label values with the labels of the descriptor and panics, which is \<open>None\<close>, when their
  numbers differ.
\<close>

record series =
  sr_metric :: string
  sr_labels :: "(string \<times> string) list"
  sr_value :: int

definition MustNewConstMetric :: "metric_desc \<Rightarrow> int \<Rightarrow> string list \<Rightarrow> series option" where
  "MustNewConstMetric desc val labelValues =
     (if length labelValues = length (md_variableLabels desc)
      then Some \<lparr>sr_metric = md_fqName desc, sr_labels = zip (md_variableLabels desc) labelValues,
                 sr_value = val\<rparr>
      else None)"

text \<open>The body of the loop of \<open>Collect\<close> over the results, and the loop.\<close>

definition collect_result :: "namespaced_name \<Rightarrow> verification \<Rightarrow> series list option" where
  "collect_result key v =
     do {
       tls \<leftarrow> MustNewConstMetric verificationDesc 1 [nn_name key, nn_namespace key, v_Result v];
       if up_Result (v_Upstream v) = UpstreamReachable \<or> up_Result (v_Upstream v) = UpstreamUnreachable
       then do {
         upstream \<leftarrow> MustNewConstMetric upstreamDesc (up_StatusCode (v_Upstream v))
           [nn_name key, nn_namespace key, up_Result (v_Upstream v)];
         Some [tls, upstream]
       }
       else Some [tls]
     }"

fun collect_results :: "(namespaced_name, verification) go_map \<Rightarrow> series list option" where
  "collect_results [] = Some []"
| "collect_results ((key, v) # rest) =
     do { xs \<leftarrow> collect_result key v; ys \<leftarrow> collect_results rest; Some (xs @ ys) }"

definition Collect_metrics :: "verification_store \<Rightarrow> series list option" where
  "Collect_metrics s =
     (if \<not> vs_enabled s then Some []
      else do {
        available \<leftarrow>
          (if vs_probed s
           then do {
             x \<leftarrow> MustNewConstMetric availableDesc (if vs_bundleAvailable s then 1 else 0) [];
             Some [x]
           }
           else Some []);
        results \<leftarrow> collect_results (vs_results s);
        Some (available @ results)
      })"

text \<open>\<open>Register\<close> adds the store to the metrics registry unless it is disabled.\<close>

definition Register :: "verification_store \<Rightarrow> (verification_store \<Rightarrow> string option) \<Rightarrow> string option" where
  "Register s registry_register = (if \<not> vs_enabled s then None else registry_register s)"


section \<open>The effect of one round on one RemoteApp\<close>

definition successes_body :: "verification_store \<Rightarrow> go_time \<Rightarrow> namespaced_name \<Rightarrow> verification \<Rightarrow>
    (namespaced_name, go_time) go_map \<Rightarrow> (namespaced_name, go_time) go_map" where
  "successes_body s now key v m =
     (if up_Result (v_Upstream v) = UpstreamReachable then go_put key now m
      else carry (vs_lastUpstreamSuccess s) m key)"

definition down_body :: "verification_store \<Rightarrow> go_time \<Rightarrow> namespaced_name \<Rightarrow> verification \<Rightarrow>
    (namespaced_name, go_time) go_map \<Rightarrow> (namespaced_name, go_time) go_map" where
  "down_body s now key v m =
     (if up_Result (v_Upstream v) = UpstreamReachable then m
      else if up_Result (v_Upstream v) = UpstreamUnreachable then
        (case go_get (vs_upstreamDownSince s) key of
           Some t \<Rightarrow> go_put key t m | None \<Rightarrow> go_put key now m)
      else carry (vs_upstreamDownSince s) m key)"

definition recovered_body :: "verification_store \<Rightarrow> go_time \<Rightarrow> namespaced_name \<Rightarrow> verification \<Rightarrow>
    (namespaced_name, go_time) go_map \<Rightarrow> (namespaced_name, go_time) go_map" where
  "recovered_body s now key v m =
     (if up_Result (v_Upstream v) = UpstreamReachable then
        (case go_get (vs_upstreamDownSince s) key of
           Some _ \<Rightarrow> go_put key now m | None \<Rightarrow> carry (vs_upstreamRecoveredAt s) m key)
      else carry (vs_upstreamRecoveredAt s) m key)"

lemma replace_body_split:
  "replace_body s now (key, v) (a, b, c) =
     (successes_body s now key v a, down_body s now key v b, recovered_body s now key v c)"
  by (simp add: replace_body_def successes_body_def down_body_def recovered_body_def)

lemma fold_replace_body:
  "fold (replace_body s now) xs (a, b, c) =
     (fold (\<lambda>(k, v). successes_body s now k v) xs a,
      fold (\<lambda>(k, v). down_body s now k v) xs b,
      fold (\<lambda>(k, v). recovered_body s now k v) xs c)"
  by (induction xs arbitrary: a b c) (auto simp: replace_body_split)

lemma carry_get:
  "go_get (carry src dst key) k =
     (if k = key then (case go_get src key of Some t \<Rightarrow> Some t | None \<Rightarrow> go_get dst key)
      else go_get dst k)"
  by (simp add: carry_def split: option.split)

lemma carry_distinct [simp]:
  "distinct (map fst dst) \<Longrightarrow> distinct (map fst (carry src dst key))"
  by (simp add: carry_def split: option.split)

text \<open>The three loops, each as an instance of the shared loop interface.\<close>

interpretation succ_loop: keyed_loop "successes_body s now"
  "\<lambda>k v. if up_Result (v_Upstream v) = UpstreamReachable then Some now
         else go_get (vs_lastUpstreamSuccess s) k"
  for s now
  by unfold_locales (simp_all add: successes_body_def carry_get)

interpretation down_loop: keyed_loop "down_body s now"
  "\<lambda>k v. if up_Result (v_Upstream v) = UpstreamReachable then None
         else if up_Result (v_Upstream v) = UpstreamUnreachable
         then (case go_get (vs_upstreamDownSince s) k of Some t \<Rightarrow> Some t | None \<Rightarrow> Some now)
         else go_get (vs_upstreamDownSince s) k"
  for s now
  by unfold_locales (simp_all add: down_body_def carry_get split: option.split)

interpretation rec_loop: keyed_loop "recovered_body s now"
  "\<lambda>k v. if up_Result (v_Upstream v) = UpstreamReachable \<and> go_get (vs_upstreamDownSince s) k \<noteq> None
         then Some now else go_get (vs_upstreamRecoveredAt s) k"
  for s now
  by unfold_locales (simp_all add: recovered_body_def carry_get split: option.split)

lemma Replace_eq:
  "Replace s results now = s\<lparr>vs_results := maps_copy [] results,
     vs_lastUpstreamSuccess := fold (\<lambda>(k, v). successes_body s now k v) (maps_copy [] results) [],
     vs_upstreamDownSince := fold (\<lambda>(k, v). down_body s now k v) (maps_copy [] results) [],
     vs_upstreamRecoveredAt := fold (\<lambda>(k, v). recovered_body s now k v) (maps_copy [] results) [],
     vs_bundleAvailable := True, vs_probed := True\<rparr>"
  by (simp add: Replace_def Let_def fold_replace_body)

lemma Replace_simps [simp]:
  "vs_results (Replace s results now) = maps_copy [] results"
  "vs_bundleAvailable (Replace s results now)"
  "vs_probed (Replace s results now)"
  "vs_enabled (Replace s results now) = vs_enabled s"
  "vs_upstreamProbe (Replace s results now) = vs_upstreamProbe s"
  by (simp_all add: Replace_eq)

lemma SetBundleUnavailable_simps [simp]:
  "vs_results (SetBundleUnavailable s) = []"
  "\<not> vs_bundleAvailable (SetBundleUnavailable s)"
  "vs_probed (SetBundleUnavailable s)"
  "vs_enabled (SetBundleUnavailable s) = vs_enabled s"
  "vs_upstreamProbe (SetBundleUnavailable s) = vs_upstreamProbe s"
  "Result (SetBundleUnavailable s) k = None"
  "LastUpstreamSuccess (SetBundleUnavailable s) k = LastUpstreamSuccess s k"
  "UpstreamDownSince (SetBundleUnavailable s) k = UpstreamDownSince s k"
  "UpstreamRecoveredAt (SetBundleUnavailable s) k = UpstreamRecoveredAt s k"
  by (simp_all add: SetBundleUnavailable_def Result_def LastUpstreamSuccess_def
      UpstreamDownSince_def UpstreamRecoveredAt_def)

lemma Result_Replace:
  "Result (Replace s results now) k = go_get (maps_copy [] results) k"
  by (simp add: Result_def)

lemma Result_Replace_distinct:
  "distinct (map fst results) \<Longrightarrow> Result (Replace s results now) k = go_get results k"
  by (simp add: Result_Replace maps_copy_get split: option.split)

text \<open>What a round does with the outcome of one RemoteApp.\<close>

datatype upstream_obs = Reached | Failed | Skipped | Gone

definition obs_of :: "verification option \<Rightarrow> upstream_obs" where
  "obs_of r = (case r of
     None \<Rightarrow> Gone
   | Some v \<Rightarrow> if up_Result (v_Upstream v) = UpstreamReachable then Reached
              else if up_Result (v_Upstream v) = UpstreamUnreachable then Failed
              else Skipped)"

lemma Replace_bookkeeping:
  defines "o' \<equiv> \<lambda>results k. obs_of (go_get (maps_copy [] results) k)"
  shows "LastUpstreamSuccess (Replace s results now) k =
     (case o' results k of Reached \<Rightarrow> Some now | Failed \<Rightarrow> LastUpstreamSuccess s k
      | Skipped \<Rightarrow> LastUpstreamSuccess s k | Gone \<Rightarrow> None)"
    and "UpstreamDownSince (Replace s results now) k =
     (case o' results k of Reached \<Rightarrow> None
      | Failed \<Rightarrow> Some (case UpstreamDownSince s k of Some t \<Rightarrow> t | None \<Rightarrow> now)
      | Skipped \<Rightarrow> UpstreamDownSince s k | Gone \<Rightarrow> None)"
    and "UpstreamRecoveredAt (Replace s results now) k =
     (case o' results k of
        Reached \<Rightarrow> (if UpstreamDownSince s k \<noteq> None then Some now else UpstreamRecoveredAt s k)
      | Failed \<Rightarrow> UpstreamRecoveredAt s k | Skipped \<Rightarrow> UpstreamRecoveredAt s k | Gone \<Rightarrow> None)"
  unfolding o'_def
  by (auto simp: Replace_eq LastUpstreamSuccess_def UpstreamDownSince_def UpstreamRecoveredAt_def
      succ_loop.loop_get down_loop.loop_get rec_loop.loop_get obs_of_def
      split: option.split)



section \<open>Histories of rounds\<close>

text \<open>
  What the bookkeeping promises, one law per kind of round. An outage is open while
  \<open>down_since\<close> is set: a failed round opens it unless it is open, a reached round closes it
  and stamps the recovery, a round that did not probe changes nothing, and a RemoteApp
  that is gone leaves nothing behind.
\<close>

locale outage_tracker =
  fixes round :: "go_time \<Rightarrow> 'r \<Rightarrow> 's \<Rightarrow> 's"
    and obs :: "'r \<Rightarrow> upstream_obs"
    and last_ok down_since recovered :: "'s \<Rightarrow> go_time option"
  assumes down_round:
    "down_since (round t r s) =
       (case obs r of Reached \<Rightarrow> None
        | Failed \<Rightarrow> Some (case down_since s of Some t0 \<Rightarrow> t0 | None \<Rightarrow> t)
        | Skipped \<Rightarrow> down_since s | Gone \<Rightarrow> None)"
  and recovered_round:
    "recovered (round t r s) =
       (case obs r of Reached \<Rightarrow> (if down_since s \<noteq> None then Some t else recovered s)
        | Failed \<Rightarrow> recovered s | Skipped \<Rightarrow> recovered s | Gone \<Rightarrow> None)"
  and last_ok_round:
    "last_ok (round t r s) =
       (case obs r of Reached \<Rightarrow> Some t | Failed \<Rightarrow> last_ok s | Skipped \<Rightarrow> last_ok s
        | Gone \<Rightarrow> None)"
begin

definition run :: "(go_time \<times> 'r) list \<Rightarrow> 's \<Rightarrow> 's" where
  "run rounds s = fold (\<lambda>(t, r). round t r) rounds s"

lemma run_simps [simp]:
  "run [] s = s"
  "run (x # xs) s = run xs (round (fst x) (snd x) s)"
  "run (xs @ ys) s = run ys (run xs s)"
  by (simp_all add: run_def case_prod_unfold)

lemma down_run_quiet:
  "\<forall>x \<in> set xs. obs (snd x) = Skipped \<Longrightarrow> down_since (run xs s) = down_since s"
  by (induction xs arbitrary: s) (auto simp: down_round)

lemma down_run_open:
  "\<forall>x \<in> set xs. obs (snd x) \<in> {Failed, Skipped} \<Longrightarrow> down_since s = Some t \<Longrightarrow>
     down_since (run xs s) = Some t"
  by (induction xs arbitrary: s) (auto simp: down_round)

lemma down_run_closed:
  assumes "xs \<noteq> []" and "obs (snd (last xs)) \<in> {Reached, Gone}"
  shows "down_since (run xs s) = None"
proof -
  obtain ys y where "xs = ys @ [y]"
    using assms(1) by (cases xs rule: rev_cases) auto
  with assms(2) show ?thesis by (auto simp: down_round)
qed

text \<open>
  The outage that is open after a history began at \<open>t\<close> exactly when the round of \<open>t\<close> is the
  first failed one after the last round that reached the upstream (or did not see the
  RemoteApp), however many rounds did not probe in between.
\<close>

definition opened_at :: "(go_time \<times> 'r) list \<Rightarrow> go_time \<Rightarrow> bool" where
  "opened_at rounds t \<longleftrightarrow>
     (\<exists>pre mid r post. rounds = pre @ mid @ (t, r) # post \<and>
        (pre = [] \<or> obs (snd (last pre)) \<in> {Reached, Gone}) \<and>
        (\<forall>x \<in> set mid. obs (snd x) = Skipped) \<and>
        obs r = Failed \<and>
        (\<forall>x \<in> set post. obs (snd x) \<in> {Failed, Skipped}))"

definition all_closed :: "(go_time \<times> 'r) list \<Rightarrow> bool" where
  "all_closed rounds \<longleftrightarrow>
     (\<exists>pre mid. rounds = pre @ mid \<and>
        (pre = [] \<or> obs (snd (last pre)) \<in> {Reached, Gone}) \<and>
        (\<forall>x \<in> set mid. obs (snd x) = Skipped))"

lemma opened_at_down:
  assumes "down_since s = None" and "opened_at rounds t"
  shows "down_since (run rounds s) = Some t"
proof -
  obtain pre mid r post where
    split: "rounds = pre @ mid @ (t, r) # post"
      and pre: "pre = [] \<or> obs (snd (last pre)) \<in> {Reached, Gone}"
      and mid: "\<forall>x \<in> set mid. obs (snd x) = Skipped"
      and r: "obs r = Failed"
      and post: "\<forall>x \<in> set post. obs (snd x) \<in> {Failed, Skipped}"
    using assms(2) unfolding opened_at_def by blast
  have "down_since (run pre s) = None"
    using pre assms(1) down_run_closed [of pre s] by (cases "pre = []") auto
  then have "down_since (run mid (run pre s)) = None"
    using down_run_quiet [OF mid] by simp
  then have "down_since (round t r (run mid (run pre s))) = Some t"
    using r by (simp add: down_round)
  from down_run_open [OF post this] show ?thesis
    by (simp add: split)
qed

lemma all_closed_snoc:
  "all_closed (xs @ [x]) \<longleftrightarrow>
     (case obs (snd x) of Reached \<Rightarrow> True | Gone \<Rightarrow> True | Failed \<Rightarrow> False
      | Skipped \<Rightarrow> all_closed xs)"
proof (cases "obs (snd x) \<in> {Reached, Gone}")
  case True
  then have "all_closed (xs @ [x])"
    unfolding all_closed_def by (intro exI [of _ "xs @ [x]"] exI [of _ "[]"]) simp
  with True show ?thesis by auto
next
  case False
  have "(\<exists>pre mid. xs @ [x] = pre @ mid \<and> (pre = [] \<or> obs (snd (last pre)) \<in> {Reached, Gone}) \<and>
        (\<forall>y \<in> set mid. obs (snd y) = Skipped)) \<longleftrightarrow> obs (snd x) = Skipped \<and> all_closed xs"
    (is "?L \<longleftrightarrow> ?R")
  proof
    assume ?L
    then obtain pre mid where eq: "xs @ [x] = pre @ mid"
      and pre: "pre = [] \<or> obs (snd (last pre)) \<in> {Reached, Gone}"
      and mid: "\<forall>y \<in> set mid. obs (snd y) = Skipped" by blast
    have "mid \<noteq> []"
      using eq pre False by auto
    then obtain mid' where "mid = mid' @ [x]" and "xs = pre @ mid'"
      using eq by (cases mid rule: rev_cases) auto
    with pre mid show ?R unfolding all_closed_def by auto
  next
    assume ?R
    then obtain pre mid where "xs = pre @ mid"
      and "pre = [] \<or> obs (snd (last pre)) \<in> {Reached, Gone}"
      and "\<forall>y \<in> set mid. obs (snd y) = Skipped" and "obs (snd x) = Skipped"
      unfolding all_closed_def by blast
    then show ?L by (intro exI [of _ pre] exI [of _ "mid @ [x]"]) auto
  qed
  with False show ?thesis
    unfolding all_closed_def [of "xs @ [x]"] by (cases "obs (snd x)") auto
qed

lemma down_None_iff:
  assumes "down_since s = None"
  shows "down_since (run rounds s) = None \<longleftrightarrow> all_closed rounds"
proof (induction rounds rule: rev_induct)
  case Nil
  then show ?case using assms by (simp add: all_closed_def)
next
  case (snoc x xs)
  then show ?case
    by (simp add: all_closed_snoc down_round split: upstream_obs.split)
qed

lemma opened_at_snoc:
  assumes "opened_at xs t" and "obs (snd x) \<in> {Failed, Skipped}"
  shows "opened_at (xs @ [x]) t"
proof -
  obtain pre mid r post where
    "xs = pre @ mid @ (t, r) # post" "pre = [] \<or> obs (snd (last pre)) \<in> {Reached, Gone}"
    "\<forall>y \<in> set mid. obs (snd y) = Skipped" "obs r = Failed"
    "\<forall>y \<in> set post. obs (snd y) \<in> {Failed, Skipped}"
    using assms(1) unfolding opened_at_def by blast
  with assms(2) show ?thesis
    unfolding opened_at_def
    by (intro exI [of _ pre] exI [of _ mid] exI [of _ r] exI [of _ "post @ [x]"]) auto
qed

lemma opened_at_fresh:
  assumes "all_closed xs" and "obs (snd x) = Failed"
  shows "opened_at (xs @ [x]) (fst x)"
proof -
  obtain pre mid where "xs = pre @ mid" "pre = [] \<or> obs (snd (last pre)) \<in> {Reached, Gone}"
    "\<forall>y \<in> set mid. obs (snd y) = Skipped"
    using assms(1) unfolding all_closed_def by blast
  with assms(2) show ?thesis
    unfolding opened_at_def
    by (intro exI [of _ pre] exI [of _ mid] exI [of _ "snd x"] exI [of _ "[]"]) auto
qed

lemma down_opened_at:
  assumes "down_since s = None" and "down_since (run rounds s) = Some t"
  shows "opened_at rounds t"
  using assms(2)
proof (induction rounds rule: rev_induct)
  case Nil
  then show ?case using assms(1) by simp
next
  case (snoc x xs)
  show ?case
  proof (cases "down_since (run xs s)")
    case None
    then have "all_closed xs" by (simp add: down_None_iff [OF assms(1)])
    moreover have "obs (snd x) = Failed" "t = fst x"
      using snoc.prems None by (auto simp: down_round split: upstream_obs.splits)
    ultimately show ?thesis by (simp add: opened_at_fresh)
  next
    case (Some t0)
    then have "t0 = t" "obs (snd x) \<in> {Failed, Skipped}"
      using snoc.prems by (auto simp: down_round split: upstream_obs.splits)
    with Some snoc.IH show ?thesis by (simp add: opened_at_snoc)
  qed
qed

lemma down_since_iff:
  "down_since s = None \<Longrightarrow> down_since (run rounds s) = Some t \<longleftrightarrow> opened_at rounds t"
  using opened_at_down down_opened_at by blast

end

section \<open>The store keeps the contract\<close>

text \<open>
  A round either could not load the trust bundle, and drops the outcomes, or replaces
  them.
\<close>

datatype round_outcome =
    BundleUnavailable
  | Outcomes "(namespaced_name, verification) go_map"

definition apply_round :: "go_time \<Rightarrow> round_outcome \<Rightarrow> verification_store \<Rightarrow> verification_store" where
  "apply_round now r s =
     (case r of BundleUnavailable \<Rightarrow> SetBundleUnavailable s | Outcomes results \<Rightarrow> Replace s results now)"

definition round_obs :: "namespaced_name \<Rightarrow> round_outcome \<Rightarrow> upstream_obs" where
  "round_obs k r =
     (case r of BundleUnavailable \<Rightarrow> Skipped | Outcomes results \<Rightarrow> obs_of (go_get (maps_copy [] results) k))"

interpretation tracker: outage_tracker apply_round "round_obs k"
  "\<lambda>s. LastUpstreamSuccess s k" "\<lambda>s. UpstreamDownSince s k" "\<lambda>s. UpstreamRecoveredAt s k"
  for k
  by unfold_locales
    (auto simp: apply_round_def round_obs_def Replace_bookkeeping
      split: round_outcome.splits upstream_obs.splits option.splits)

definition run_rounds ::
  "(go_time \<times> round_outcome) list \<Rightarrow> verification_store \<Rightarrow> verification_store" where
  "run_rounds rounds s = fold (\<lambda>(t, r). apply_round t r) rounds s"

lemma run_rounds_tracker: "run_rounds = tracker.run"
  by (intro ext) (simp add: run_rounds_def tracker.run_def)

lemma New_store_simps [simp]:
  "Result (NewVerificationStore e u) k = None"
  "LastUpstreamSuccess (NewVerificationStore e u) k = None"
  "UpstreamDownSince (NewVerificationStore e u) k = None"
  "UpstreamRecoveredAt (NewVerificationStore e u) k = None"
  "Enabled (NewVerificationStore e u) = e"
  "UpstreamProbeEnabled (NewVerificationStore e u) = (e \<and> u)"
  by (simp_all add: NewVerificationStore_def Result_def LastUpstreamSuccess_def
      UpstreamDownSince_def UpstreamRecoveredAt_def Enabled_def UpstreamProbeEnabled_def)

lemma enabled_apply_round [simp]:
  "Enabled (apply_round t r s) = Enabled s"
  "UpstreamProbeEnabled (apply_round t r s) = UpstreamProbeEnabled s"
  by (simp_all add: apply_round_def Enabled_def UpstreamProbeEnabled_def split: round_outcome.split)


section \<open>Invariants of the store over its life\<close>

text \<open>
  The stores a process can hold, with the clock reading of the last round: the rounds of
  one process run one after the other, so the readings do not decrease.
\<close>

inductive store_history :: "bool \<Rightarrow> bool \<Rightarrow> go_time \<Rightarrow> verification_store \<Rightarrow> bool"
  for enabled upstreamProbe where
  created: "store_history enabled upstreamProbe t (NewVerificationStore enabled upstreamProbe)"
| round: "store_history enabled upstreamProbe t s \<Longrightarrow> t \<le> now \<Longrightarrow>
     store_history enabled upstreamProbe now (apply_round now r s)"

inductive_cases store_historyE: "store_history enabled upstreamProbe t s"

text \<open>What the maps say about one RemoteApp, and how its time stamps are ordered.\<close>

definition bookkeeping_ok :: "go_time \<Rightarrow> verification_store \<Rightarrow> namespaced_name \<Rightarrow> bool" where
  "bookkeeping_ok now s k \<longleftrightarrow>
     (obs_of (Result s k) = Reached \<longrightarrow>
        UpstreamDownSince s k = None \<and> LastUpstreamSuccess s k \<noteq> None) \<and>
     (obs_of (Result s k) = Failed \<longrightarrow> UpstreamDownSince s k \<noteq> None) \<and>
     (\<forall>t. LastUpstreamSuccess s k = Some t \<longrightarrow> t \<le> now) \<and>
     (\<forall>t. UpstreamDownSince s k = Some t \<longrightarrow> t \<le> now) \<and>
     (\<forall>r. UpstreamRecoveredAt s k = Some r \<longrightarrow>
        (\<exists>t. LastUpstreamSuccess s k = Some t \<and> r \<le> t)) \<and>
     (\<forall>d t. UpstreamDownSince s k = Some d \<and> LastUpstreamSuccess s k = Some t \<longrightarrow> t \<le> d)"

lemma bookkeeping_ok_new: "bookkeeping_ok now (NewVerificationStore e u) k"
  by (simp add: bookkeeping_ok_def obs_of_def)

lemma bookkeeping_ok_round:
  assumes "bookkeeping_ok t s k" and "t \<le> now"
  shows "bookkeeping_ok now (apply_round now r s) k"
proof (cases r)
  case BundleUnavailable
  then show ?thesis
    using assms by (fastforce simp: bookkeeping_ok_def apply_round_def obs_of_def)
next
  case (Outcomes results)
  have res: "Result (Replace s results now) k = go_get (maps_copy [] results) k"
    by (rule Result_Replace)
  show ?thesis
  proof (cases "obs_of (go_get (maps_copy [] results) k)")
    case Reached
    with assms res Outcomes show ?thesis
      by (fastforce simp: bookkeeping_ok_def apply_round_def Replace_bookkeeping)
  next
    case Failed
    with assms res Outcomes show ?thesis
      by (fastforce simp: bookkeeping_ok_def apply_round_def Replace_bookkeeping split: option.split)
  next
    case Skipped
    with assms res Outcomes show ?thesis
      by (fastforce simp: bookkeeping_ok_def apply_round_def Replace_bookkeeping)
  next
    case Gone
    with res Outcomes show ?thesis
      by (simp add: bookkeeping_ok_def apply_round_def Replace_bookkeeping)
  qed
qed

lemma store_history_ok: "store_history e u t s \<Longrightarrow> bookkeeping_ok t s k"
  by (induction rule: store_history.induct) (auto intro: bookkeeping_ok_new bookkeeping_ok_round)

definition distinct_keys :: "verification_store \<Rightarrow> bool" where
  "distinct_keys s \<longleftrightarrow>
     distinct (map fst (vs_results s)) \<and> distinct (map fst (vs_lastUpstreamSuccess s)) \<and>
     distinct (map fst (vs_upstreamDownSince s)) \<and> distinct (map fst (vs_upstreamRecoveredAt s))"

lemma distinct_keys_apply_round: "distinct_keys s \<Longrightarrow> distinct_keys (apply_round now r s)"
proof (cases r)
  case BundleUnavailable
  then show "distinct_keys s \<Longrightarrow> distinct_keys (apply_round now r s)"
    by (simp add: apply_round_def SetBundleUnavailable_def distinct_keys_def)
next
  case (Outcomes results)
  then show "distinct_keys s \<Longrightarrow> distinct_keys (apply_round now r s)"
    by (simp add: apply_round_def Replace_eq distinct_keys_def succ_loop.loop_distinct
        down_loop.loop_distinct rec_loop.loop_distinct)
qed

lemma store_history_distinct: "store_history e u t s \<Longrightarrow> distinct_keys s"
  by (induction rule: store_history.induct)
    (simp_all add: distinct_keys_apply_round, simp add: distinct_keys_def NewVerificationStore_def)


section \<open>What the metrics say\<close>

text \<open>The samples \<open>Collect\<close> sends, written out.\<close>

definition remoteapp_labels :: "namespaced_name \<Rightarrow> string \<Rightarrow> (string \<times> string) list" where
  "remoteapp_labels key result =
     [(LabelRemoteAppName, nn_name key), (LabelRemoteAppNamespace, nn_namespace key),
      (LabelResult, result)]"

definition result_series :: "namespaced_name \<times> verification \<Rightarrow> series list" where
  "result_series = (\<lambda>(key, v).
     [\<lparr>sr_metric = MetricTLSVerification, sr_labels = remoteapp_labels key (v_Result v),
       sr_value = 1\<rparr>] @
     (if up_Result (v_Upstream v) = UpstreamReachable \<or> up_Result (v_Upstream v) = UpstreamUnreachable
      then [\<lparr>sr_metric = MetricUpstreamProbeStatus,
             sr_labels = remoteapp_labels key (up_Result (v_Upstream v)),
             sr_value = up_StatusCode (v_Upstream v)\<rparr>]
      else []))"

definition store_series :: "verification_store \<Rightarrow> series list" where
  "store_series s =
     (if \<not> vs_enabled s then []
      else (if vs_probed s
            then [\<lparr>sr_metric = MetricTLSVerificationAvailable, sr_labels = [],
                   sr_value = (if vs_bundleAvailable s then 1 else 0)\<rparr>]
            else []) @
           concat (map result_series (vs_results s)))"

lemma collect_result_eq: "collect_result key v = Some (result_series (key, v))"
  by (simp add: collect_result_def MustNewConstMetric_def verificationDesc_def upstreamDesc_def
      result_series_def remoteapp_labels_def)

lemma collect_results_eq: "collect_results results = Some (concat (map result_series results))"
  by (induction results rule: collect_results.induct) (simp_all add: collect_result_eq)

lemma Collect_metrics_eq: "Collect_metrics s = Some (store_series s)"
  by (simp add: Collect_metrics_def store_series_def collect_results_eq MustNewConstMetric_def
      availableDesc_def)

text \<open>The names and label names of a sample are those of a described metric.\<close>

definition described :: "metric_desc list \<Rightarrow> series \<Rightarrow> bool" where
  "described ds x \<longleftrightarrow> list_ex (\<lambda>d. md_fqName d = sr_metric x \<and> md_variableLabels d = map fst (sr_labels x)) ds"

lemma store_series_described: "list_all (described (Describe s)) (store_series s)"
  by (auto simp: store_series_def result_series_def list_all_iff described_def Describe_def
      verificationDesc_def upstreamDesc_def availableDesc_def remoteapp_labels_def split: if_splits)

text \<open>The samples of one metric family for one RemoteApp.\<close>

definition series_of :: "string \<Rightarrow> namespaced_name \<Rightarrow> series list \<Rightarrow> series list" where
  "series_of m k xs =
     filter (\<lambda>x. sr_metric x = m \<and>
        map_of (sr_labels x) LabelRemoteAppName = Some (nn_name k) \<and>
        map_of (sr_labels x) LabelRemoteAppNamespace = Some (nn_namespace k)) xs"

lemma label_names_neq [simp]:
  "LabelRemoteAppName \<noteq> LabelRemoteAppNamespace" "LabelRemoteAppNamespace \<noteq> LabelRemoteAppName"
  "LabelResult \<noteq> LabelRemoteAppName" "LabelResult \<noteq> LabelRemoteAppNamespace"
  by (simp_all add: LabelRemoteAppName_def LabelRemoteAppNamespace_def LabelResult_def)

lemma series_of_result_series:
  "series_of MetricTLSVerification k (result_series (k', v)) =
     (if k' = k then [\<lparr>sr_metric = MetricTLSVerification,
        sr_labels = remoteapp_labels k (v_Result v), sr_value = 1\<rparr>] else [])"
  "series_of MetricUpstreamProbeStatus k (result_series (k', v)) =
     (if k' = k \<and> obs_of (Some v) \<in> {Reached, Failed}
      then [\<lparr>sr_metric = MetricUpstreamProbeStatus,
        sr_labels = remoteapp_labels k (up_Result (v_Upstream v)),
        sr_value = up_StatusCode (v_Upstream v)\<rparr>] else [])"
  by (cases k; cases k'; auto simp: series_of_def result_series_def remoteapp_labels_def obs_of_def)+

lemma series_of_append [simp]: "series_of m k (xs @ ys) = series_of m k xs @ series_of m k ys"
  by (simp add: series_of_def)

lemma series_of_concat_collect:
  assumes "distinct (map fst results)"
  shows "series_of m k (concat (map result_series results)) =
    (case go_get results k of Some v \<Rightarrow> series_of m k (result_series (k, v)) | None \<Rightarrow> [])"
  using assms
proof (induction results)
  case Nil
  then show ?case by (simp add: series_of_def)
next
  case (Cons x xs)
  obtain k' v where x: "x = (k', v)" by (cases x)
  have other: "series_of m k (result_series (k', v)) = []" if "k' \<noteq> k"
    using that by (cases k; cases k')
      (auto simp: series_of_def result_series_def remoteapp_labels_def)
  show ?case
  proof (cases "k' = k")
    case True
    then have "go_get xs k = None"
      using Cons.prems x by (simp add: map_of_eq_None_iff)
    with Cons True x show ?thesis by simp
  next
    case False
    with Cons x other show ?thesis by simp
  qed
qed

lemma series_of_Collect:
  assumes "vs_enabled s" and "distinct_keys s" and "m \<noteq> MetricTLSVerificationAvailable"
  shows "series_of m k (store_series s) =
    (case Result s k of Some v \<Rightarrow> series_of m k (result_series (k, v)) | None \<Rightarrow> [])"
proof -
  have "series_of m k [\<lparr>sr_metric = MetricTLSVerificationAvailable, sr_labels = [], sr_value = b\<rparr>] = []"
    for b by (simp add: series_of_def)
  moreover have "series_of m k [] = []" by (simp add: series_of_def)
  ultimately show ?thesis
    using assms by (simp add: store_series_def Result_def distinct_keys_def series_of_concat_collect)
qed


section \<open>Properties\<close>

text \<open>A round of one RemoteApp whose upstream answered, did not, or was not asked.\<close>

definition example_result :: "string \<Rightarrow> string \<Rightarrow> (namespaced_name, verification) go_map" where
  "example_result res up =
     [(NamespacedName ''mcp'' ''kube'',
       \<lparr>v_Result = res, v_Detail = '''', v_ServerName = ''kube.mcp.svc.cluster.local'',
        v_Upstream = notProbed\<lparr>up_Result := up, up_StatusCode := (if up = UpstreamReachable then 200 else 0)\<rparr>\<rparr>)]"

lemma example_result_get [simp]:
  "go_get (maps_copy [] (example_result res up)) (NamespacedName ''mcp'' ''kube'') =
     go_get (example_result res up) (NamespacedName ''mcp'' ''kube'')"
  by (subst maps_copy_get) (simp_all add: example_result_def)

lemma example_result_obs [simp]:
  "round_obs (NamespacedName ''mcp'' ''kube'') (Outcomes (example_result res up)) =
     (if up = UpstreamReachable then Reached else if up = UpstreamUnreachable then Failed else Skipped)"
  by (simp add: round_obs_def obs_of_def) (simp add: example_result_def)

text \<open>One round's effect on the bookkeeping of one RemoteApp, in each of the four cases:
  answered, failed, not asked, gone from the round.\<close>

theorem Replace_effect:
  assumes "distinct (map fst results)"
  shows "Result (Replace s results now) k = go_get results k \<and>
    LastUpstreamSuccess (Replace s results now) k =
      (case obs_of (go_get results k) of
         Reached \<Rightarrow> Some now | Gone \<Rightarrow> None | _ \<Rightarrow> LastUpstreamSuccess s k) \<and>
    UpstreamDownSince (Replace s results now) k =
      (case obs_of (go_get results k) of
         Reached \<Rightarrow> None | Gone \<Rightarrow> None | Skipped \<Rightarrow> UpstreamDownSince s k
       | Failed \<Rightarrow> Some (case UpstreamDownSince s k of Some t \<Rightarrow> t | None \<Rightarrow> now)) \<and>
    UpstreamRecoveredAt (Replace s results now) k =
      (case obs_of (go_get results k) of
         Reached \<Rightarrow> (if UpstreamDownSince s k \<noteq> None then Some now else UpstreamRecoveredAt s k)
       | Gone \<Rightarrow> None | _ \<Rightarrow> UpstreamRecoveredAt s k)"
proof -
  have "go_get (maps_copy [] results) k = go_get results k"
    using assms by (simp add: maps_copy_get split: option.split)
  then show ?thesis
    by (simp add: Result_Replace Replace_bookkeeping split: upstream_obs.split)
qed

theorem Replace_effect_witness:
  "UpstreamDownSince
     (Replace (NewVerificationStore True True) (example_result ResultVerified UpstreamUnreachable) 10)
     (NamespacedName ''mcp'' ''kube'') = Some 10"
proof -
  have "distinct (map fst (example_result ResultVerified UpstreamUnreachable))"
    by (simp add: example_result_def)
  from Replace_effect [OF this, of "NewVerificationStore True True" 10 "NamespacedName ''mcp'' ''kube''"]
  show ?thesis by (simp add: example_result_def obs_of_def)
qed

text \<open>C7. The outage clock over any sequence of rounds of a process: an outage is open, since
  \<open>t\<close>, exactly when a round at \<open>t\<close> failed, before it no outage was open (only unasked rounds
  since the start, the last answer or the last absence), and after it no round was answered
  or missed the RemoteApp; rounds that did not ask do not matter.\<close>

theorem outage_history:
  "UpstreamDownSince (run_rounds rounds (NewVerificationStore e u)) k = Some t \<longleftrightarrow>
   (\<exists>pre mid r post. rounds = pre @ mid @ (t, r) # post \<and>
      (pre = [] \<or> round_obs k (snd (last pre)) \<in> {Reached, Gone}) \<and>
      list_all (\<lambda>x. round_obs k (snd x) = Skipped) mid \<and>
      round_obs k r = Failed \<and>
      list_all (\<lambda>x. round_obs k (snd x) \<in> {Failed, Skipped}) post)"
proof -
  have "UpstreamDownSince (NewVerificationStore e u) k = None" by simp
  from tracker.down_since_iff [of "NewVerificationStore e u" k rounds t, OF this] show ?thesis
    by (simp only: run_rounds_tracker tracker.opened_at_def list_all_iff)
qed

text \<open>C8. The invariant of the store over the life of a process: per RemoteApp an answered
  outcome goes with a success time and no open outage, a failed one with an open outage;
  no time stamp is in the future; a recovery is never later than the last success, and an
  open outage is never older than the last success.\<close>

theorem store_invariant:
  assumes "store_history e u now s"
  shows "distinct (map fst (vs_results s)) \<and>
    (obs_of (Result s k) = Reached \<longrightarrow>
       UpstreamDownSince s k = None \<and> LastUpstreamSuccess s k \<noteq> None) \<and>
    (obs_of (Result s k) = Failed \<longrightarrow> UpstreamDownSince s k \<noteq> None) \<and>
    (\<forall>t. LastUpstreamSuccess s k = Some t \<or> UpstreamDownSince s k = Some t \<or>
         UpstreamRecoveredAt s k = Some t \<longrightarrow> t \<le> now) \<and>
    (\<forall>r. UpstreamRecoveredAt s k = Some r \<longrightarrow> (\<exists>t. LastUpstreamSuccess s k = Some t \<and> r \<le> t)) \<and>
    (\<forall>d t. UpstreamDownSince s k = Some d \<and> LastUpstreamSuccess s k = Some t \<longrightarrow> t \<le> d)"
  using store_history_ok [OF assms, of k] store_history_distinct [OF assms]
  unfolding bookkeeping_ok_def distinct_keys_def by fastforce

theorem store_invariant_witness:
  "UpstreamDownSince (Replace (NewVerificationStore True True)
     (example_result ResultVerified UpstreamUnreachable) 10) (NamespacedName ''mcp'' ''kube'') \<noteq> None"
proof -
  let ?s = "apply_round 10 (Outcomes (example_result ResultVerified UpstreamUnreachable))
    (NewVerificationStore True True)"
  have hist: "store_history True True 10 ?s"
    by (rule store_history.round [OF store_history.created [of _ _ 5]]) simp
  have "obs_of (Result ?s (NamespacedName ''mcp'' ''kube'')) = Failed"
    by (simp add: apply_round_def Result_Replace) (simp add: obs_of_def example_result_def)
  then show ?thesis
    using store_invariant [OF hist, of "NamespacedName ''mcp'' ''kube''"]
    by (simp add: apply_round_def)
qed

text \<open>C31. The metrics: a scrape never panics; a RemoteApp has exactly one TLS series when the
  store holds an outcome for it and none otherwise, with its result as label; it has one
  upstream series exactly when the upstream result of that outcome is reachable or
  unreachable, with that result as label and the recorded status code as
  value; a disabled verifier exports nothing; and every series is of a metric the
  collector described, with its labels.\<close>

theorem Collect_series:
  assumes "store_history e u now s"
  shows "\<exists>xs. Collect_metrics s = Some xs \<and> list_all (described (Describe s)) xs \<and>
    (\<not> e \<longrightarrow> xs = []) \<and>
    (e \<longrightarrow>
      series_of MetricTLSVerification k xs =
        (case Result s k of
           None \<Rightarrow> []
         | Some v \<Rightarrow> [\<lparr>sr_metric = MetricTLSVerification,
                       sr_labels = remoteapp_labels k (v_Result v), sr_value = 1\<rparr>]) \<and>
      series_of MetricUpstreamProbeStatus k xs =
        (case Result s k of
           None \<Rightarrow> []
         | Some v \<Rightarrow>
             if obs_of (Some v) \<in> {Reached, Failed}
             then [\<lparr>sr_metric = MetricUpstreamProbeStatus,
                    sr_labels = remoteapp_labels k (up_Result (v_Upstream v)),
                    sr_value = up_StatusCode (v_Upstream v)\<rparr>]
             else []))"
proof (intro exI [of _ "store_series s"] conjI impI)
  have en: "vs_enabled s = e"
    using assms by (induction rule: store_history.induct)
      (auto simp: NewVerificationStore_def apply_round_def split: round_outcome.split)
  show "Collect_metrics s = Some (store_series s)" by (rule Collect_metrics_eq)
  show "list_all (described (Describe s)) (store_series s)" by (rule store_series_described)
  show "store_series s = []" if "\<not> e" using that en by (simp add: store_series_def)
  assume e
  then show "series_of MetricTLSVerification k (store_series s) =
      (case Result s k of
         None \<Rightarrow> []
       | Some v \<Rightarrow> [\<lparr>sr_metric = MetricTLSVerification,
                     sr_labels = remoteapp_labels k (v_Result v), sr_value = 1\<rparr>])"
    "series_of MetricUpstreamProbeStatus k (store_series s) =
      (case Result s k of
         None \<Rightarrow> []
       | Some v \<Rightarrow>
           if obs_of (Some v) \<in> {Reached, Failed}
           then [\<lparr>sr_metric = MetricUpstreamProbeStatus,
                  sr_labels = remoteapp_labels k (up_Result (v_Upstream v)),
                  sr_value = up_StatusCode (v_Upstream v)\<rparr>]
           else [])"
    using en store_history_distinct [OF assms]
    by (simp_all add: series_of_Collect series_of_result_series split: option.split)
qed

theorem Collect_series_witness:
  "series_of MetricUpstreamProbeStatus (NamespacedName ''mcp'' ''kube'')
     (the (Collect_metrics (Replace (NewVerificationStore True True)
        (example_result ResultVerified UpstreamReachable) 10))) =
   [\<lparr>sr_metric = MetricUpstreamProbeStatus,
     sr_labels = remoteapp_labels (NamespacedName ''mcp'' ''kube'') UpstreamReachable, sr_value = 200\<rparr>]"
proof -
  have "store_history True True 10 (apply_round 10
      (Outcomes (example_result ResultVerified UpstreamReachable)) (NewVerificationStore True True))"
    by (rule store_history.round [OF store_history.created [of _ _ 5]]) simp
  from Collect_series [OF this, of "NamespacedName ''mcp'' ''kube''"]
  show ?thesis
    by (simp add: apply_round_def Result_Replace) (auto simp: obs_of_def example_result_def)
qed

text \<open>A trust bundle that cannot be loaded drops every outcome, reports the verification
  as unavailable on the next scrape, and leaves every outage as it was.\<close>

theorem bundle_unavailable_effect:
  "Result (SetBundleUnavailable s) k = None \<and>
   UpstreamDownSince (SetBundleUnavailable s) k = UpstreamDownSince s k \<and>
   LastUpstreamSuccess (SetBundleUnavailable s) k = LastUpstreamSuccess s k \<and>
   UpstreamRecoveredAt (SetBundleUnavailable s) k = UpstreamRecoveredAt s k \<and>
   Collect_metrics (SetBundleUnavailable s) =
     Some (if vs_enabled s
      then [\<lparr>sr_metric = MetricTLSVerificationAvailable, sr_labels = [], sr_value = 0\<rparr>] else [])"
  by (simp add: Collect_metrics_eq store_series_def)

end
