(* ===== verification/Probe.thy ===== *)
theory Probe
  imports Verification GoText
begin

text \<open>
  One probe of one tunnel (\<open>verify.go\<close>): the dial, the handshake, the HTTP request on the
  verified session, and the one-line diagnoses.

  The network is a parameter (\<open>network\<close>): what the dial, the handshake, the deadline, the
  write and the read return. The probe also returns the sequence of its network actions,
  so that what is sent, and when, can be stated. A Go error is the list of its layers,
  outermost first (\<open>errors.Unwrap\<close> is the tail), each with its text and what \<open>errors.Is\<close>
  and \<open>errors.As\<close> look for; \<open>context.DeadlineExceeded\<close> and the like are layers whose
  \<open>Timeout()\<close> is true. Errors that join several errors do not occur on these paths.
\<close>

section \<open>Errors\<close>

record certificate =
  cert_DNSNames :: "string list"
  cert_CommonName :: string

datatype error_kind =
    PlainError
  | ErrDeadlineExceeded
  | OpError
  | HostnameError "certificate option"
  | UnknownAuthorityError
  | CertificateInvalidError int

text \<open>\<open>layer_timeout\<close> is the result of \<open>Timeout()\<close> when the layer is a \<open>net.Error\<close>.\<close>

record error_layer =
  layer_text :: string
  layer_kind :: error_kind
  layer_timeout :: "bool option"

type_synonym go_error = "error_layer list"

definition error_text :: "go_error \<Rightarrow> string" where
  "error_text err = (case err of [] \<Rightarrow> ''<nil>'' | l # _ \<Rightarrow> layer_text l)"

text \<open>\<open>errors.As\<close>: the first layer of the chain with a property, as the error it heads.\<close>

fun errors_as :: "(error_layer \<Rightarrow> bool) \<Rightarrow> go_error \<Rightarrow> go_error option" where
  "errors_as P [] = None"
| "errors_as P (l # ls) = (if P l then Some (l # ls) else errors_as P ls)"

definition errors_new :: "string \<Rightarrow> go_error" where
  "errors_new msg = [\<lparr>layer_text = msg, layer_kind = PlainError, layer_timeout = None\<rparr>]"

text \<open>\<open>fmt.Errorf\<close> with a \<open>%w\<close> verb at its end.\<close>

definition wrap_error :: "string \<Rightarrow> go_error \<Rightarrow> go_error" where
  "wrap_error prefix err =
     \<lparr>layer_text = prefix @ '': '' @ error_text err, layer_kind = PlainError, layer_timeout = None\<rparr> # err"

lemma error_text_simps [simp]:
  "error_text (l # ls) = layer_text l"
  "error_text (errors_new msg) = msg"
  "error_text (wrap_error prefix err) = prefix @ '': '' @ error_text err"
  by (simp_all add: error_text_def errors_new_def wrap_error_def)

lemma errors_as_None_iff: "errors_as P err = None \<longleftrightarrow> (\<forall>l \<in> set err. \<not> P l)"
  by (induction err) auto

lemma errors_as_SomeD:
  "errors_as P err = Some e \<Longrightarrow> \<exists>pre l rest. e = l # rest \<and> P l \<and> err = pre @ e \<and> (\<forall>x \<in> set pre. \<not> P x)"
proof (induction err)
  case (Cons l err)
  show ?case
  proof (cases "P l")
    case True
    with Cons.prems show ?thesis by (intro exI [of _ "[]"]) auto
  next
    case False
    with Cons obtain pre l' rest where "e = l' # rest" "P l'" "err = pre @ e" "\<forall>x \<in> set pre. \<not> P x"
      by auto
    with False show ?thesis by (intro exI [of _ "l # pre"]) auto
  qed
qed simp


section \<open>Diagnoses\<close>

definition certificateNames :: "certificate option \<Rightarrow> string list" where
  "certificateNames cert =
     (case cert of
        None \<Rightarrow> [''<no certificate>'']
      | Some c \<Rightarrow>
          if length (cert_DNSNames c) > 0 then cert_DNSNames c
          else if cert_CommonName c \<noteq> '''' then [''CN='' @ cert_CommonName c]
          else [''<no DNS SANs>''])"

definition is_hostname_error :: "error_layer \<Rightarrow> bool" where
  "is_hostname_error l = (case layer_kind l of HostnameError _ \<Rightarrow> True | _ \<Rightarrow> False)"

definition hostname_certificate :: "error_layer \<Rightarrow> certificate option" where
  "hostname_certificate l = (case layer_kind l of HostnameError c \<Rightarrow> c | _ \<Rightarrow> None)"

definition is_invalid_error :: "error_layer \<Rightarrow> bool" where
  "is_invalid_error l = (case layer_kind l of CertificateInvalidError _ \<Rightarrow> True | _ \<Rightarrow> False)"

definition invalid_reason :: "error_layer \<Rightarrow> int" where
  "invalid_reason l = (case layer_kind l of CertificateInvalidError r \<Rightarrow> r | _ \<Rightarrow> 0)"

text \<open>\<open>x509.Expired\<close>, the second of the \<open>InvalidReason\<close> constants.\<close>

definition x509_Expired :: int where "x509_Expired = 1"

definition describeHandshakeError :: "string \<Rightarrow> go_error \<Rightarrow> string" where
  "describeHandshakeError serverName err =
     (case errors_as is_hostname_error err of
        Some hostErr \<Rightarrow>
          ''served certificate is not valid for '' @ serverName @ '' (SAN mismatch): presented '' @
          strings_join (certificateNames (hostname_certificate (hd hostErr))) '', ''
      | None \<Rightarrow>
          (case errors_as (\<lambda>l. layer_kind l = UnknownAuthorityError) err of
             Some _ \<Rightarrow>
               ''served certificate does not chain to the SPIFFE trust bundle: '' @ error_text err
           | None \<Rightarrow>
               (case errors_as is_invalid_error err of
                  Some invalidErr \<Rightarrow>
                    if invalid_reason (hd invalidErr) = x509_Expired
                    then ''served certificate is expired or not yet valid: '' @ error_text err
                    else ''served certificate is invalid: '' @ error_text err
                | None \<Rightarrow> ''TLS handshake to '' @ serverName @ '' failed: '' @ error_text err)))"

definition describeUpstreamError :: "string \<Rightarrow> duration \<Rightarrow> go_error \<Rightarrow> string" where
  "describeUpstreamError url timeout err =
     (if errors_as (\<lambda>l. layer_kind l = ErrDeadlineExceeded) err \<noteq> None
      then ''no HTTP response from '' @ url @ '' within '' @ duration_string timeout
      else if (case errors_as (\<lambda>l. layer_timeout l \<noteq> None) err of
                 Some netErr \<Rightarrow> layer_timeout (hd netErr) = Some True | None \<Rightarrow> False)
      then ''no HTTP response from '' @ url @ '' within '' @ duration_string timeout
      else let err' = (case errors_as (\<lambda>l. layer_kind l = OpError) err of
                         Some opErr \<Rightarrow> if tl opErr \<noteq> [] then tl opErr else err
                       | None \<Rightarrow> err)
           in ''no HTTP response from '' @ url @ '': '' @ error_text err')"


section \<open>The probe\<close>

definition probeUserAgent :: string where
  "probeUserAgent = ''tunnelport-upstream-probe''"

record http_request =
  req_Method :: string
  req_URL :: string
  req_Header :: "(string, string) go_map"
  req_Close :: bool

datatype net_action =
    Dial string
  | Handshake string
  | SetDeadline duration
  | WriteRequest http_request
  | ReadResponse
  | CloseTLS
  | CloseConn

text \<open>
  What the network answers: \<open>None\<close> is a nil error. \<open>net_newRequest\<close> is \<open>http.NewRequest\<close>'s
  verdict on the URL; \<open>net_readResponse\<close> gives the status code.
\<close>

record 'roots network =
  net_dial :: "string \<Rightarrow> go_error option"
  net_handshake :: "string \<Rightarrow> string \<Rightarrow> 'roots \<Rightarrow> go_error option"
  net_newRequest :: "string \<Rightarrow> go_error option"
  net_setDeadline :: "duration \<Rightarrow> go_error option"
  net_write :: "http_request \<Rightarrow> go_error option"
  net_readResponse :: "http_request \<Rightarrow> go_error + int"

definition gateway_failure :: "int \<Rightarrow> bool" where
  "gateway_failure code = (code \<in> {502, 503, 504})"

definition unreachable_probe :: "string \<Rightarrow> string \<Rightarrow> upstream_probe" where
  "unreachable_probe url detail =
     \<lparr>up_Result = UpstreamUnreachable, up_StatusCode = 0, up_URL = url, up_Detail = detail\<rparr>"

text \<open>The URL of the probe and the request it sends, as \<open>probeUpstream\<close> builds them.\<close>

definition probe_url :: "probe_target \<Rightarrow> string" where
  "probe_url t = ''https://'' @ pt_addr t @ pt_path t"

definition probe_request :: "string \<Rightarrow> http_request" where
  "probe_request url =
     \<lparr>req_Method = ''GET'', req_URL = url,
      req_Header = [(''User-Agent'', probeUserAgent), (''Accept'', ''*/*'')], req_Close = True\<rparr>"

definition probeUpstream ::
  "('roots, 'more) network_scheme \<Rightarrow> probe_target \<Rightarrow> upstream_probe \<times> net_action list" where
  "probeUpstream net t =
     (let url = probe_url t; req = probe_request url
      in case net_newRequest net url of
           Some err \<Rightarrow>
             (unreachable_probe url
                (''cannot build probe request for '' @ url @ '': '' @ error_text err), [])
         | None \<Rightarrow>
             (case net_setDeadline net (pt_upstreamTimeout t) of
                Some err \<Rightarrow>
                  (unreachable_probe url
                     (''cannot arm probe deadline for '' @ url @ '': '' @ error_text err),
                   [SetDeadline (pt_upstreamTimeout t)])
              | None \<Rightarrow>
                  (case net_write net req of
                     Some err \<Rightarrow>
                       (unreachable_probe url (describeUpstreamError url (pt_upstreamTimeout t) err),
                        [SetDeadline (pt_upstreamTimeout t), WriteRequest req])
                   | None \<Rightarrow>
                       (case net_readResponse net req of
                          Inl err \<Rightarrow>
                            (unreachable_probe url (describeUpstreamError url (pt_upstreamTimeout t) err),
                             [SetDeadline (pt_upstreamTimeout t), WriteRequest req, ReadResponse])
                        | Inr code \<Rightarrow>
                            (\<lparr>up_Result = (if gateway_failure code then UpstreamUnreachable
                                          else UpstreamReachable),
                              up_StatusCode = code, up_URL = url, up_Detail = ''''\<rparr>,
                             [SetDeadline (pt_upstreamTimeout t), WriteRequest req, ReadResponse])))))"

definition probeTunnel ::
  "('roots, 'more) network_scheme \<Rightarrow> probe_target \<Rightarrow> 'roots \<Rightarrow> verification \<times> net_action list" where
  "probeTunnel net t roots =
     (let v = \<lparr>v_Result = '''', v_Detail = '''', v_ServerName = pt_serverName t, v_Upstream = notProbed\<rparr>
      in case net_dial net (pt_addr t) of
           Some err \<Rightarrow>
             (v\<lparr>v_Result := ResultUnreachable,
                v_Detail := ''cannot connect to '' @ pt_addr t @ '': '' @ error_text err\<rparr>,
              [Dial (pt_addr t)])
         | None \<Rightarrow>
             (case net_handshake net (pt_addr t) (pt_serverName t) roots of
                Some err \<Rightarrow>
                  (v\<lparr>v_Result := ResultCertInvalid,
                     v_Detail := describeHandshakeError (pt_serverName t) err\<rparr>,
                   [Dial (pt_addr t), Handshake (pt_serverName t), CloseConn])
              | None \<Rightarrow>
                  (let v = v\<lparr>v_Result := ResultVerified\<rparr>;
                       (v, sent) = (if pt_path t \<noteq> ''''
                                    then (case probeUpstream net t of
                                            (p, acts) \<Rightarrow> (v\<lparr>v_Upstream := p\<rparr>, acts))
                                    else (v, []))
                   in (v, [Dial (pt_addr t), Handshake (pt_serverName t)] @ sent @
                          [CloseTLS, CloseConn]))))"


section \<open>The trust bundle\<close>

text \<open>
  The file and the PEM parser are parameters; a parser that finds no certificate
  returns \<open>None\<close>.
\<close>

definition loadTrustBundle ::
  "(string \<Rightarrow> go_error + string) \<Rightarrow> (string \<Rightarrow> 'roots option) \<Rightarrow> string \<Rightarrow> go_error + 'roots" where
  "loadTrustBundle readFile appendCertsFromPEM path =
     (if path = '''' then Inl (errors_new ''no trust bundle configured'')
      else (case readFile path of
              Inl err \<Rightarrow> Inl err
            | Inr pem \<Rightarrow>
                if length pem = 0
                then Inl (errors_new ''trust bundle is empty (tbot has not written it yet?)'')
                else (case appendCertsFromPEM pem of
                        None \<Rightarrow> Inl (errors_new ''trust bundle contains no parseable certificate'')
                      | Some pool \<Rightarrow> Inr pool)))"


section \<open>Lemmas\<close>

lemma certificateNames_nonempty: "certificateNames cert \<noteq> []"
  by (auto simp: certificateNames_def split: option.split)

lemma errors_as_append:
  "errors_as P (xs @ ys) =
     (case errors_as P xs of Some e \<Rightarrow> Some (e @ ys) | None \<Rightarrow> errors_as P ys)"
  by (induction xs) auto

text \<open>Two chains that differ in their texts only.\<close>

definition same_layers :: "go_error \<Rightarrow> go_error \<Rightarrow> bool" where
  "same_layers e e' \<longleftrightarrow>
     list_all2 (\<lambda>l l'. layer_kind l = layer_kind l' \<and> layer_timeout l = layer_timeout l') e e'"

lemma errors_as_same_layers:
  assumes "same_layers e e'" and "\<And>l l'. layer_kind l = layer_kind l' \<Longrightarrow>
    layer_timeout l = layer_timeout l' \<Longrightarrow> P l \<longleftrightarrow> P l'"
  shows "rel_option same_layers (errors_as P e) (errors_as P e')"
  using assms(1) unfolding same_layers_def
proof (induction rule: list_all2_induct)
  case (Cons l e l' e')
  then have "P l \<longleftrightarrow> P l'" by (intro assms(2)) auto
  with Cons show ?case by (simp add: same_layers_def)
qed simp

lemma same_layers_append_refl:
  "same_layers e e' \<Longrightarrow> same_layers (e @ inner) (e' @ inner)"
  by (simp add: same_layers_def list_all2_appendI list.rel_refl)

lemma probe_request_simps [simp]:
  "req_Method (probe_request url) = ''GET''" "req_URL (probe_request url) = url"
  "req_Close (probe_request url)"
  by (simp_all add: probe_request_def)

lemma probeUpstream_URL [simp]: "up_URL (fst (probeUpstream net t)) = probe_url t"
  by (simp add: probeUpstream_def Let_def unreachable_probe_def split: option.split sum.split)

lemma probeUpstream_result:
  "up_Result (fst (probeUpstream net t)) \<in> {UpstreamReachable, UpstreamUnreachable}"
  by (simp add: probeUpstream_def Let_def unreachable_probe_def split: option.split sum.split)

lemma probeUpstream_writes:
  "WriteRequest r \<in> set (snd (probeUpstream net t)) \<Longrightarrow>
     req_Method r = ''GET'' \<and> req_URL r = probe_url t \<and> req_Close r"
  by (auto simp: probeUpstream_def Let_def split: option.splits sum.splits)

lemma probeUpstream_one_write:
  "length (filter (\<lambda>a. case a of WriteRequest _ \<Rightarrow> True | _ \<Rightarrow> False) (snd (probeUpstream net t))) \<le> 1"
  by (simp add: probeUpstream_def Let_def split: option.split sum.split)

lemma probeTunnel_server [simp]: "v_ServerName (fst (probeTunnel net t roots)) = pt_serverName t"
  by (simp add: probeTunnel_def Let_def split: option.split prod.split)


section \<open>Properties\<close>

text \<open>
  A network to evaluate examples on: everything succeeds but what the arguments say.
\<close>

definition example_net :: "go_error option \<Rightarrow> go_error option \<Rightarrow> go_error + int \<Rightarrow> unit network" where
  "example_net dial handshake response =
     \<lparr>net_dial = (\<lambda>_. dial), net_handshake = (\<lambda>_ _ _. handshake), net_newRequest = (\<lambda>_. None),
      net_setDeadline = (\<lambda>_. None), net_write = (\<lambda>_. None), net_readResponse = (\<lambda>_. response)\<rparr>"

definition example_target :: probe_target where
  "example_target = \<lparr>pt_addr = ''a.b:8443'', pt_serverName = ''a.b'', pt_path = ''/'',
     pt_upstreamTimeout = DefaultUpstreamProbeTimeout\<rparr>"

text \<open>The classification of one probe: unreachable exactly when the dial fails,
  cert_invalid exactly when the dial succeeds and the handshake fails, verified exactly when
  both succeed; and a request goes to the upstream only on a verified session with a path,
  so that every other probe reports not_probed.\<close>

theorem probeTunnel_classification:
  "v_Result (fst (probeTunnel net t roots)) =
     (if net_dial net (pt_addr t) \<noteq> None then ResultUnreachable
      else if net_handshake net (pt_addr t) (pt_serverName t) roots \<noteq> None then ResultCertInvalid
      else ResultVerified) \<and>
   v_Upstream (fst (probeTunnel net t roots)) =
     (if net_dial net (pt_addr t) = None \<and>
         net_handshake net (pt_addr t) (pt_serverName t) roots = None \<and> pt_path t \<noteq> ''''
      then fst (probeUpstream net t) else notProbed)"
  by (auto simp: probeTunnel_def Let_def split: option.split prod.split)

text \<open>C25. The verdict on the upstream: reachable exactly when the request could be built, the
  deadline armed, the request written and a response with a status other than 502, 503 and
  504 read; unreachable in every other case, the two in which no request goes out included.
  The recorded status is that of the response, 0 without one, and the request is written
  exactly when it could be built and the deadline armed.\<close>

theorem probeUpstream_verdict:
  "(up_Result (fst (probeUpstream net t)) = UpstreamReachable \<longleftrightarrow>
      net_newRequest net (probe_url t) = None \<and> net_setDeadline net (pt_upstreamTimeout t) = None \<and>
      net_write net (probe_request (probe_url t)) = None \<and>
      (\<exists>code. net_readResponse net (probe_request (probe_url t)) = Inr code \<and> code \<notin> {502, 503, 504})) \<and>
   up_Result (fst (probeUpstream net t)) \<in> {UpstreamReachable, UpstreamUnreachable} \<and>
   up_StatusCode (fst (probeUpstream net t)) =
     (case net_readResponse net (probe_request (probe_url t)) of
        Inr code \<Rightarrow> if ReadResponse \<in> set (snd (probeUpstream net t)) then code else 0
      | Inl _ \<Rightarrow> 0) \<and>
   (WriteRequest (probe_request (probe_url t)) \<in> set (snd (probeUpstream net t)) \<longleftrightarrow>
      net_newRequest net (probe_url t) = None \<and> net_setDeadline net (pt_upstreamTimeout t) = None)"
  by (auto simp: probeUpstream_def Let_def gateway_failure_def unreachable_probe_def
      split: option.split sum.split)

text \<open>C26. The network actions of a probe: it dials the target once, it writes at most one
  request, and only after a handshake that verified and with a path configured; the request
  is a GET for the path on the dialled address that closes the connection; and a connection
  that was opened is closed last.\<close>

theorem probeTunnel_actions:
  "\<exists>sent. snd (probeTunnel net t roots) =
      (if net_dial net (pt_addr t) \<noteq> None then [Dial (pt_addr t)]
       else if net_handshake net (pt_addr t) (pt_serverName t) roots \<noteq> None
       then [Dial (pt_addr t), Handshake (pt_serverName t), CloseConn]
       else [Dial (pt_addr t), Handshake (pt_serverName t)] @ sent @ [CloseTLS, CloseConn]) \<and>
    (pt_path t = '''' \<longrightarrow> sent = []) \<and>
    length (filter (\<lambda>a. case a of WriteRequest _ \<Rightarrow> True | _ \<Rightarrow> False) sent) \<le> 1 \<and>
    Dial (pt_addr t) \<notin> set sent \<and>
    (\<forall>r. WriteRequest r \<in> set sent \<longrightarrow>
       req_Method r = ''GET'' \<and> req_URL r = probe_url t \<and> req_Close r)"
proof (intro exI conjI)
  let ?sent = "if pt_path t \<noteq> '''' then snd (probeUpstream net t) else []"
  show "snd (probeTunnel net t roots) =
      (if net_dial net (pt_addr t) \<noteq> None then [Dial (pt_addr t)]
       else if net_handshake net (pt_addr t) (pt_serverName t) roots \<noteq> None
       then [Dial (pt_addr t), Handshake (pt_serverName t), CloseConn]
       else [Dial (pt_addr t), Handshake (pt_serverName t)] @ ?sent @ [CloseTLS, CloseConn])"
    by (auto simp: probeTunnel_def Let_def split: option.split prod.split)
  show "pt_path t = '''' \<longrightarrow> ?sent = []" by simp
  show "length (filter (\<lambda>a. case a of WriteRequest _ \<Rightarrow> True | _ \<Rightarrow> False) ?sent) \<le> 1"
    using probeUpstream_one_write [of net t] by simp
  show "Dial (pt_addr t) \<notin> set ?sent"
    by (simp add: probeUpstream_def Let_def split: option.split sum.split)
  show "\<forall>r. WriteRequest r \<in> set ?sent \<longrightarrow>
       req_Method r = ''GET'' \<and> req_URL r = probe_url t \<and> req_Close r"
    using probeUpstream_writes [of _ net t] by simp
qed

theorem probeTunnel_actions_witness:
  "\<exists>sent. snd (probeTunnel (example_net None None (Inr 200)) example_target ()) =
     [Dial ''a.b:8443'', Handshake ''a.b''] @ sent @ [CloseTLS, CloseConn]"
  using probeTunnel_actions [of "example_net None None (Inr 200)" example_target "()"]
  by (auto simp: example_net_def example_target_def)

text \<open>The upstream diagnosis is stable across rounds: what it says of an error with a
  \<open>net.OpError\<close> layer (whose text holds the ephemeral source port) depends neither on the
  text of that layer nor on the texts around it, only on the error inside.\<close>

theorem describeUpstreamError_stable:
  assumes "same_layers outer outer'" and "inner \<noteq> []"
    and "\<exists>pre l. outer = pre @ [l] \<and> layer_kind l = OpError \<and> list_all (\<lambda>x. layer_kind x \<noteq> OpError) pre"
  shows "describeUpstreamError url timeout (outer @ inner) =
         describeUpstreamError url timeout (outer' @ inner)"
proof -
  obtain pre l where outer: "outer = pre @ [l]" and l: "layer_kind l = OpError"
    and pre: "list_all (\<lambda>x. layer_kind x \<noteq> OpError) pre" using assms(3) by blast
  obtain pre' l' where outer': "outer' = pre' @ [l']" and l': "layer_kind l' = OpError"
    and same: "list_all2 (\<lambda>l l'. layer_kind l = layer_kind l' \<and> layer_timeout l = layer_timeout l') pre pre'"
    using assms(1) l unfolding outer same_layers_def by (auto simp: list_all2_append1 list_all2_Cons1)
  have pre': "list_all (\<lambda>x. layer_kind x \<noteq> OpError) pre'"
    using same pre by (induction rule: list_all2_induct) auto
  have op: "errors_as (\<lambda>l. layer_kind l = OpError) (xs @ [y] @ inner) = Some (y # inner)"
    if "list_all (\<lambda>x. layer_kind x \<noteq> OpError) xs" "layer_kind y = OpError" for xs y
    using that by (induction xs) auto
  note rel = errors_as_same_layers [OF same_layers_append_refl [OF assms(1), of inner]]
  have "rel_option same_layers (errors_as (\<lambda>l. layer_kind l = ErrDeadlineExceeded) (outer @ inner))
      (errors_as (\<lambda>l. layer_kind l = ErrDeadlineExceeded) (outer' @ inner))" by (rule rel) simp
  moreover have "rel_option same_layers (errors_as (\<lambda>l. layer_timeout l \<noteq> None) (outer @ inner))
      (errors_as (\<lambda>l. layer_timeout l \<noteq> None) (outer' @ inner))" by (rule rel) simp
  ultimately show ?thesis
    using op [OF pre l] op [OF pre' l'] assms(2) errors_as_SomeD [of "\<lambda>l. layer_timeout l \<noteq> None"]
    by (auto simp: describeUpstreamError_def outer outer' same_layers_def rel_option_iff list_all2_Cons1
        split: option.splits dest!: errors_as_SomeD)
qed

text \<open>Two readings of the same broken connection, from two source ports.\<close>

definition reset_from :: "string \<Rightarrow> go_error" where
  "reset_from source =
     [\<lparr>layer_text = ''read tcp '' @ source @ ''->10.0.0.9:8443: read: connection reset by peer'',
       layer_kind = OpError, layer_timeout = Some False\<rparr>]"

definition reset_cause :: go_error where
  "reset_cause = errors_new ''read: connection reset by peer''"

theorem describeUpstreamError_stable_witness:
  "describeUpstreamError ''https://a.b:8443/'' DefaultUpstreamProbeTimeout
     (reset_from ''10.0.0.5:41001'' @ reset_cause) =
   describeUpstreamError ''https://a.b:8443/'' DefaultUpstreamProbeTimeout
     (reset_from ''10.0.0.5:52377'' @ reset_cause)"
  by (rule describeUpstreamError_stable)
    (simp_all add: same_layers_def reset_from_def reset_cause_def errors_new_def)

text \<open>The handshake diagnosis names the fault class first: a name mismatch lists the
  names the certificate carries whatever else the chain of errors holds; then an unknown
  authority, an expired and an otherwise invalid certificate. For a failure that is none of
  these it keeps the whole error text, so two failures with different texts, such as the
  same reset read from two source ports, get different diagnoses.\<close>

theorem describeHandshakeError_classes:
  "(\<forall>hostErr. errors_as is_hostname_error err = Some hostErr \<longrightarrow>
      describeHandshakeError name err =
        ''served certificate is not valid for '' @ name @ '' (SAN mismatch): presented '' @
        strings_join (certificateNames (hostname_certificate (hd hostErr))) '', '') \<and>
   (list_all (\<lambda>l. layer_kind l \<in> {PlainError, ErrDeadlineExceeded, OpError}) err \<and>
    list_all (\<lambda>l. layer_kind l \<in> {PlainError, ErrDeadlineExceeded, OpError}) err' \<longrightarrow>
      (describeHandshakeError name err = describeHandshakeError name err' \<longleftrightarrow>
       error_text err = error_text err'))"
proof -
  have none: "describeHandshakeError name e = ''TLS handshake to '' @ name @ '' failed: '' @ error_text e"
    if "list_all (\<lambda>l. layer_kind l \<in> {PlainError, ErrDeadlineExceeded, OpError}) e" for e
  proof -
    have "errors_as is_hostname_error e = None" "errors_as is_invalid_error e = None"
      "errors_as (\<lambda>l. layer_kind l = UnknownAuthorityError) e = None"
      using that by (auto simp: errors_as_None_iff list_all_iff is_hostname_error_def is_invalid_error_def)
    then show ?thesis by (simp add: describeHandshakeError_def)
  qed
  show ?thesis
    by (auto simp: none) (simp_all add: describeHandshakeError_def)
qed

theorem describeHandshakeError_classes_witness:
  "describeHandshakeError ''a.b'' (reset_from ''10.0.0.5:41001'' @ reset_cause) \<noteq>
   describeHandshakeError ''a.b'' (reset_from ''10.0.0.5:52377'' @ reset_cause)"
  using describeHandshakeError_classes [of "reset_from ''10.0.0.5:41001'' @ reset_cause" "''a.b''"
      "reset_from ''10.0.0.5:52377'' @ reset_cause"]
  by (simp add: reset_from_def reset_cause_def errors_new_def)

text \<open>A trust bundle is loaded exactly when a path is configured, the file can be read,
  it is not empty and a certificate can be parsed from it.\<close>

theorem loadTrustBundle_ok:
  "loadTrustBundle readFile appendCertsFromPEM path = Inr pool \<longleftrightarrow>
     path \<noteq> '''' \<and>
     (\<exists>pem. readFile path = Inr pem \<and> pem \<noteq> '''' \<and> appendCertsFromPEM pem = Some pool)"
  by (auto simp: loadTrustBundle_def split: sum.split option.split)

end
