(* ===== verification/Round.thy ===== *)
theory Round
  imports Status Store Probe
begin

text \<open>
  One verification round and the loop of rounds (\<open>TLSVerifier\<close> of \<open>verify.go\<close>).

  \<open>RunOnce\<close> passes the store and the event channel explicitly. What a round gets from
  outside is the record \<open>round_env\<close>: the file system and the PEM parser, the two cached
  lists, the clock readings, the random draws, the probe, and whether the context was
  cancelled by the end of the probes. The channel is the list of the keys queued in it,
  with its capacity; the select with a default branch drops an event when it is full.

  The worker pool of \<open>RunOnce\<close> is the step relation \<open>pool_step\<close>: the dispatcher hands
  indices over the unbuffered channel, closes it, and the workers write their results.
  \<open>RunOnce\<close> itself uses the array every execution of the pool ends with; the lemmas about
  \<open>pool_step\<close> show that there is one, that no execution gets stuck and that each ends.
\<close>

section \<open>Grouping the pods\<close>

fun groupTunnelPods_loop ::
  "pod list \<Rightarrow> (namespaced_name, pod list) go_map \<Rightarrow> (namespaced_name, pod list) go_map" where
  "groupTunnelPods_loop [] out = out"
| "groupTunnelPods_loop (p # ps) out =
     (let name = go_index (pod_Labels p) LabelRemoteAppInstance in
      if name = '''' then groupTunnelPods_loop ps out
      else let key = NamespacedName (pod_Namespace p) name;
               old = (case go_get out key of Some qs \<Rightarrow> qs | None \<Rightarrow> [])
           in groupTunnelPods_loop ps (go_put key (old @ [p]) out))"

definition groupTunnelPods :: "pod list \<Rightarrow> (namespaced_name, pod list) go_map" where
  "groupTunnelPods pods = groupTunnelPods_loop pods []"

text \<open>Reading a missing key gives the nil slice.\<close>

definition pods_of :: "(namespaced_name, pod list) go_map \<Rightarrow> namespaced_name \<Rightarrow> pod list" where
  "pods_of m k = (case go_get m k of Some ps \<Rightarrow> ps | None \<Rightarrow> [])"


section \<open>The verifier\<close>

text \<open>\<open>rand_N\<close> stands for \<open>rand.N\<close>; the \<open>jitter\<close> and \<open>probe\<close> fields are the test seams.\<close>

record 'roots tls_verifier =
  tv_Config :: verify_config
  tv_probe :: "(probe_target \<Rightarrow> 'roots \<Rightarrow> verification) option"
  tv_jitter :: "(duration \<Rightarrow> duration) option"

record 'roots round_env =
  re_readFile :: "string \<Rightarrow> go_error + string"
  re_appendCerts :: "string \<Rightarrow> 'roots option"
  re_listRemoteApps :: "go_error + remote_app list"
  re_listPods :: "go_error + pod list"
  re_roundStart :: go_time
  re_rand_N :: "nat \<Rightarrow> duration \<Rightarrow> duration"
  re_network :: "'roots network"
  re_ctxErr :: "go_error option"
  re_replaceNow :: go_time

definition NeedLeaderElection :: "'roots tls_verifier \<Rightarrow> bool" where
  "NeedLeaderElection v = True"

definition prober :: "'roots tls_verifier \<Rightarrow> 'roots network \<Rightarrow> probe_target \<Rightarrow> 'roots \<Rightarrow> verification" where
  "prober v net = (case tv_probe v of Some p \<Rightarrow> p | None \<Rightarrow> (\<lambda>t roots. fst (probeTunnel net t roots)))"

definition jitterDelay :: "'roots tls_verifier \<Rightarrow> (duration \<Rightarrow> duration) \<Rightarrow> duration \<Rightarrow> duration" where
  "jitterDelay v rand_N bound =
     (case tv_jitter v of
        Some j \<Rightarrow> j bound
      | None \<Rightarrow> if bound \<le> 0 then 0 else rand_N bound)"

text \<open>The event channel and the best-effort send of \<open>enqueue\<close>. A nil channel is \<open>None\<close>.\<close>

record event_chan =
  ch_cap :: nat
  ch_queue :: "namespaced_name list"

definition enqueue :: "namespaced_name \<Rightarrow> event_chan option \<Rightarrow> event_chan option" where
  "enqueue key ch =
     (case ch of
        None \<Rightarrow> None
      | Some c \<Rightarrow>
          if length (ch_queue c) < ch_cap c then Some (c\<lparr>ch_queue := ch_queue c @ [key]\<rparr>) else Some c)"

definition verification_events :: event_chan where
  "verification_events = \<lparr>ch_cap = 256, ch_queue = []\<rparr>"


section \<open>Targets\<close>

record target =
  tg_key :: namespaced_name
  tg_ready :: bool
  tg_probe :: probe_target
  tg_at :: go_time
  tg_previous :: "verification option"

text \<open>
  The body of the loop over the RemoteApps. \<open>hadPrev\<close> and \<open>previous\<close> are one option;
  \<open>i\<close> numbers the random draws. \<open>summarizeStatus\<close> always returns.
\<close>

definition mk_target ::
  "'roots tls_verifier \<Rightarrow> 'roots round_env \<Rightarrow> verify_config \<Rightarrow> verification_store \<Rightarrow>
   (namespaced_name, pod list) go_map \<Rightarrow> nat \<Rightarrow> remote_app \<Rightarrow> target" where
  "mk_target v env cfg store podsByApp i cr =
     (let key = ra_key cr;
          fqdn = serviceFQDN (ra_Namespace cr) (ra_Name cr) (vc_ClusterDomain cfg);
          ready = fst (the (summarizeStatus (pods_of podsByApp key)))
      in \<lparr>tg_key = key, tg_ready = ready,
          tg_probe = \<lparr>pt_addr = join_host_port fqdn (itoa (vc_TLSPort cfg)), pt_serverName = fqdn,
                      pt_path = (if vc_UpstreamProbe cfg then probePath cr else ''''),
                      pt_upstreamTimeout = vc_UpstreamTimeout cfg\<rparr>,
          tg_at = (if ready
                   then re_roundStart env + jitterDelay v (re_rand_N env i) (vc_Jitter cfg)
                   else re_roundStart env),
          tg_previous = Result store key\<rparr>)"

fun mk_targets ::
  "'roots tls_verifier \<Rightarrow> 'roots round_env \<Rightarrow> verify_config \<Rightarrow> verification_store \<Rightarrow>
   (namespaced_name, pod list) go_map \<Rightarrow> nat \<Rightarrow> remote_app list \<Rightarrow> target list" where
  "mk_targets v env cfg store podsByApp i [] = []"
| "mk_targets v env cfg store podsByApp i (cr # crs) =
     (if ra_DeletionTimestamp cr \<noteq> None then mk_targets v env cfg store podsByApp (Suc i) crs
      else mk_target v env cfg store podsByApp i cr #
           mk_targets v env cfg store podsByApp (Suc i) crs)"

definition sort_targets :: "target list \<Rightarrow> target list" where
  "sort_targets ts = slice_stable (\<lambda>a b. tg_at a < tg_at b) ts"

text \<open>What a worker stores for one target.\<close>

definition target_outcome ::
  "(probe_target \<Rightarrow> 'roots \<Rightarrow> verification) \<Rightarrow> 'roots \<Rightarrow> target \<Rightarrow> verification" where
  "target_outcome probe roots t =
     (if \<not> tg_ready t
      then \<lparr>v_Result = ResultNotReady, v_Detail = '''', v_ServerName = pt_serverName (tg_probe t),
            v_Upstream = notProbed\<rparr>
      else probe (tg_probe t) roots)"

text \<open>
  \<open>sleepUntil\<close>: the time at which a call made at \<open>now\<close> returns, when the context is
  cancelled at \<open>ctxDone\<close> if at all. Timers fire on time.
\<close>

definition sleepUntil :: "go_time option \<Rightarrow> go_time \<Rightarrow> go_time \<Rightarrow> go_time" where
  "sleepUntil ctxDone now at =
     (let d = at - now in
      if d \<le> 0 then now
      else (case ctxDone of None \<Rightarrow> now + d | Some done \<Rightarrow> min (max now done) (now + d)))"


section \<open>The round\<close>

text \<open>The loop after the pool: the observed outcomes and the changed keys.\<close>

definition observe ::
  "target \<times> verification \<Rightarrow> (namespaced_name, verification) go_map \<times> namespaced_name list \<Rightarrow>
   (namespaced_name, verification) go_map \<times> namespaced_name list" where
  "observe = (\<lambda>(t, r) (observed, changed).
     (go_put (tg_key t) r observed,
      if tg_previous t = None \<or> tg_previous t \<noteq> Some r then changed @ [tg_key t] else changed))"

definition key_less :: "namespaced_name \<Rightarrow> namespaced_name \<Rightarrow> bool" where
  "key_less a b =
     (if nn_namespace a \<noteq> nn_namespace b then nn_namespace a < nn_namespace b
      else nn_name a < nn_name b)"

definition publish ::
  "target list \<Rightarrow> verification list \<Rightarrow> go_time \<Rightarrow> verification_store \<Rightarrow> event_chan option \<Rightarrow>
   verification_store \<times> event_chan option" where
  "publish targets results now store events =
     (case fold observe (zip targets results) ([], []) of
        (observed, changed) \<Rightarrow>
          (Replace store observed now, fold enqueue (slice_stable key_less changed) events))"

definition RunOnce ::
  "'roots tls_verifier \<Rightarrow> 'roots round_env \<Rightarrow> verify_config \<Rightarrow> verification_store \<Rightarrow>
   event_chan option \<Rightarrow> verification_store \<times> event_chan option \<times> go_error option" where
  "RunOnce v env cfg0 store events =
     (let cfg = withDefaults cfg0 in
      case loadTrustBundle (re_readFile env) (re_appendCerts env) (vc_TrustBundleFile cfg) of
        Inl err \<Rightarrow>
          (SetBundleUnavailable store, events,
           Some (wrap_error (''load trust bundle '' @ go_quote (vc_TrustBundleFile cfg)) err))
      | Inr roots \<Rightarrow>
          (case re_listRemoteApps env of
             Inl err \<Rightarrow> (store, events, Some (wrap_error ''list RemoteApps'' err))
           | Inr apps \<Rightarrow>
               (case re_listPods env of
                  Inl err \<Rightarrow> (store, events, Some (wrap_error ''list tunnel pods'' err))
                | Inr pods \<Rightarrow>
                    (let targets = sort_targets
                           (mk_targets v env cfg store (groupTunnelPods pods) 0 apps);
                         results = map (target_outcome (prober v (re_network env)) roots) targets
                     in case re_ctxErr env of
                          Some err \<Rightarrow> (store, events, Some err)
                        | None \<Rightarrow>
                            (case publish targets results (re_replaceNow env) store events of
                               (store', events') \<Rightarrow> (store', events', None))))))"

text \<open>
  The loop of \<open>Start\<close>. A list of rounds is a run of the process: after a failed round with
  the context cancelled it returns, otherwise the select waits for the next tick, and the
  end of the list is the cancellation there.
\<close>

fun start_loop ::
  "'roots tls_verifier \<Rightarrow> verify_config \<Rightarrow> 'roots round_env list \<Rightarrow> verification_store \<Rightarrow>
   event_chan option \<Rightarrow> verification_store \<times> event_chan option" where
  "start_loop v cfg [] store events = (store, events)"
| "start_loop v cfg (env # envs) store events =
     (case RunOnce v env cfg store events of
        (store', events', err) \<Rightarrow>
          if err \<noteq> None \<and> re_ctxErr env \<noteq> None then (store', events')
          else start_loop v cfg envs store' events')"

definition Start ::
  "'roots tls_verifier \<Rightarrow> 'roots round_env list \<Rightarrow> verification_store \<Rightarrow> event_chan option \<Rightarrow>
   verification_store \<times> event_chan option" where
  "Start v envs store events =
     (let cfg = withDefaults (tv_Config v) in
      if \<not> vc_Enabled cfg then (store, events) else start_loop v cfg envs store events)"


section \<open>The worker pool\<close>

datatype worker = Idle | Busy nat | Finished

record pool =
  po_next :: nat
  po_closed :: bool
  po_workers :: "worker list"
  po_results :: "verification option list"

definition pool_init :: "int \<Rightarrow> target list \<Rightarrow> pool" where
  "pool_init concurrency targets =
     \<lparr>po_next = 0, po_closed = False,
      po_workers = replicate (nat (min concurrency (int (length targets)))) Idle,
      po_results = replicate (length targets) None\<rparr>"

text \<open>
  One step: the dispatcher and an idle worker meet on the unbuffered channel; a worker
  stores its outcome and goes back to receive; the dispatcher closes the channel after the
  last index; an idle worker leaves its loop on the closed channel.
\<close>

inductive pool_step :: "(target \<Rightarrow> verification) \<Rightarrow> target list \<Rightarrow> pool \<Rightarrow> pool \<Rightarrow> bool"
  for outcome targets where
  send: "po_next s < length targets \<Longrightarrow> w < length (po_workers s) \<Longrightarrow> po_workers s ! w = Idle \<Longrightarrow>
    pool_step outcome targets s
      (s\<lparr>po_next := Suc (po_next s), po_workers := (po_workers s)[w := Busy (po_next s)]\<rparr>)"
| store: "w < length (po_workers s) \<Longrightarrow> po_workers s ! w = Busy i \<Longrightarrow>
    pool_step outcome targets s
      (s\<lparr>po_workers := (po_workers s)[w := Idle],
         po_results := (po_results s)[i := Some (outcome (targets ! i))]\<rparr>)"
| close: "po_next s = length targets \<Longrightarrow> \<not> po_closed s \<Longrightarrow>
    pool_step outcome targets s (s\<lparr>po_closed := True\<rparr>)"
| leave: "po_closed s \<Longrightarrow> w < length (po_workers s) \<Longrightarrow> po_workers s ! w = Idle \<Longrightarrow>
    pool_step outcome targets s (s\<lparr>po_workers := (po_workers s)[w := Finished]\<rparr>)"

text \<open>\<open>wg.Wait()\<close> returns.\<close>

definition pool_done :: "pool \<Rightarrow> bool" where
  "pool_done s \<longleftrightarrow> po_closed s \<and> (\<forall>w \<in> set (po_workers s). w = Finished)"


section \<open>Lemmas: pods and targets\<close>

definition belongs :: "namespaced_name \<Rightarrow> pod \<Rightarrow> bool" where
  "belongs k p \<longleftrightarrow>
     pod_Namespace p = nn_namespace k \<and> go_index (pod_Labels p) LabelRemoteAppInstance = nn_name k"

lemma groupTunnelPods_loop_get:
  assumes "nn_name k \<noteq> ''''"
  shows "pods_of (groupTunnelPods_loop pods out) k = pods_of out k @ filter (belongs k) pods"
proof (induction pods out rule: groupTunnelPods_loop.induct)
  case (2 p ps out)
  have "belongs k p \<longleftrightarrow> k = NamespacedName (pod_Namespace p) (go_index (pod_Labels p) LabelRemoteAppInstance)"
    by (cases k) (auto simp: belongs_def)
  with 2 assms show ?case
    by (cases "go_index (pod_Labels p) LabelRemoteAppInstance = ''''")
      (auto simp: Let_def pods_of_def split: option.splits)
qed simp

lemma pods_of_group: "nn_name k \<noteq> '''' \<Longrightarrow> pods_of (groupTunnelPods pods) k = filter (belongs k) pods"
  by (simp add: groupTunnelPods_def groupTunnelPods_loop_get) (simp add: pods_of_def)

lemma pods_of_group_perm:
  "mset pods = mset pods' \<Longrightarrow> nn_name k \<noteq> '''' \<Longrightarrow>
   mset (pods_of (groupTunnelPods pods) k) = mset (pods_of (groupTunnelPods pods') k)"
  by (simp add: pods_of_group)

definition app_target :: "verify_config \<Rightarrow> remote_app \<Rightarrow> probe_target" where
  "app_target cfg cr =
     (let fqdn = serviceFQDN (ra_Namespace cr) (ra_Name cr) (vc_ClusterDomain cfg) in
      \<lparr>pt_addr = join_host_port fqdn (itoa (vc_TLSPort cfg)), pt_serverName = fqdn,
       pt_path = (if vc_UpstreamProbe cfg then probePath cr else ''''),
       pt_upstreamTimeout = vc_UpstreamTimeout cfg\<rparr>)"

lemma mk_target_simps [simp]:
  "tg_key (mk_target v env cfg store m i cr) = ra_key cr"
  "tg_ready (mk_target v env cfg store m i cr) = pods_ready (pods_of m (ra_key cr))"
  "tg_probe (mk_target v env cfg store m i cr) = app_target cfg cr"
  "tg_previous (mk_target v env cfg store m i cr) = Result store (ra_key cr)"
  by (simp_all add: mk_target_def summarizeStatus_eq app_target_def Let_def)

definition live_apps :: "remote_app list \<Rightarrow> remote_app list" where
  "live_apps apps = filter (\<lambda>cr. ra_DeletionTimestamp cr = None) apps"

text \<open>What a target depends on besides its start time.\<close>

definition target_core :: "target \<Rightarrow> namespaced_name \<times> bool \<times> probe_target \<times> verification option" where
  "target_core t = (tg_key t, tg_ready t, tg_probe t, tg_previous t)"

definition app_core ::
  "verify_config \<Rightarrow> verification_store \<Rightarrow> (namespaced_name, pod list) go_map \<Rightarrow> remote_app \<Rightarrow>
   namespaced_name \<times> bool \<times> probe_target \<times> verification option" where
  "app_core cfg store m cr =
     (ra_key cr, pods_ready (pods_of m (ra_key cr)), app_target cfg cr, Result store (ra_key cr))"

lemma mk_targets_core:
  "map target_core (mk_targets v env cfg store m i apps) = map (app_core cfg store m) (live_apps apps)"
  by (induction v env cfg store m i apps rule: mk_targets.induct)
    (auto simp: live_apps_def target_core_def app_core_def)

interpretation at_order: key_order "\<lambda>a b. tg_at a < tg_at b" tg_at
  by unfold_locales simp

interpretation changed_order: key_order key_less id
  by unfold_locales (auto simp: key_less_def less_namespaced_name_def)

lemma sort_targets_sorted: "sorted (map tg_at (sort_targets ts))"
  unfolding sort_targets_def by (rule at_order.sorted_result)

lemma mset_sort_targets [simp]: "mset (sort_targets ts) = mset ts"
  by (simp add: sort_targets_def)

lemma set_sort_targets [simp]: "set (sort_targets ts) = set ts"
  by (simp add: sort_targets_def)

lemma mk_targets_at:
  assumes "t \<in> set (mk_targets v env cfg store m i apps)" and "tv_jitter v = None"
    and "\<And>n bound. 0 < bound \<Longrightarrow> 0 \<le> re_rand_N env n bound \<and> re_rand_N env n bound < bound"
    and "0 \<le> vc_Jitter cfg"
  shows "re_roundStart env \<le> tg_at t \<and> tg_at t \<le> re_roundStart env + vc_Jitter cfg"
  using assms(1)
proof (induction apps arbitrary: i)
  case (Cons cr crs)
  have "re_roundStart env \<le> tg_at (mk_target v env cfg store m i cr) \<and>
      tg_at (mk_target v env cfg store m i cr) \<le> re_roundStart env + vc_Jitter cfg"
    using assms(2,4) assms(3) [of "vc_Jitter cfg" i]
    by (auto simp: mk_target_def jitterDelay_def Let_def)
  with Cons show ?case by (auto split: if_splits)
qed simp


section \<open>Lemmas: publishing\<close>

lemma fold_observe:
  "fold observe xs (observed, changed) =
     (maps_copy observed (map (\<lambda>(t, r). (tg_key t, r)) xs),
      changed @ map (tg_key \<circ> fst) (filter (\<lambda>(t, r). tg_previous t \<noteq> Some r) xs))"
  by (induction xs arbitrary: observed changed) (auto simp: observe_def maps_copy_def)

lemma fold_enqueue:
  "fold enqueue ks (Some c) =
     Some (c\<lparr>ch_queue := ch_queue c @ take (ch_cap c - length (ch_queue c)) ks\<rparr>)"
proof (induction ks arbitrary: c)
  case (Cons k ks)
  show ?case
  proof (cases "length (ch_queue c) < ch_cap c")
    case True
    then have "ch_cap c - length (ch_queue c) = Suc (ch_cap c - Suc (length (ch_queue c)))" by simp
    with True Cons show ?thesis by (simp add: enqueue_def)
  qed (use Cons in \<open>simp add: enqueue_def\<close>)
qed simp

lemma fold_enqueue_None [simp]: "fold enqueue ks None = None"
  by (induction ks) (simp_all add: enqueue_def)

lemma enqueue_bounded:
  "length (ch_queue c) \<le> ch_cap c \<Longrightarrow> fold enqueue ks (Some c) = Some c' \<Longrightarrow>
   ch_cap c' = ch_cap c \<and> length (ch_queue c') \<le> ch_cap c' \<and> take (length (ch_queue c)) (ch_queue c') = ch_queue c"
  by (auto simp: fold_enqueue)

text \<open>The outcome a round assigns to a RemoteApp.\<close>

definition app_outcome ::
  "'roots tls_verifier \<Rightarrow> 'roots round_env \<Rightarrow> verify_config \<Rightarrow> 'roots \<Rightarrow> pod list \<Rightarrow> remote_app \<Rightarrow>
   verification" where
  "app_outcome v env cfg roots pods cr =
     (if pods_ready (pods_of (groupTunnelPods pods) (ra_key cr))
      then prober v (re_network env) (app_target cfg cr) roots
      else \<lparr>v_Result = ResultNotReady, v_Detail = '''',
            v_ServerName = serviceFQDN (ra_Namespace cr) (ra_Name cr) (vc_ClusterDomain cfg),
            v_Upstream = notProbed\<rparr>)"

definition core_outcome ::
  "(probe_target \<Rightarrow> 'roots \<Rightarrow> verification) \<Rightarrow> 'roots \<Rightarrow>
   namespaced_name \<times> bool \<times> probe_target \<times> verification option \<Rightarrow> verification" where
  "core_outcome probe roots = (\<lambda>(_, ready, p, _).
     if \<not> ready then \<lparr>v_Result = ResultNotReady, v_Detail = '''', v_ServerName = pt_serverName p,
                      v_Upstream = notProbed\<rparr>
     else probe p roots)"

lemma target_outcome_core: "target_outcome probe roots t = core_outcome probe roots (target_core t)"
  by (simp add: target_outcome_def core_outcome_def target_core_def)

lemma core_outcome_app:
  "core_outcome (prober v (re_network env)) roots (app_core cfg store (groupTunnelPods pods) cr) =
     app_outcome v env cfg roots pods cr"
  by (simp add: core_outcome_def app_core_def app_outcome_def app_target_def Let_def)

definition round_targets ::
  "'roots tls_verifier \<Rightarrow> 'roots round_env \<Rightarrow> verify_config \<Rightarrow> verification_store \<Rightarrow> pod list \<Rightarrow>
   remote_app list \<Rightarrow> target list" where
  "round_targets v env cfg store pods apps =
     sort_targets (mk_targets v env cfg store (groupTunnelPods pods) 0 apps)"

lemma mset_round_targets:
  "image_mset target_core (mset (round_targets v env cfg store pods apps)) =
     image_mset (app_core cfg store (groupTunnelPods pods)) (mset (live_apps apps))"
  unfolding round_targets_def mset_sort_targets
  by (metis mk_targets_core mset_map)

definition observed_list ::
  "'roots tls_verifier \<Rightarrow> 'roots round_env \<Rightarrow> verify_config \<Rightarrow> verification_store \<Rightarrow> 'roots \<Rightarrow>
   pod list \<Rightarrow> remote_app list \<Rightarrow> (namespaced_name \<times> verification) list" where
  "observed_list v env cfg store roots pods apps =
     map (\<lambda>t. (tg_key t, target_outcome (prober v (re_network env)) roots t))
       (round_targets v env cfg store pods apps)"

lemma mset_observed_list:
  "mset (observed_list v env cfg store roots pods apps) =
     image_mset (\<lambda>cr. (ra_key cr, app_outcome v env cfg roots pods cr)) (mset (live_apps apps))"
proof -
  let ?g = "\<lambda>c. (fst c, core_outcome (prober v (re_network env)) roots c)"
  have "mset (observed_list v env cfg store roots pods apps) =
      image_mset ?g (image_mset target_core (mset (round_targets v env cfg store pods apps)))"
    by (simp add: observed_list_def target_outcome_core image_mset.compositionality comp_def target_core_def)
  also have "\<dots> = image_mset ?g (image_mset (app_core cfg store (groupTunnelPods pods)) (mset (live_apps apps)))"
    by (simp only: mset_round_targets)
  also have "\<dots> = image_mset (\<lambda>cr. (ra_key cr, app_outcome v env cfg roots pods cr)) (mset (live_apps apps))"
    by (simp add: image_mset.compositionality comp_def core_outcome_app) (simp add: app_core_def)
  finally show ?thesis .
qed

lemma find_SomeD: "find P xs = Some x \<Longrightarrow> x \<in> set xs \<and> P x"
  by (induction xs) (auto split: if_splits)

lemma find_key_unique: "distinct (map key xs) \<Longrightarrow> x \<in> set xs \<Longrightarrow> find (\<lambda>y. key y = key x) xs = Some x"
  by (induction xs) (auto simp: image_iff)

lemma map_of_key_find:
  "map_of (map (\<lambda>x. (key x, f x)) xs) k = map_option f (find (\<lambda>x. key x = k) xs)"
  by (induction xs) auto

lemma observed_get:
  assumes "distinct (map ra_key apps)"
  shows "distinct (map fst (observed_list v env cfg store roots pods apps)) \<and>
    go_get (observed_list v env cfg store roots pods apps) k =
      map_option (app_outcome v env cfg roots pods) (find (\<lambda>cr. ra_key cr = k) (live_apps apps))"
proof -
  let ?ys = "map (\<lambda>cr. (ra_key cr, app_outcome v env cfg roots pods cr)) (live_apps apps)"
  let ?xs = "observed_list v env cfg store roots pods apps"
  have eq: "mset ?xs = mset ?ys" by (simp add: mset_observed_list)
  have dys: "distinct (map fst ?ys)"
    using assms by (simp add: live_apps_def comp_def distinct_map_filter)
  have "mset (map fst ?xs) = mset (map fst ?ys)" using eq by (metis mset_map)
  then have dxs: "distinct (map fst ?xs)" using dys by (metis mset_eq_imp_distinct_iff)
  have "map_of ?xs = map_of ?ys"
    using dxs dys eq by (metis map_of_inject_set mset_eq_setD)
  then show ?thesis using dxs by (simp add: map_of_key_find)
qed

lemma publish_eq:
  assumes "results = map f targets"
  shows "publish targets results now store events =
    (Replace store (maps_copy [] (map (\<lambda>t. (tg_key t, f t)) targets)) now,
     fold enqueue (slice_stable key_less
       (map tg_key (filter (\<lambda>t. tg_previous t \<noteq> Some (f t)) targets))) events)"
proof -
  have zip: "zip targets results = map (\<lambda>t. (t, f t)) targets"
    by (simp add: assms zip_map2 zip_same_conv_map)
  show ?thesis
    by (simp add: publish_def fold_observe zip filter_map comp_def)
qed

text \<open>The keys whose outcome changed, in the order they are enqueued.\<close>

definition changed_keys ::
  "'roots tls_verifier \<Rightarrow> 'roots round_env \<Rightarrow> verify_config \<Rightarrow> verification_store \<Rightarrow> 'roots \<Rightarrow>
   pod list \<Rightarrow> remote_app list \<Rightarrow> namespaced_name list" where
  "changed_keys v env cfg store roots pods apps =
     sort (map ra_key (filter
       (\<lambda>cr. Result store (ra_key cr) \<noteq> Some (app_outcome v env cfg roots pods cr)) (live_apps apps)))"

lemma changed_keys_eq:
  "slice_stable key_less
     (map tg_key (filter (\<lambda>t. tg_previous t \<noteq> Some (target_outcome (prober v (re_network env)) roots t))
        (round_targets v env cfg store pods apps))) =
   changed_keys v env cfg store roots pods apps"
proof -
  let ?P = "\<lambda>c. snd (snd (snd c)) \<noteq> Some (core_outcome (prober v (re_network env)) roots c)"
  let ?ts = "round_targets v env cfg store pods apps"
  have "mset (map tg_key (filter (\<lambda>t. tg_previous t \<noteq> Some (target_outcome (prober v (re_network env)) roots t)) ?ts)) =
      image_mset fst (filter_mset ?P (image_mset target_core (mset ?ts)))"
    by (simp add: filter_mset_image_mset target_outcome_core image_mset.compositionality comp_def)
      (simp add: target_core_def)
  also have "\<dots> = image_mset fst (filter_mset ?P
      (image_mset (app_core cfg store (groupTunnelPods pods)) (mset (live_apps apps))))"
    by (simp only: mset_round_targets)
  also have "\<dots> = mset (map ra_key (filter
       (\<lambda>cr. Result store (ra_key cr) \<noteq> Some (app_outcome v env cfg roots pods cr)) (live_apps apps)))"
    by (simp add: filter_mset_image_mset core_outcome_app image_mset.compositionality comp_def)
      (simp add: app_core_def)
  finally show ?thesis
    unfolding changed_keys_def changed_order.sort_eq [symmetric, unfolded id_def]
    by (intro changed_order.order_independent) (simp_all add: changed_order.sort_eq id_def)
qed

lemma RunOnce_ok:
  assumes "loadTrustBundle (re_readFile env) (re_appendCerts env) (vc_TrustBundleFile (withDefaults cfg)) = Inr roots"
    and "re_listRemoteApps env = Inr apps" and "re_listPods env = Inr pods" and "re_ctxErr env = None"
  shows "RunOnce v env cfg store events =
    (Replace store (maps_copy [] (observed_list v env (withDefaults cfg) store roots pods apps))
       (re_replaceNow env),
     fold enqueue (changed_keys v env (withDefaults cfg) store roots pods apps) events, None)"
  using assms
  by (simp add: RunOnce_def Let_def round_targets_def [symmetric] publish_eq [OF refl] changed_keys_eq
      observed_list_def)

lemma RunOnce_Result:
  assumes "loadTrustBundle (re_readFile env) (re_appendCerts env) (vc_TrustBundleFile (withDefaults cfg)) = Inr roots"
    and "re_listRemoteApps env = Inr apps" and "re_listPods env = Inr pods" and "re_ctxErr env = None"
    and "distinct (map ra_key apps)"
  shows "Result (fst (RunOnce v env cfg store events)) k =
    map_option (app_outcome v env (withDefaults cfg) roots pods) (find (\<lambda>cr. ra_key cr = k) (live_apps apps))"
  using observed_get [OF assms(5), of v env "withDefaults cfg" store roots pods k]
  by (simp add: RunOnce_ok [OF assms(1-4)] Result_Replace maps_copy_get split: option.split)

lemma RunOnce_Result_live:
  assumes "loadTrustBundle (re_readFile env) (re_appendCerts env) (vc_TrustBundleFile (withDefaults cfg)) = Inr roots"
    and "re_listRemoteApps env = Inr apps" and "re_listPods env = Inr pods" and "re_ctxErr env = None"
    and "distinct (map ra_key apps)" and "cr \<in> set (live_apps apps)"
  shows "Result (fst (RunOnce v env cfg store events)) (ra_key cr) =
    Some (app_outcome v env (withDefaults cfg) roots pods cr)"
proof -
  have "distinct (map ra_key (live_apps apps))"
    using assms(5) by (simp add: live_apps_def distinct_map_filter)
  from find_key_unique [OF this assms(6)] show ?thesis by (simp add: RunOnce_Result [OF assms(1-5)])
qed

lemma set_changed_keys:
  assumes "loadTrustBundle (re_readFile env) (re_appendCerts env) (vc_TrustBundleFile (withDefaults cfg)) = Inr roots"
    and "re_listRemoteApps env = Inr apps" and "re_listPods env = Inr pods" and "re_ctxErr env = None"
    and "distinct (map ra_key apps)"
  shows "set (changed_keys v env (withDefaults cfg) store roots pods apps) =
    {ra_key cr | cr. cr \<in> set apps \<and> ra_DeletionTimestamp cr = None \<and>
       Result (fst (RunOnce v env cfg store events)) (ra_key cr) \<noteq> Result store (ra_key cr)}"
  using RunOnce_Result_live [OF assms, of _ v store events]
  by (auto simp: changed_keys_def live_apps_def)

lemma length_changed_keys: "length (changed_keys v env cfg store roots pods apps) \<le> length apps"
  by (simp add: changed_keys_def live_apps_def)

lemma RunOnce_failed:
  assumes "snd (snd (RunOnce v env cfg store events)) = Some err"
  shows "fst (snd (RunOnce v env cfg store events)) = events \<and>
    (fst (RunOnce v env cfg store events) = store \<or>
     fst (RunOnce v env cfg store events) = SetBundleUnavailable store)"
  using assms by (auto simp: RunOnce_def Let_def split: sum.splits option.splits prod.splits)

lemma RunOnce_is_round:
  "fst (RunOnce v env cfg store events) = store \<or>
   (\<exists>r. fst (RunOnce v env cfg store events) = apply_round (re_replaceNow env) r store)"
proof -
  have "\<exists>r. SetBundleUnavailable store = apply_round t r store" for t
    by (rule exI [of _ BundleUnavailable]) (simp add: apply_round_def)
  moreover have "\<exists>r. Replace store results t = apply_round t r store" for results t
    by (rule exI [of _ "Outcomes results"]) (simp add: apply_round_def)
  ultimately show ?thesis
    by (auto simp: RunOnce_def publish_def Let_def split: sum.split option.split prod.split)
qed

text \<open>The stores of a running process are those of \<open>store_history\<close>.\<close>

lemma start_loop_history:
  assumes "store_history e u now store" and "sorted (now # map re_replaceNow envs)"
  shows "\<exists>now'. store_history e u now' (fst (start_loop v cfg envs store events))"
  using assms
proof (induction envs arbitrary: now store events)
  case (Cons env envs)
  obtain store' events' err where run: "RunOnce v env cfg store events = (store', events', err)"
    by (cases "RunOnce v env cfg store events")
  have le: "now \<le> re_replaceNow env" and sorted: "sorted (re_replaceNow env # map re_replaceNow envs)"
    using Cons.prems(2) by auto
  obtain now' where hist: "store_history e u now' store'" and le': "now' \<le> re_replaceNow env"
    using RunOnce_is_round [of v env cfg store events] Cons.prems(1) le
    by (auto simp: run intro: store_history.round)
  have "sorted (now' # map re_replaceNow envs)" using sorted le' by (auto intro: order_trans)
  from Cons.IH [OF hist this, of events'] hist show ?case by (auto simp: run)
qed auto


section \<open>Lemmas: the worker pool\<close>

inductive_cases pool_stepE: "pool_step outcome targets s s'"

definition pool_inv :: "(target \<Rightarrow> verification) \<Rightarrow> target list \<Rightarrow> nat \<Rightarrow> pool \<Rightarrow> bool" where
  "pool_inv outcome targets n s \<longleftrightarrow>
     length (po_workers s) = n \<and> length (po_results s) = length targets \<and>
     po_next s \<le> length targets \<and>
     (\<forall>i. Busy i \<in> set (po_workers s) \<longrightarrow> i < po_next s) \<and>
     (\<forall>i < po_next s. po_results s ! i = Some (outcome (targets ! i)) \<or> Busy i \<in> set (po_workers s)) \<and>
     (po_closed s \<longrightarrow> po_next s = length targets) \<and>
     (Finished \<in> set (po_workers s) \<longrightarrow> po_closed s)"

lemma Busy_update:
  assumes "w < length ws" and "ws ! w \<noteq> Busy i"
  shows "Busy i \<in> set (ws[w := x]) \<longleftrightarrow> x = Busy i \<or> Busy i \<in> set ws"
  using assms by (auto simp: set_update_distinct in_set_conv_nth nth_list_update)

lemma pool_inv_init:
  "pool_inv outcome targets (nat (min c (int (length targets)))) (pool_init c targets)"
  by (auto simp: pool_inv_def pool_init_def)

lemma pool_inv_step:
  assumes "pool_inv outcome targets n s" and "pool_step outcome targets s s'"
  shows "pool_inv outcome targets n s'"
  using assms(2)
proof cases
  case (send w)
  have "Busy i \<in> set (po_workers s') \<longleftrightarrow> i = po_next s \<or> Busy i \<in> set (po_workers s)" for i
    using send Busy_update [of w "po_workers s" i "Busy (po_next s)"] by auto
  moreover have "Finished \<in> set (po_workers s') \<Longrightarrow> Finished \<in> set (po_workers s)"
    using send by (auto dest: set_update_subset_insert [THEN subsetD])
  moreover have "po_results s' = po_results s" "po_closed s' = po_closed s"
    "po_next s' = Suc (po_next s)" "length (po_workers s') = length (po_workers s)"
    using send(1) by simp_all
  ultimately show ?thesis
    using assms(1) send(2) unfolding pool_inv_def
    by (intro conjI allI impI) (auto simp: less_Suc_eq)
next
  case (store w i)
  have mem: "Busy i \<in> set (po_workers s)" using store by (metis nth_mem)
  have other: "Busy j \<in> set (po_workers s')" if "Busy j \<in> set (po_workers s)" "j \<noteq> i" for j
    using that store Busy_update [of w "po_workers s" j Idle] by auto
  have sub: "Busy j \<in> set (po_workers s') \<Longrightarrow> Busy j \<in> set (po_workers s)"
    "Finished \<in> set (po_workers s') \<Longrightarrow> Finished \<in> set (po_workers s)" for j
    using store by (auto dest: set_update_subset_insert [THEN subsetD])
  have "i < length (po_results s)" using assms(1) mem by (auto simp: pool_inv_def)
  then show ?thesis
    using assms(1) store other sub unfolding pool_inv_def
    by (auto simp: nth_list_update)
next
  case close
  then show ?thesis using assms(1) by (auto simp: pool_inv_def)
next
  case (leave w)
  have "Busy j \<in> set (po_workers s') \<longleftrightarrow> Busy j \<in> set (po_workers s)" for j
    using leave Busy_update [of w "po_workers s" j Finished] by auto
  then show ?thesis using assms(1) leave by (auto simp: pool_inv_def)
qed

lemma pool_inv_reachable:
  "(pool_step outcome targets)\<^sup>*\<^sup>* s s' \<Longrightarrow> pool_inv outcome targets n s \<Longrightarrow> pool_inv outcome targets n s'"
  by (induction rule: rtranclp_induct) (auto intro: pool_inv_step)

lemma pool_done_results:
  assumes "pool_inv outcome targets n s" and "pool_done s"
  shows "po_results s = map (Some \<circ> outcome) targets"
  using assms by (auto simp: pool_inv_def pool_done_def intro!: nth_equalityI)

lemma pool_progress:
  assumes inv: "pool_inv outcome targets n s" and n: "targets \<noteq> [] \<longrightarrow> 0 < n"
    and "\<not> pool_done s"
  shows "\<exists>s'. pool_step outcome targets s s'"
proof (cases "\<exists>i. Busy i \<in> set (po_workers s)")
  case True
  then show ?thesis by (metis in_set_conv_nth pool_step.store)
next
  case idle: False
  consider (more) "po_next s < length targets" | (end_open) "po_next s = length targets" "\<not> po_closed s"
    | (closed) "po_closed s" using inv by (fastforce simp: pool_inv_def)
  then show ?thesis
  proof cases
    case more
    then have "0 < length (po_workers s)" "Finished \<notin> set (po_workers s)"
      using inv n by (auto simp: pool_inv_def)
    moreover from this have "po_workers s ! 0 = Idle"
      using idle by (metis nth_mem worker.exhaust)
    ultimately show ?thesis using more by (blast intro: pool_step.send)
  next
    case end_open
    then show ?thesis by (blast intro: pool_step.close)
  next
    case closed
    then obtain x where "x \<in> set (po_workers s)" "x \<noteq> Finished"
      using assms(3) by (auto simp: pool_done_def)
    moreover from this have "x = Idle" using idle by (metis worker.exhaust)
    ultimately show ?thesis using closed by (metis in_set_conv_nth pool_step.leave)
  qed
qed

fun worker_work :: "worker \<Rightarrow> nat" where
  "worker_work Idle = 1"
| "worker_work (Busy _) = 2"
| "worker_work Finished = 0"

definition pool_work :: "target list \<Rightarrow> pool \<Rightarrow> nat" where
  "pool_work targets s =
     3 * (length targets - po_next s) + (if po_closed s then 0 else 1) +
     sum_list (map worker_work (po_workers s))"

lemma sum_work_update:
  "w < length ws \<Longrightarrow>
     sum_list (map worker_work (ws[w := x])) + worker_work (ws ! w) =
     sum_list (map worker_work ws) + worker_work x"
proof (induction ws arbitrary: w)
  case (Cons a ws)
  then show ?case by (cases w) auto
qed simp

lemma pool_work_step:
  "pool_step outcome targets s s' \<Longrightarrow> pool_work targets s' < pool_work targets s"
proof (erule pool_step.cases, goal_cases)
  case (1 s w)
  then show ?case
    using sum_work_update [of w "po_workers s" "Busy (po_next s)"] by (simp add: pool_work_def)
next
  case (2 w s i)
  then show ?case
    using sum_work_update [of w "po_workers s" Idle] by (simp add: pool_work_def)
next
  case (3 s)
  then show ?case by (simp add: pool_work_def)
next
  case (4 s w)
  then show ?case
    using sum_work_update [of w "po_workers s" Finished] by (simp add: pool_work_def)
qed

definition in_flight :: "pool \<Rightarrow> nat" where
  "in_flight s = length (filter (\<lambda>w. case w of Busy _ \<Rightarrow> True | _ \<Rightarrow> False) (po_workers s))"

lemma in_flight_le: "in_flight s \<le> length (po_workers s)"
  by (simp add: in_flight_def)

lemma pool_reachable:
  assumes "0 < concurrency"
    and "(pool_step outcome targets)\<^sup>*\<^sup>* (pool_init concurrency targets) s"
  shows "pool_done s \<Longrightarrow> po_results s = map (Some \<circ> outcome) targets"
    "\<not> pool_done s \<Longrightarrow> \<exists>s'. pool_step outcome targets s s'"
    "int (in_flight s) \<le> concurrency"
proof -
  let ?n = "nat (min concurrency (int (length targets)))"
  have inv: "pool_inv outcome targets ?n s"
    by (rule pool_inv_reachable [OF assms(2) pool_inv_init])
  have "targets \<noteq> [] \<longrightarrow> 0 < ?n" using assms(1) by auto
  then show "\<not> pool_done s \<Longrightarrow> \<exists>s'. pool_step outcome targets s s'"
    by (rule pool_progress [OF inv])
  show "pool_done s \<Longrightarrow> po_results s = map (Some \<circ> outcome) targets"
    by (rule pool_done_results [OF inv])
  show "int (in_flight s) \<le> concurrency"
    using in_flight_le [of s] inv assms(1) by (auto simp: pool_inv_def)
qed

lemma pool_work_steps:
  "(pool_step outcome targets ^^ n) s s' \<Longrightarrow> n + pool_work targets s' \<le> pool_work targets s"
proof (induction n arbitrary: s')
  case (Suc n)
  then obtain t where "(pool_step outcome targets ^^ n) s t" "pool_step outcome targets t s'" by auto
  with Suc.IH [of t] pool_work_step show ?case by fastforce
qed simp

lemma pool_finishes:
  assumes "0 < concurrency"
    and "(pool_step outcome targets)\<^sup>*\<^sup>* (pool_init concurrency targets) s"
  shows "\<exists>s'. (pool_step outcome targets)\<^sup>*\<^sup>* s s' \<and> pool_done s' \<and>
    po_results s' = map (Some \<circ> outcome) targets"
  using assms(2)
proof (induction "pool_work targets s" arbitrary: s rule: less_induct)
  case less
  show ?case
  proof (cases "pool_done s")
    case True
    then show ?thesis using pool_reachable(1) [OF assms(1) less.prems] by blast
  next
    case False
    then obtain t where step: "pool_step outcome targets s t"
      using pool_reachable(2) [OF assms(1) less.prems] by blast
    with less.prems have "(pool_step outcome targets)\<^sup>*\<^sup>* (pool_init concurrency targets) t" by simp
    from less.hyps [OF pool_work_step [OF step] this] step show ?thesis
      by (meson converse_rtranclp_into_rtranclp)
  qed
qed

text \<open>A target that is due is never behind one that a worker sleeps on.\<close>

lemma due_handed_out:
  assumes "sorted (map tg_at targets)" and "pool_inv outcome targets n s"
    and "Busy i \<in> set (po_workers s)" and "now < tg_at (targets ! i)"
    and "j < length targets" and "tg_at (targets ! j) \<le> now"
  shows "j < po_next s"
proof (rule ccontr)
  assume "\<not> j < po_next s"
  then have "i \<le> j" using assms(2,3) by (auto simp: pool_inv_def)
  then have "tg_at (targets ! i) \<le> tg_at (targets ! j)"
    using sorted_nth_mono [OF assms(1), of i j] assms(5) by simp
  with assms(4,6) show False by simp
qed


section \<open>Properties\<close>

text \<open>C9. The worker pool never gets stuck and computes the right array, whatever the
  interleaving, with a positive concurrency: a state it can reach and in which the wait
  group is done holds, at every index, the outcome of that target; a state that is not done
  has a next step (no deadlock); and never more than the configured number of probes is in
  flight.\<close>

theorem pool_correct:
  assumes "0 < concurrency"
    and "(pool_step outcome targets)\<^sup>*\<^sup>* (pool_init concurrency targets) s"
  shows "(pool_done s \<longrightarrow> po_results s = map (Some \<circ> outcome) targets) \<and>
    (\<not> pool_done s \<longrightarrow> (\<exists>s'. pool_step outcome targets s s')) \<and>
    int (in_flight s) \<le> concurrency"
  using pool_reachable [OF assms] by blast

text \<open>C10. Every execution of the worker pool ends: no execution takes more than
  \<open>4 * length targets + 1\<close> steps, and with a positive concurrency every state it can reach
  leads to one in which the wait group is done.\<close>

theorem pool_terminates:
  assumes "0 < concurrency"
  shows "((pool_step outcome targets ^^ n) (pool_init concurrency targets) s \<longrightarrow>
      n \<le> 4 * length targets + 1) \<and>
    ((pool_step outcome targets)\<^sup>*\<^sup>* (pool_init concurrency targets) s \<longrightarrow>
      (\<exists>s'. (pool_step outcome targets)\<^sup>*\<^sup>* s s' \<and> pool_done s' \<and>
         po_results s' = map (Some \<circ> outcome) targets))"
proof (intro conjI impI)
  have "pool_work targets (pool_init concurrency targets) \<le> 4 * length targets + 1"
    by (simp add: pool_work_def pool_init_def sum_list_replicate)
  moreover assume "(pool_step outcome targets ^^ n) (pool_init concurrency targets) s"
  ultimately show "n \<le> 4 * length targets + 1"
    using pool_work_steps by fastforce
next
  assume "(pool_step outcome targets)\<^sup>*\<^sup>* (pool_init concurrency targets) s"
  from pool_finishes [OF assms this]
  show "\<exists>s'. (pool_step outcome targets)\<^sup>*\<^sup>* s s' \<and> pool_done s' \<and>
      po_results s' = map (Some \<circ> outcome) targets" .
qed

text \<open>The round of the examples: one RemoteApp with a Ready pod, and a network that answers.\<close>

definition example_env :: "pod list \<Rightarrow> go_error + int \<Rightarrow> unit round_env" where
  "example_env pods response =
     \<lparr>re_readFile = (\<lambda>_. Inr ''pem''), re_appendCerts = (\<lambda>_. Some ()),
      re_listRemoteApps = Inr [example_cr], re_listPods = Inr pods, re_roundStart = 100,
      re_rand_N = (\<lambda>_ _. 0), re_network = example_net None None response, re_ctxErr = None,
      re_replaceNow = 110\<rparr>"

definition example_config :: verify_config where
  "example_config =
     \<lparr>vc_Enabled = True, vc_Interval = 0, vc_Timeout = 0, vc_Jitter = 0, vc_Concurrency = 0,
      vc_UpstreamProbe = True, vc_UpstreamTimeout = 0, vc_TrustBundleFile = ''/ca.pem'',
      vc_ClusterDomain = '''', vc_TLSPort = 0\<rparr>"

definition example_verifier :: "unit tls_verifier" where
  "example_verifier = \<lparr>tv_Config = example_config, tv_probe = None, tv_jitter = None\<rparr>"

lemma example_bundle [simp]:
  "loadTrustBundle (re_readFile (example_env pods resp)) (re_appendCerts (example_env pods resp))
     (vc_TrustBundleFile (withDefaults example_config)) = Inr ()"
  by (simp add: loadTrustBundle_def example_env_def example_config_def withDefaults_eq Let_def)

lemma example_env_lists [simp]:
  "re_listRemoteApps (example_env pods resp) = Inr [example_cr]"
  "re_listPods (example_env pods resp) = Inr pods"
  "re_ctxErr (example_env pods resp) = None"
  "re_replaceNow (example_env pods resp) = 110"
  by (simp_all add: example_env_def)

definition example_pool :: "nat \<Rightarrow> bool \<Rightarrow> worker \<Rightarrow> verification option \<Rightarrow> pool" where
  "example_pool next closed w r =
     \<lparr>po_next = next, po_closed = closed, po_workers = [w], po_results = [r]\<rparr>"

definition example_tgt :: target where
  "example_tgt = mk_target example_verifier (example_env [] (Inr 200)) example_config
     (NewVerificationStore True True) [] 0 example_cr"

theorem pool_correct_witness:
  "(pool_step (\<lambda>_. example_outcome) [example_tgt])\<^sup>*\<^sup>* (pool_init 8 [example_tgt])
     (example_pool 1 False (Busy 0) None) \<and>
   (\<exists>s'. pool_step (\<lambda>_. example_outcome) [example_tgt] (example_pool 1 False (Busy 0) None) s')"
proof -
  have "pool_step (\<lambda>_. example_outcome) [example_tgt] (pool_init 8 [example_tgt])
      (example_pool 1 False (Busy 0) None)"
    using pool_step.send [of "pool_init 8 [example_tgt]" "[example_tgt]" 0 "\<lambda>_. example_outcome"]
    by (simp add: pool_init_def example_pool_def)
  then have reach: "(pool_step (\<lambda>_. example_outcome) [example_tgt])\<^sup>*\<^sup>* (pool_init 8 [example_tgt])
      (example_pool 1 False (Busy 0) None)" by (rule r_into_rtranclp)
  have "\<not> pool_done (example_pool 1 False (Busy 0) None)"
    by (simp add: pool_done_def example_pool_def)
  with pool_correct [OF _ reach] reach show ?thesis by simp
qed

theorem pool_terminates_witness:
  "\<exists>s'. (pool_step (\<lambda>_. example_outcome) [example_tgt])\<^sup>*\<^sup>* (pool_init 8 [example_tgt]) s' \<and>
    pool_done s' \<and> po_results s' = [Some example_outcome]"
  using pool_terminates [of 8 0 "\<lambda>_. example_outcome" "[example_tgt]" "pool_init 8 [example_tgt]"]
  by simp

text \<open>C11. A round that completes publishes exactly one outcome per RemoteApp that is listed and
  not being deleted, and nothing else: the probe's verdict on the RemoteApp's own service
  name, port and path when one of its live pods is Ready, and \<open>not_ready\<close> with no request
  sent otherwise.\<close>

theorem RunOnce_publishes:
  assumes "loadTrustBundle (re_readFile env) (re_appendCerts env)
      (vc_TrustBundleFile (withDefaults cfg)) = Inr roots"
    and "re_listRemoteApps env = Inr apps" and "re_listPods env = Inr pods" and "re_ctxErr env = None"
    and "distinct (map ra_key apps)" and "list_all (\<lambda>cr. ra_Name cr \<noteq> '''') apps"
  shows "Result (fst (RunOnce v env cfg store events)) k =
    (case find (\<lambda>cr. ra_key cr = k) (filter (\<lambda>cr. ra_DeletionTimestamp cr = None) apps) of
       None \<Rightarrow> None
     | Some cr \<Rightarrow> Some
         (if \<exists>p. p \<in> set pods \<and> belongs k p \<and> pod_DeletionTimestamp p = None \<and> isPodReady p
          then prober v (re_network env) (app_target (withDefaults cfg) cr) roots
          else \<lparr>v_Result = ResultNotReady, v_Detail = '''',
                v_ServerName = serviceFQDN (ra_Namespace cr) (ra_Name cr)
                                 (vc_ClusterDomain (withDefaults cfg)),
                v_Upstream = notProbed\<rparr>))"
proof -
  note obs = observed_get [OF assms(5), of v env "withDefaults cfg" store roots pods k]
  have "app_outcome v env (withDefaults cfg) roots pods cr =
      (if \<exists>p. p \<in> set pods \<and> belongs k p \<and> pod_DeletionTimestamp p = None \<and> isPodReady p
       then prober v (re_network env) (app_target (withDefaults cfg) cr) roots
       else \<lparr>v_Result = ResultNotReady, v_Detail = '''',
             v_ServerName = serviceFQDN (ra_Namespace cr) (ra_Name cr)
                              (vc_ClusterDomain (withDefaults cfg)),
             v_Upstream = notProbed\<rparr>)"
    if "find (\<lambda>cr. ra_key cr = k) (live_apps apps) = Some cr" for cr
  proof -
    have cr: "cr \<in> set apps" "ra_key cr = k"
      using find_SomeD [OF that] by (auto simp: live_apps_def)
    then have "nn_name k \<noteq> ''''" using assms(6) by (auto simp: list_all_iff)
    then have "pods_ready (pods_of (groupTunnelPods pods) (ra_key cr)) \<longleftrightarrow>
        (\<exists>p. p \<in> set pods \<and> belongs k p \<and> pod_DeletionTimestamp p = None \<and> isPodReady p)"
      by (auto simp: cr pods_of_group pods_ready_def)
    then show ?thesis by (simp add: app_outcome_def)
  qed
  with obs show ?thesis
    by (auto simp: RunOnce_ok [OF assms(1-4)] Result_Replace maps_copy_get live_apps_def
        split: option.split)
qed

theorem RunOnce_publishes_witness:
  "Result (fst (RunOnce example_verifier (example_env [] (Inr 200)) example_config
     (NewVerificationStore True True) (Some verification_events))) (ra_key example_cr) =
   Some \<lparr>v_Result = ResultNotReady, v_Detail = '''', v_ServerName = ''kube.mcp.svc.cluster.local'',
         v_Upstream = notProbed\<rparr>"
proof -
  have "vc_ClusterDomain (withDefaults example_config) = ''cluster.local''"
    by (simp add: example_config_def withDefaults_eq Let_def DefaultClusterDomain_def)
  moreover have "ra_Name example_cr = ''kube''" "ra_Namespace example_cr = ''mcp''"
    "ra_DeletionTimestamp example_cr = None" by (simp_all add: example_cr_def)
  ultimately show ?thesis
    using RunOnce_publishes [of "example_env [] (Inr 200)" example_config "()" "[example_cr]" "[]"
        example_verifier "NewVerificationStore True True" "Some verification_events" "ra_key example_cr"]
    by (simp add: serviceFQDN_def)
qed

text \<open>C12. The events of a completed round: exactly the RemoteApps whose outcome differs from
  the one the store held (or had none) are enqueued, each once, ordered by namespace and
  name, behind what was queued, as far as the buffer has room.\<close>

theorem RunOnce_events:
  assumes "loadTrustBundle (re_readFile env) (re_appendCerts env)
      (vc_TrustBundleFile (withDefaults cfg)) = Inr roots"
    and "re_listRemoteApps env = Inr apps" and "re_listPods env = Inr pods" and "re_ctxErr env = None"
    and "distinct (map ra_key apps)"
  shows "\<exists>ks. sorted ks \<and> distinct ks \<and>
    set ks = {ra_key cr | cr. cr \<in> set apps \<and> ra_DeletionTimestamp cr = None \<and>
                Result (fst (RunOnce v env cfg store (Some c))) (ra_key cr) \<noteq> Result store (ra_key cr)} \<and>
    snd (RunOnce v env cfg store (Some c)) =
      (Some (c\<lparr>ch_queue := ch_queue c @ take (ch_cap c - length (ch_queue c)) ks\<rparr>), None)"
proof (intro exI conjI)
  let ?ks = "changed_keys v env (withDefaults cfg) store roots pods apps"
  show "sorted ?ks" by (simp add: changed_keys_def)
  show "distinct ?ks" using assms(5) by (simp add: changed_keys_def live_apps_def distinct_map_filter)
  show "set ?ks = {ra_key cr | cr. cr \<in> set apps \<and> ra_DeletionTimestamp cr = None \<and>
      Result (fst (RunOnce v env cfg store (Some c))) (ra_key cr) \<noteq> Result store (ra_key cr)}"
    by (rule set_changed_keys [OF assms])
  show "snd (RunOnce v env cfg store (Some c)) =
      (Some (c\<lparr>ch_queue := ch_queue c @ take (ch_cap c - length (ch_queue c)) ?ks\<rparr>), None)"
    by (simp add: RunOnce_ok [OF assms(1-4)] fold_enqueue)
qed

theorem RunOnce_events_witness:
  "\<exists>ks. set ks = {ra_key example_cr} \<and>
    snd (RunOnce example_verifier (example_env [] (Inr 200)) example_config
      (NewVerificationStore True True) (Some verification_events)) =
      (Some (verification_events\<lparr>ch_queue := take 256 ks\<rparr>), None)"
proof -
  let ?run = "RunOnce example_verifier (example_env [] (Inr 200)) example_config
    (NewVerificationStore True True) (Some verification_events)"
  have "Result (fst ?run) (ra_key example_cr) \<noteq> None"
    using RunOnce_ok [of "example_env [] (Inr 200)" example_config "()" "[example_cr]" "[]"
        example_verifier "NewVerificationStore True True" "Some verification_events"]
      observed_get [of "[example_cr]" example_verifier "example_env [] (Inr 200)"
        "withDefaults example_config" "NewVerificationStore True True" "()" "[]" "ra_key example_cr"]
    by (simp add: Result_Replace maps_copy_get live_apps_def) (simp add: example_cr_def)
  then show ?thesis
    using RunOnce_events [of "example_env [] (Inr 200)" example_config "()" "[example_cr]" "[]"
        example_verifier "NewVerificationStore True True" verification_events]
    by (fastforce simp: verification_events_def example_cr_def)
qed

text \<open>C22. A round fails exactly when the trust bundle does not load, a list fails or the context
  is cancelled, and then it enqueues no event. A list that fails or a cancelled context leaves
  the store as it was. A trust bundle that does not load drops the outcome of every
  RemoteApp, makes the store report the verification as unavailable, and keeps only the
  history: when each upstream last answered, went down and recovered.\<close>

theorem RunOnce_fails:
  "(snd (snd (RunOnce v env cfg store events)) \<noteq> None \<longleftrightarrow>
      \<not> (\<exists>roots apps pods.
           loadTrustBundle (re_readFile env) (re_appendCerts env)
             (vc_TrustBundleFile (withDefaults cfg)) = Inr roots \<and>
           re_listRemoteApps env = Inr apps \<and> re_listPods env = Inr pods \<and> re_ctxErr env = None)) \<and>
   (snd (snd (RunOnce v env cfg store events)) \<noteq> None \<longrightarrow>
      fst (snd (RunOnce v env cfg store events)) = events \<and>
      fst (RunOnce v env cfg store events) =
        (case loadTrustBundle (re_readFile env) (re_appendCerts env)
                (vc_TrustBundleFile (withDefaults cfg)) of
           Inl _ \<Rightarrow> SetBundleUnavailable store | Inr _ \<Rightarrow> store)) \<and>
   (\<forall>err k. loadTrustBundle (re_readFile env) (re_appendCerts env)
        (vc_TrustBundleFile (withDefaults cfg)) = Inl err \<longrightarrow>
      (let store' = fst (RunOnce v env cfg store events)
       in Result store' k = None \<and> \<not> vs_bundleAvailable store' \<and> vs_probed store' \<and>
          LastUpstreamSuccess store' k = LastUpstreamSuccess store k \<and>
          UpstreamDownSince store' k = UpstreamDownSince store k \<and>
          UpstreamRecoveredAt store' k = UpstreamRecoveredAt store k))"
  by (auto simp: RunOnce_def Let_def SetBundleUnavailable_def Result_def LastUpstreamSuccess_def
      UpstreamDownSince_def UpstreamRecoveredAt_def split: sum.split option.split prod.split)

theorem RunOnce_fails_witness:
  "fst (RunOnce example_verifier ((example_env [] (Inr 200))\<lparr>re_ctxErr := Some (errors_new ''context canceled'')\<rparr>)
     example_config (NewVerificationStore True True) None) = NewVerificationStore True True"
  using RunOnce_fails [of example_verifier
      "(example_env [] (Inr 200))\<lparr>re_ctxErr := Some (errors_new ''context canceled'')\<rparr>"
      example_config "NewVerificationStore True True" None]
    example_bundle [of "[]" "Inr 200"] by simp

text \<open>C28. A worker never sleeps past a target that is due: while a worker sleeps before the
  start of its target, every target whose start has come has been handed to a worker, which
  is at it or has stored its outcome.\<close>

theorem no_sleep_past_due:
  assumes "targets = sort_targets (mk_targets v env cfg store m i0 apps)"
    and "(pool_step outcome targets)\<^sup>*\<^sup>* (pool_init concurrency targets) s"
    and "w < length (po_workers s)" and "po_workers s ! w = Busy i"
    and "now < sleepUntil ctxDone now (tg_at (targets ! i))"
    and "j < length targets" and "tg_at (targets ! j) \<le> now"
  shows "j < po_next s \<and> (po_results s ! j = Some (outcome (targets ! j)) \<or> Busy j \<in> set (po_workers s))"
proof -
  have inv: "pool_inv outcome targets (nat (min concurrency (int (length targets)))) s"
    by (rule pool_inv_reachable [OF assms(2) pool_inv_init])
  moreover have "now < tg_at (targets ! i)"
    using assms(5) by (auto simp: sleepUntil_def Let_def split: if_splits)
  moreover have "Busy i \<in> set (po_workers s)" using assms(3,4) by (metis nth_mem)
  ultimately have "j < po_next s"
    using assms(6,7) sort_targets_sorted by (intro due_handed_out) (auto simp: assms(1))
  with inv show ?thesis by (auto simp: pool_inv_def)
qed

text \<open>Two RemoteApps, one with a Ready pod and a start 50 later, one without pods.\<close>

definition example_due :: "target list" where
  "example_due = mk_targets (example_verifier\<lparr>tv_jitter := Some (\<lambda>_. 50)\<rparr>) (example_env [] (Inr 200))
     example_config (NewVerificationStore True True)
     [(ra_key example_cr, [example_pod ''a'' True])] 0 [example_cr, example_cr\<lparr>ra_Name := ''idle''\<rparr>]"

lemma example_due_at: "map tg_at example_due = [150, 100]"
proof -
  have "pods_ready [example_pod ''a'' True]" "\<not> pods_ready []"
    by (simp_all add: pods_ready_def example_pod_def isPodReady_def PodReady_def)
  then show ?thesis
    by (simp add: example_due_def example_cr_def mk_target_def Let_def summarizeStatus_eq pods_of_def
        jitterDelay_def example_verifier_def example_env_def)
qed

lemma example_due_sorted: "map tg_at (sort_targets example_due) = [100, 150]"
proof -
  obtain a b where due: "example_due = [a, b]" and at: "tg_at a = 150" "tg_at b = 100"
    using example_due_at by (auto simp: map_eq_Cons_conv)
  show ?thesis unfolding due by (simp add: sort_targets_def slice_stable_def at)
qed

theorem no_sleep_past_due_witness:
  "let s = \<lparr>po_next = 2, po_closed = False, po_workers = [Busy 0, Busy 1], po_results = [None, None]\<rparr>
   in (pool_step (\<lambda>_. example_outcome) (sort_targets example_due))\<^sup>*\<^sup>*
        (pool_init 2 (sort_targets example_due)) s \<and>
      (po_results s ! 0 = Some example_outcome \<or> Busy 0 \<in> set (po_workers s))"
proof -
  let ?ts = "sort_targets example_due" and ?o = "\<lambda>_ :: target. example_outcome"
  let ?s1 = "\<lparr>po_next = 1, po_closed = False, po_workers = [Busy 0, Idle], po_results = [None, None]\<rparr>"
  let ?s = "\<lparr>po_next = 2, po_closed = False, po_workers = [Busy 0, Busy 1], po_results = [None, None]\<rparr>"
  have len: "length ?ts = 2" using arg_cong [OF example_due_sorted, of length] by simp
  have at: "tg_at (?ts ! 0) = 100" "tg_at (?ts ! 1) = 150"
    using arg_cong [OF example_due_sorted, of "\<lambda>l. l ! 0"] arg_cong [OF example_due_sorted, of "\<lambda>l. l ! 1"] len
    by simp_all
  have "pool_step ?o ?ts (pool_init 2 ?ts) ?s1"
    using pool_step.send [of "pool_init 2 ?ts" ?ts 0 ?o] len by (simp add: pool_init_def numeral_2_eq_2)
  moreover have "pool_step ?o ?ts ?s1 ?s"
    using pool_step.send [of ?s1 ?ts 1 ?o] len by (simp add: numeral_2_eq_2)
  ultimately have reach: "(pool_step ?o ?ts)\<^sup>*\<^sup>* (pool_init 2 ?ts) ?s" by simp
  have "po_results ?s ! 0 = Some example_outcome \<or> Busy 0 \<in> set (po_workers ?s)"
    using no_sleep_past_due [OF arg_cong [OF example_due_def, of sort_targets] reach, of 1 1 120 None 0]
      len at by (simp add: sleepUntil_def)
  with reach show ?thesis by simp
qed

text \<open>C29. The schedule of a round: the targets are tried in the order of their start times, and
  with a random source that draws below its bound every start lies between the start of the
  round and half an interval later.\<close>

theorem round_schedule:
  assumes "tv_jitter v = None"
    and "\<forall>n bound. 0 < bound \<longrightarrow> 0 \<le> re_rand_N env n bound \<and> re_rand_N env n bound < bound"
  shows "sorted (map tg_at (sort_targets (mk_targets v env (withDefaults cfg) store m i apps))) \<and>
    list_all (\<lambda>t. re_roundStart env \<le> tg_at t \<and>
        2 * (tg_at t - re_roundStart env) \<le> vc_Interval (withDefaults cfg))
      (sort_targets (mk_targets v env (withDefaults cfg) store m i apps))"
proof -
  have "0 \<le> vc_Jitter (withDefaults cfg)" "2 * vc_Jitter (withDefaults cfg) \<le> vc_Interval (withDefaults cfg)"
    using withDefaults_resolved [of cfg] by (simp_all add: resolved_def)
  then have "re_roundStart env \<le> tg_at t \<and> 2 * (tg_at t - re_roundStart env) \<le> vc_Interval (withDefaults cfg)"
    if "t \<in> set (mk_targets v env (withDefaults cfg) store m i apps)" for t
    using mk_targets_at [OF that assms(1)] assms(2) by force
  then show ?thesis by (simp add: sort_targets_sorted list_all_iff)
qed

theorem round_schedule_witness:
  "list_all (\<lambda>t. 100 \<le> tg_at t)
     (sort_targets (mk_targets example_verifier (example_env [] (Inr 200)) (withDefaults example_config)
        (NewVerificationStore True True) [] 0 [example_cr]))"
proof -
  have "\<forall>n bound. 0 < bound \<longrightarrow> 0 \<le> re_rand_N (example_env [] (Inr 200)) n bound \<and>
      re_rand_N (example_env [] (Inr 200)) n bound < bound"
    by (simp add: example_env_def)
  moreover have "tv_jitter example_verifier = None" by (simp add: example_verifier_def)
  ultimately show ?thesis
    using round_schedule [of example_verifier "example_env [] (Inr 200)" example_config
        "NewVerificationStore True True" "[]" 0 "[example_cr]"]
    by (simp add: example_env_def list_all_iff)
qed

text \<open>C30. Every store a running verifier can hold is a store of the rounds: from a fresh
  store, whatever the rounds meet and wherever the process is cancelled, the store after
  \<open>Start\<close> is reached by replacing or dropping outcomes at non-decreasing clock readings, so
  the invariants of the store hold of it; with verification disabled it is untouched.\<close>

theorem Start_history:
  assumes "sorted (map re_replaceNow envs)" and "Start v envs (NewVerificationStore e u) events = (s, events')"
  shows "(\<exists>now. store_history e u now s) \<and>
    (\<not> vc_Enabled (tv_Config v) \<longrightarrow> s = NewVerificationStore e u \<and> events' = events)"
proof -
  have "sorted ((case envs of [] \<Rightarrow> 0 | x # _ \<Rightarrow> re_replaceNow x) # map re_replaceNow envs)"
    using assms(1) by (cases envs) auto
  from start_loop_history [OF store_history.created this, of e u v "withDefaults (tv_Config v)" events]
  show ?thesis
    using assms(2) store_history.created [of e u 0]
    by (auto simp: Start_def Let_def split: if_splits)
qed

theorem Start_history_witness:
  "\<exists>now s. s = fst (Start example_verifier [example_env [] (Inr 200)] (NewVerificationStore True True) None) \<and>
     store_history True True now s"
  using Start_history [of "[example_env [] (Inr 200)]" example_verifier True True None
      "fst (Start example_verifier [example_env [] (Inr 200)] (NewVerificationStore True True) None)"
      "snd (Start example_verifier [example_env [] (Inr 200)] (NewVerificationStore True True) None)"]
  by simp

end
