(* ===== verification/Sha256.thy ===== *)
theory Sha256
  imports Prelude "HOL-Library.Word"
begin

unbundle bit_operations_syntax

text \<open>
  \<open>crypto/sha256\<close> and \<open>encoding/hex\<close>, as far as \<open>configHash\<close> uses them: the digest of a
  byte string (FIPS 180-4) on 32-bit words, whose addition wraps, and its lower-case
  hexadecimal form. A string is a list of bytes; its length in bits is below \<open>2 ^ 64\<close>.
\<close>

type_synonym w32 = "32 word"

text \<open>
  The tables, in decimal: the round constants are the first 32 bits of the fractional parts
  of the cube roots of the first 64 primes, the initial digest those of the square roots of
  the first 8, which \<open>sha256_K_roots\<close> and \<open>sha256_init_roots\<close> check.
\<close>

definition sha256_K :: "w32 list" where
  "sha256_K =
     [1116352408, 1899447441, 3049323471, 3921009573, 961987163, 1508970993, 2453635748, 2870763221,
      3624381080, 310598401, 607225278, 1426881987, 1925078388, 2162078206, 2614888103, 3248222580,
      3835390401, 4022224774, 264347078, 604807628, 770255983, 1249150122, 1555081692, 1996064986,
      2554220882, 2821834349, 2952996808, 3210313671, 3336571891, 3584528711, 113926993, 338241895,
      666307205, 773529912, 1294757372, 1396182291, 1695183700, 1986661051, 2177026350, 2456956037,
      2730485921, 2820302411, 3259730800, 3345764771, 3516065817, 3600352804, 4094571909, 275423344,
      430227734, 506948616, 659060556, 883997877, 958139571, 1322822218, 1537002063, 1747873779,
      1955562222, 2024104815, 2227730452, 2361852424, 2428436474, 2756734187, 3204031479, 3329325298]"

definition sha256_init :: "w32 list" where
  "sha256_init =
     [1779033703, 3144134277, 1013904242, 2773480762, 1359893119, 2600822924, 528734635, 1541459225]"

definition first_primes :: "int list" where
  "first_primes =
     [2, 3, 5, 7, 11, 13, 17, 19, 23, 29, 31, 37, 41, 43, 47, 53,
      59, 61, 67, 71, 73, 79, 83, 89, 97, 101, 103, 107, 109, 113, 127, 131,
      137, 139, 149, 151, 157, 163, 167, 173, 179, 181, 191, 193, 197, 199, 211, 223,
      227, 229, 233, 239, 241, 251, 257, 263, 269, 271, 277, 281, 283, 293, 307, 311]"

text \<open>\<open>k\<close> is the 32-bit fraction of the \<open>n\<close>-th root of \<open>p\<close>, whose integer part is \<open>c\<close>.\<close>

definition root_fraction :: "nat \<Rightarrow> int \<Rightarrow> int \<Rightarrow> int \<Rightarrow> bool" where
  "root_fraction n p c k \<longleftrightarrow>
     0 \<le> k \<and> k < 2 ^ 32 \<and> (c * 2 ^ 32 + k) ^ n \<le> p * 2 ^ (32 * n) \<and> p * 2 ^ (32 * n) < (c * 2 ^ 32 + k + 1) ^ n"

definition small_root :: "nat \<Rightarrow> int \<Rightarrow> int" where
  "small_root n p = last (takeWhile (\<lambda>c. c ^ n \<le> p) [1, 2, 3, 4, 5, 6, 7])"

lemma sha256_K_roots:
  "list_all2 (\<lambda>p k. root_fraction 3 p (small_root 3 p) (uint k)) first_primes sha256_K"
  by (simp add: first_primes_def sha256_K_def root_fraction_def small_root_def)

lemma sha256_init_roots:
  "list_all2 (\<lambda>p k. root_fraction 2 p (small_root 2 p) (uint k)) (take 8 first_primes) sha256_init"
  by (simp add: first_primes_def sha256_init_def root_fraction_def small_root_def)

definition rotr :: "nat \<Rightarrow> w32 \<Rightarrow> w32" where
  "rotr n x = drop_bit n x OR push_bit (32 - n) x"

definition sha_Ch :: "w32 \<Rightarrow> w32 \<Rightarrow> w32 \<Rightarrow> w32" where
  "sha_Ch x y z = (x AND y) XOR (NOT x AND z)"

definition sha_Maj :: "w32 \<Rightarrow> w32 \<Rightarrow> w32 \<Rightarrow> w32" where
  "sha_Maj x y z = (x AND y) XOR (x AND z) XOR (y AND z)"

definition sha_S0 :: "w32 \<Rightarrow> w32" where
  "sha_S0 x = rotr 2 x XOR rotr 13 x XOR rotr 22 x"

definition sha_S1 :: "w32 \<Rightarrow> w32" where
  "sha_S1 x = rotr 6 x XOR rotr 11 x XOR rotr 25 x"

definition sha_s0 :: "w32 \<Rightarrow> w32" where
  "sha_s0 x = rotr 7 x XOR rotr 18 x XOR drop_bit 3 x"

definition sha_s1 :: "w32 \<Rightarrow> w32" where
  "sha_s1 x = rotr 17 x XOR rotr 19 x XOR drop_bit 10 x"

text \<open>Padding: a one bit, zeros, and the length in bits as eight big-endian bytes.\<close>

definition be_bytes :: "nat \<Rightarrow> nat \<Rightarrow> nat list" where
  "be_bytes k n = map (\<lambda>i. (n div 256 ^ (k - 1 - i)) mod 256) [0..<k]"

definition sha_pad :: "nat list \<Rightarrow> nat list" where
  "sha_pad msg =
     msg @ [128] @ replicate ((55 + 64 - length msg mod 64) mod 64) 0 @ be_bytes 8 (8 * length msg)"

fun words_of_bytes :: "nat list \<Rightarrow> w32 list" where
  "words_of_bytes (a # b # c # d # rest) =
     of_nat (a * 16777216 + b * 65536 + c * 256 + d) # words_of_bytes rest"
| "words_of_bytes _ = []"

text \<open>The message schedule, kept as the last sixteen words with the newest first.\<close>

fun sha_schedule :: "nat \<Rightarrow> w32 list \<Rightarrow> w32 list \<Rightarrow> w32 list" where
  "sha_schedule 0 window out = rev out"
| "sha_schedule (Suc n) window out =
     (let w = sha_s1 (window ! 1) + window ! 6 + sha_s0 (window ! 14) + window ! 15
      in sha_schedule n (w # butlast window) (w # out))"

fun sha_rounds :: "(w32 \<times> w32) list \<Rightarrow> w32 list \<Rightarrow> w32 list" where
  "sha_rounds ((k, w) # kws) [a, b, c, d, e, f, g, h] =
     (let t1 = h + sha_S1 e + sha_Ch e f g + k + w;
          t2 = sha_S0 a + sha_Maj a b c
      in sha_rounds kws [t1 + t2, a, b, c, d + t1, e, f, g])"
| "sha_rounds _ st = st"

definition sha_block :: "w32 list \<Rightarrow> w32 list \<Rightarrow> w32 list" where
  "sha_block block st =
     (let ws = block @ sha_schedule 48 (rev block) []
      in map2 (+) st (sha_rounds (zip sha256_K ws) st))"

fun sha_blocks :: "nat \<Rightarrow> w32 list \<Rightarrow> w32 list \<Rightarrow> w32 list" where
  "sha_blocks 0 ws st = st"
| "sha_blocks (Suc n) ws st = sha_blocks n (drop 16 ws) (sha_block (take 16 ws) st)"

definition sha256_Sum256 :: "string \<Rightarrow> nat list" where
  "sha256_Sum256 s =
     (let ws = words_of_bytes (sha_pad (map of_char s))
      in concat (map (be_bytes 4 \<circ> unat) (sha_blocks (length ws div 16) ws sha256_init)))"

definition hex_EncodeToString :: "nat list \<Rightarrow> string" where
  "hex_EncodeToString bs = concat (map (\<lambda>b. [hex_digit (int (b div 16)), hex_digit (int (b mod 16))]) bs)"

section \<open>Shape of a digest\<close>

lemma length_words_of_bytes: "length (words_of_bytes bs) = length bs div 4"
  by (induction bs rule: words_of_bytes.induct) auto

lemma length_be_bytes [simp]: "length (be_bytes k n) = k"
  by (simp add: be_bytes_def)

lemma sha_pad_blocks: "length (sha_pad msg) mod 64 = 0"
proof -
  define q r where "q = length msg div 64" and "r = length msg mod 64"
  have n: "length msg = 64 * q + r" "r < 64" by (simp_all add: q_def r_def)
  have "(119 - r) mod 64 = (if r \<le> 55 then 55 - r else 119 - r)"
    using n(2) by (auto simp: mod_if)
  then have "length (sha_pad msg) = 64 * (q + (if r \<le> 55 then 1 else 2))"
    using n by (simp add: sha_pad_def r_def [symmetric])
  then show ?thesis by simp
qed

lemma length_sha_rounds: "length st = 8 \<Longrightarrow> length (sha_rounds kws st) = 8"
  by (induction kws st rule: sha_rounds.induct) (auto simp: Let_def)

lemma length_sha_block: "length st = 8 \<Longrightarrow> length (sha_block block st) = 8"
  by (simp add: sha_block_def Let_def length_sha_rounds)

lemma length_sha_blocks: "length st = 8 \<Longrightarrow> length (sha_blocks n ws st) = 8"
  by (induction n ws st rule: sha_blocks.induct) (auto simp: length_sha_block)

lemma length_Sum256: "length (sha256_Sum256 s) = 32"
proof -
  have "length (concat (map (be_bytes 4 \<circ> unat) xs)) = 4 * length xs" for xs :: "w32 list"
    by (induction xs) auto
  then show ?thesis
    by (simp add: sha256_Sum256_def Let_def length_sha_blocks sha256_init_def)
qed

lemma length_hex: "length (hex_EncodeToString bs) = 2 * length bs"
  by (induction bs) (auto simp: hex_EncodeToString_def)

end
