(* ===== verification/Render.thy ===== *)
theory Render
  imports Api Sha256 "HOL-Library.Monad_Syntax"
begin

text \<open>
  \<open>render.go\<close> and \<open>tbot_config.go\<close>: from a RemoteApp and the operator's defaults to the five
  owned objects.

  The objects are records with the fields the operator writes; a field it leaves out is
  absent from the record or \<open>None\<close>. \<open>yaml.Marshal\<close> and \<open>resource.MustParse\<close> are
  parameters (\<open>render_ops\<close>); a result \<open>None\<close> of theirs is the panic of the source, and so is
  \<open>None\<close> of the render functions.

  The lemmas show that the objects of one RemoteApp fit together: selectors and labels,
  mounts and volumes, probes and ports, listen and target ports.
\<close>

section \<open>Kubernetes objects\<close>

record type_meta =
  tm_APIVersion :: string
  tm_Kind :: string

record owner_reference =
  or_APIVersion :: string
  or_Kind :: string
  or_Name :: string
  or_UID :: string
  or_Controller :: bool
  or_BlockOwnerDeletion :: bool

record object_meta =
  om_Name :: string
  om_Namespace :: string
  om_Labels :: "(string, string) go_map"
  om_Annotations :: "(string, string) go_map"
  om_OwnerReferences :: "owner_reference list"

datatype int_or_string = FromInt int | FromString string

datatype probe_handler =
    HTTPGet string int_or_string
  | TCPSocket int_or_string

record k8s_probe =
  kp_Handler :: probe_handler
  kp_InitialDelaySeconds :: int
  kp_PeriodSeconds :: int
  kp_TimeoutSeconds :: int
  kp_FailureThreshold :: int

record security_context =
  sc_AllowPrivilegeEscalation :: "bool option"
  sc_ReadOnlyRootFilesystem :: "bool option"
  sc_RunAsNonRoot :: "bool option"
  sc_CapabilitiesDrop :: "string list"
  sc_SeccompProfile :: "string option"

record container_port =
  cp_Name :: string
  cp_ContainerPort :: int
  cp_Protocol :: string

record volume_mount =
  vm_Name :: string
  vm_MountPath :: string
  vm_ReadOnly :: bool

record container =
  ct_Name :: string
  ct_Image :: string
  ct_Resources :: resource_requirements
  ct_RestartPolicy :: "string option"
  ct_SecurityContext :: security_context
  ct_Command :: "string list"
  ct_Env :: "(string \<times> string) list"
  ct_Args :: "string list"
  ct_Ports :: "container_port list"
  ct_StartupProbe :: "k8s_probe option"
  ct_ReadinessProbe :: "k8s_probe option"
  ct_LivenessProbe :: "k8s_probe option"
  ct_VolumeMounts :: "volume_mount list"

datatype volume_source =
    ConfigMapVolume string
  | ServiceAccountTokenVolume (tok_path: string) (tok_audience: string) (tok_expiration: int)
  | EmptyDirVolume api_value

record volume =
  vol_Name :: string
  vol_Source :: volume_source

record pod_security_context =
  psc_RunAsNonRoot :: bool
  psc_RunAsUser :: int
  psc_SeccompProfile :: string

record pod_template =
  tpl_Labels :: "(string, string) go_map"
  tpl_Annotations :: "(string, string) go_map"
  tpl_ServiceAccountName :: string
  tpl_AutomountServiceAccountToken :: bool
  tpl_NodeSelector :: "(string, string) go_map"
  tpl_Tolerations :: "api_value list"
  tpl_Affinity :: affinity
  tpl_SecurityContext :: pod_security_context
  tpl_Volumes :: "volume list"
  tpl_InitContainers :: "container list"
  tpl_Containers :: "container list"

record deployment_spec =
  ds_Replicas :: int
  ds_Selector :: "(string, string) go_map"
  ds_StrategyType :: string
  ds_MaxSurge :: int_or_string
  ds_MaxUnavailable :: int_or_string
  ds_Template :: pod_template

record service_port =
  sp_Name :: string
  sp_Port :: int
  sp_TargetPort :: int_or_string
  sp_Protocol :: string

record service_spec =
  ss_Type :: string
  ss_Selector :: "(string, string) go_map"
  ss_Ports :: "service_port list"

datatype object_body =
    ServiceAccountBody
  | ConfigMapBody "(string, string) go_map"
  | DeploymentBody deployment_spec
  | PodDisruptionBudgetBody int_or_string "(string, string) go_map"
  | ServiceBody service_spec

record k8s_object =
  ob_TypeMeta :: type_meta
  ob_Meta :: object_meta
  ob_Body :: object_body


section \<open>Configuration and constants\<close>

record pod_defaults =
  pd_TbotImage :: string
  pd_Resources :: resource_requirements
  pd_Insecure :: bool
  pd_TeleportClusterName :: string
  pd_TeleportProxyAddr :: string
  pd_GhostunnelImage :: string
  pd_GhostunnelReloadInterval :: string
  pd_GhostunnelListenPort :: int
  pd_GhostunnelResources :: resource_requirements

definition AnnotationConfigHash :: string where
  "AnnotationConfigHash = ''tunnelport.giantswarm.io/config-hash''"

definition kindServiceAccount :: string where "kindServiceAccount = ''ServiceAccount''"
definition capabilityAll :: string where "capabilityAll = ''ALL''"
definition volumeNameTbotConfig :: string where "volumeNameTbotConfig = ''tbot-config''"
definition volumeNameTbotStorage :: string where "volumeNameTbotStorage = ''tbot-storage''"
definition volumeNameTbotJoinSAToken :: string where "volumeNameTbotJoinSAToken = ''join-sa-token''"
definition volumeNameTbotTmp :: string where "volumeNameTbotTmp = ''tbot-tmp''"
definition volumeNameSVID :: string where "volumeNameSVID = ''svid''"
definition mountPathTbotConfig :: string where "mountPathTbotConfig = ''/etc/tbot''"
definition mountPathTbotStorage :: string where "mountPathTbotStorage = ''/var/lib/tbot''"
definition mountPathTbotJoinSAToken :: string where
  "mountPathTbotJoinSAToken = ''/var/run/secrets/tokens''"
definition tbotJoinSATokenFileName :: string where "tbotJoinSATokenFileName = ''join-sa-token''"
definition mountPathTbotTmp :: string where "mountPathTbotTmp = ''/tmp''"
definition mountPathSVID :: string where "mountPathSVID = ''/var/run/spiffe''"
definition joinSATokenExpirationSeconds :: int where "joinSATokenExpirationSeconds = 600"
definition tbotDiagPortName :: string where "tbotDiagPortName = ''diag''"
definition tbotDiagReadyz :: string where "tbotDiagReadyz = ''/readyz''"
definition tbotStartupProbePeriodSeconds :: int where "tbotStartupProbePeriodSeconds = 5"
definition tbotStartupProbeFailureThreshold :: int where "tbotStartupProbeFailureThreshold = 120"
definition emptyDirSizeLimitValue :: string where "emptyDirSizeLimitValue = ''50Mi''"
definition servicePortNameTLS :: string where "servicePortNameTLS = ''tls''"

lemmas volume_name_defs =
  volumeNameTbotConfig_def volumeNameTbotStorage_def volumeNameTbotJoinSAToken_def
  volumeNameTbotTmp_def volumeNameSVID_def


section \<open>The tbot configuration\<close>

record tbot_onboarding =
  tbo_JoinMethod :: string
  tbo_Token :: string

record tbot_storage =
  tbs_Type :: string
  tbs_Path :: string

record tbot_wi_selector =
  wis_Labels :: "(string, string list) go_map"

record tbot_wi_destination =
  wid_Type :: string
  wid_Path :: string
  wid_Name :: string

record tbot_service =
  tsv_Type :: string
  tsv_AppName :: string
  tsv_Listen :: string
  tsv_Selector :: "tbot_wi_selector option"
  tsv_Destination :: "tbot_wi_destination option"
  tsv_CredentialTTL :: string
  tsv_RenewalInterval :: string

record tbot_file =
  tf_Version :: string
  tf_ProxyServer :: string
  tf_Insecure :: bool
  tf_Onboarding :: tbot_onboarding
  tf_Storage :: tbot_storage
  tf_DiagAddr :: string
  tf_Services :: "tbot_service list"

text \<open>What the renderer calls outside the repository; \<open>None\<close> is an error.\<close>

record render_ops =
  yaml_Marshal :: "tbot_file \<Rightarrow> string option"
  resource_Parse :: "string \<Rightarrow> api_value option"

definition tbotWISelectorLabelRemoteApp :: string where
  "tbotWISelectorLabelRemoteApp = ''remoteapp''"

definition workloadIdentityX509Service :: "remote_app \<Rightarrow> tbot_wi_destination \<Rightarrow> tbot_service" where
  "workloadIdentityX509Service cr dest =
     \<lparr>tsv_Type = ''workload-identity-x509'', tsv_AppName = '''', tsv_Listen = '''',
      tsv_Selector = Some \<lparr>wis_Labels = [(tbotWISelectorLabelRemoteApp, [ra_Name cr])]\<rparr>,
      tsv_Destination = Some dest, tsv_CredentialTTL = ''60m'', tsv_RenewalInterval = ''20m''\<rparr>"

text \<open>The document \<open>tbotConfig\<close> marshals.\<close>

definition tbot_doc :: "remote_app \<Rightarrow> pod_defaults \<Rightarrow> tbot_file" where
  "tbot_doc cr cfg =
     \<lparr>tf_Version = ''v2'', tf_ProxyServer = pd_TeleportProxyAddr cfg, tf_Insecure = pd_Insecure cfg,
      tf_Onboarding = \<lparr>tbo_JoinMethod = ''kubernetes'', tbo_Token = spec_TokenName (ra_Spec cr)\<rparr>,
      tf_Storage = \<lparr>tbs_Type = ''directory'', tbs_Path = mountPathTbotStorage\<rparr>,
      tf_DiagAddr = ''0.0.0.0:'' @ itoa tbotDiagPort,
      tf_Services =
        [\<lparr>tsv_Type = ''application-tunnel'', tsv_AppName = spec_AppName (ra_Spec cr),
          tsv_Listen = ''tcp://0.0.0.0:'' @ itoa (spec_Port (ra_Spec cr)),
          tsv_Selector = None, tsv_Destination = None, tsv_CredentialTTL = '''',
          tsv_RenewalInterval = ''''\<rparr>,
         workloadIdentityX509Service cr
           \<lparr>wid_Type = ''directory'', wid_Path = mountPathSVID, wid_Name = ''''\<rparr>]\<rparr>"

definition tbotConfig :: "render_ops \<Rightarrow> remote_app \<Rightarrow> pod_defaults \<Rightarrow> string option" where
  "tbotConfig ops cr cfg = yaml_Marshal ops (tbot_doc cr cfg)"


section \<open>Rendering\<close>

definition canonicalLabels :: "remote_app \<Rightarrow> (string, string) go_map" where
  "canonicalLabels cr = [(LabelRole, LabelRoleValue), (LabelRemoteAppInstance, ra_Name cr)]"

text \<open>The \<open>metav1.ObjectMeta\<close> literal all five objects have.\<close>

definition owned_meta :: "remote_app \<Rightarrow> object_meta" where
  "owned_meta cr =
     \<lparr>om_Name = ra_Name cr, om_Namespace = ra_Namespace cr, om_Labels = canonicalLabels cr,
      om_Annotations = [], om_OwnerReferences = []\<rparr>"

definition renderServiceAccount :: "remote_app \<Rightarrow> pod_defaults \<Rightarrow> k8s_object" where
  "renderServiceAccount cr cfg =
     \<lparr>ob_TypeMeta = \<lparr>tm_APIVersion = ''v1'', tm_Kind = kindServiceAccount\<rparr>,
      ob_Meta = owned_meta cr, ob_Body = ServiceAccountBody\<rparr>"

definition renderConfigMap :: "render_ops \<Rightarrow> remote_app \<Rightarrow> pod_defaults \<Rightarrow> k8s_object option" where
  "renderConfigMap ops cr cfg =
     do {
       yaml \<leftarrow> tbotConfig ops cr cfg;
       Some \<lparr>ob_TypeMeta = \<lparr>tm_APIVersion = ''v1'', tm_Kind = ''ConfigMap''\<rparr>,
             ob_Meta = owned_meta cr, ob_Body = ConfigMapBody [(''tbot.yaml'', yaml)]\<rparr>
     }"

definition configHash :: "render_ops \<Rightarrow> remote_app \<Rightarrow> pod_defaults \<Rightarrow> string option" where
  "configHash ops cr cfg =
     do { yaml \<leftarrow> tbotConfig ops cr cfg; Some (hex_EncodeToString (sha256_Sum256 yaml)) }"

definition emptyDirSizeLimit :: "render_ops \<Rightarrow> api_value option" where
  "emptyDirSizeLimit ops = resource_Parse ops emptyDirSizeLimitValue"

definition podAffinity :: "remote_app \<Rightarrow> affinity" where
  "podAffinity cr =
     (let preferred = PreferredAntiAffinity
            [\<lparr>wt_weight = 100, wt_matchLabels = canonicalLabels cr,
              wt_topologyKey = ''kubernetes.io/hostname''\<rparr>]
      in case spec_Affinity (ra_Spec cr) of
           Some a \<Rightarrow>
             if aff_podAntiAffinity a \<noteq> None then a else a\<lparr>aff_podAntiAffinity := Some preferred\<rparr>
         | None \<Rightarrow>
             \<lparr>aff_nodeAffinity = None, aff_podAffinity = None, aff_podAntiAffinity = Some preferred\<rparr>)"

text \<open>The port ghostunnel listens on, in \<open>renderDeployment\<close>.\<close>

definition listen_port :: "pod_defaults \<Rightarrow> int" where
  "listen_port cfg =
     (if pd_GhostunnelListenPort cfg = 0 then tlsListenPortDefault else pd_GhostunnelListenPort cfg)"

definition ghostunnelContainer :: "remote_app \<Rightarrow> pod_defaults \<Rightarrow> container" where
  "ghostunnelContainer cr cfg =
     \<lparr>ct_Name = ghostunnelContainerName, ct_Image = pd_GhostunnelImage cfg,
      ct_Resources = pd_GhostunnelResources cfg, ct_RestartPolicy = None,
      ct_SecurityContext =
        \<lparr>sc_AllowPrivilegeEscalation = Some False, sc_ReadOnlyRootFilesystem = Some True,
         sc_RunAsNonRoot = Some True, sc_CapabilitiesDrop = [capabilityAll],
         sc_SeccompProfile = Some ''RuntimeDefault''\<rparr>,
      ct_Command = [], ct_Env = [],
      ct_Args =
        [''server'', ''--cert='' @ mountPathSVID @ ''/svid.pem'',
         ''--key='' @ mountPathSVID @ ''/svid_key.pem'',
         ''--target=127.0.0.1:'' @ itoa (spec_Port (ra_Spec cr)),
         ''--listen=0.0.0.0:'' @ itoa (listen_port cfg),
         ''--timed-reload='' @ pd_GhostunnelReloadInterval cfg, ''--disable-authentication''],
      ct_Ports = [\<lparr>cp_Name = servicePortNameTLS, cp_ContainerPort = listen_port cfg,
                   cp_Protocol = ''TCP''\<rparr>],
      ct_StartupProbe = None,
      ct_ReadinessProbe = Some
        \<lparr>kp_Handler = TCPSocket (FromString servicePortNameTLS), kp_InitialDelaySeconds = 5,
         kp_PeriodSeconds = 10, kp_TimeoutSeconds = 2, kp_FailureThreshold = 3\<rparr>,
      ct_LivenessProbe = None,
      ct_VolumeMounts =
        [\<lparr>vm_Name = volumeNameSVID, vm_MountPath = mountPathSVID, vm_ReadOnly = True\<rparr>]\<rparr>"

definition tbotContainer :: "remote_app \<Rightarrow> pod_defaults \<Rightarrow> container" where
  "tbotContainer cr cfg =
     \<lparr>ct_Name = tbotContainerName, ct_Image = pd_TbotImage cfg, ct_Resources = pd_Resources cfg,
      ct_RestartPolicy = Some ''Always'',
      ct_SecurityContext =
        \<lparr>sc_AllowPrivilegeEscalation = Some False, sc_ReadOnlyRootFilesystem = Some True,
         sc_RunAsNonRoot = None, sc_CapabilitiesDrop = [capabilityAll], sc_SeccompProfile = None\<rparr>,
      ct_Command = [LabelRoleValue],
      ct_Env = [(''KUBERNETES_TOKEN_PATH'', mountPathTbotJoinSAToken @ ''/'' @ tbotJoinSATokenFileName)],
      ct_Args = [''start'', ''-c'', mountPathTbotConfig @ ''/tbot.yaml''],
      ct_Ports =
        [\<lparr>cp_Name = ''tunnel'', cp_ContainerPort = spec_Port (ra_Spec cr), cp_Protocol = ''TCP''\<rparr>,
         \<lparr>cp_Name = tbotDiagPortName, cp_ContainerPort = tbotDiagPort, cp_Protocol = ''TCP''\<rparr>],
      ct_StartupProbe = Some
        \<lparr>kp_Handler = HTTPGet tbotDiagReadyz (FromString tbotDiagPortName),
         kp_InitialDelaySeconds = 2, kp_PeriodSeconds = tbotStartupProbePeriodSeconds,
         kp_TimeoutSeconds = 2, kp_FailureThreshold = tbotStartupProbeFailureThreshold\<rparr>,
      ct_ReadinessProbe = Some
        \<lparr>kp_Handler = HTTPGet tbotDiagReadyz (FromString tbotDiagPortName),
         kp_InitialDelaySeconds = 2, kp_PeriodSeconds = 5, kp_TimeoutSeconds = 2,
         kp_FailureThreshold = 3\<rparr>,
      ct_LivenessProbe = Some
        \<lparr>kp_Handler = TCPSocket (FromString tbotDiagPortName), kp_InitialDelaySeconds = 30,
         kp_PeriodSeconds = 30, kp_TimeoutSeconds = 2, kp_FailureThreshold = 5\<rparr>,
      ct_VolumeMounts =
        [\<lparr>vm_Name = volumeNameTbotConfig, vm_MountPath = mountPathTbotConfig, vm_ReadOnly = True\<rparr>,
         \<lparr>vm_Name = volumeNameTbotJoinSAToken, vm_MountPath = mountPathTbotJoinSAToken,
          vm_ReadOnly = True\<rparr>,
         \<lparr>vm_Name = volumeNameTbotStorage, vm_MountPath = mountPathTbotStorage, vm_ReadOnly = False\<rparr>,
         \<lparr>vm_Name = volumeNameTbotTmp, vm_MountPath = mountPathTbotTmp, vm_ReadOnly = False\<rparr>,
         \<lparr>vm_Name = volumeNameSVID, vm_MountPath = mountPathSVID, vm_ReadOnly = False\<rparr>]\<rparr>"

text \<open>The pod template of \<open>renderDeployment\<close>, given the hash and the size limits.\<close>

definition pod_template_of ::
  "remote_app \<Rightarrow> pod_defaults \<Rightarrow> string \<Rightarrow> api_value \<Rightarrow> api_value \<Rightarrow> api_value \<Rightarrow> pod_template" where
  "pod_template_of cr cfg hash limit1 limit2 limit3 =
     \<lparr>tpl_Labels = canonicalLabels cr, tpl_Annotations = [(AnnotationConfigHash, hash)],
      tpl_ServiceAccountName = ra_Name cr, tpl_AutomountServiceAccountToken = True,
      tpl_NodeSelector = spec_NodeSelector (ra_Spec cr),
      tpl_Tolerations = spec_Tolerations (ra_Spec cr), tpl_Affinity = podAffinity cr,
      tpl_SecurityContext =
        \<lparr>psc_RunAsNonRoot = True, psc_RunAsUser = 65532, psc_SeccompProfile = ''RuntimeDefault''\<rparr>,
      tpl_Volumes =
        [\<lparr>vol_Name = volumeNameTbotConfig, vol_Source = ConfigMapVolume (ra_Name cr)\<rparr>,
         \<lparr>vol_Name = volumeNameTbotJoinSAToken,
          vol_Source = ServiceAccountTokenVolume tbotJoinSATokenFileName
            (pd_TeleportClusterName cfg) joinSATokenExpirationSeconds\<rparr>,
         \<lparr>vol_Name = volumeNameTbotStorage, vol_Source = EmptyDirVolume limit1\<rparr>,
         \<lparr>vol_Name = volumeNameTbotTmp, vol_Source = EmptyDirVolume limit2\<rparr>,
         \<lparr>vol_Name = volumeNameSVID, vol_Source = EmptyDirVolume limit3\<rparr>],
      tpl_InitContainers = [tbotContainer cr cfg],
      tpl_Containers = [ghostunnelContainer cr cfg]\<rparr>"

definition renderDeployment :: "render_ops \<Rightarrow> remote_app \<Rightarrow> pod_defaults \<Rightarrow> k8s_object option" where
  "renderDeployment ops cr cfg =
     do {
       let replicas = (case spec_Replicas (ra_Spec cr) of Some n \<Rightarrow> n | None \<Rightarrow> 1);
       hash \<leftarrow> configHash ops cr cfg;
       limit1 \<leftarrow> emptyDirSizeLimit ops;
       limit2 \<leftarrow> emptyDirSizeLimit ops;
       limit3 \<leftarrow> emptyDirSizeLimit ops;
       Some \<lparr>ob_TypeMeta = \<lparr>tm_APIVersion = ''apps/v1'', tm_Kind = ''Deployment''\<rparr>,
             ob_Meta = owned_meta cr,
             ob_Body = DeploymentBody
               \<lparr>ds_Replicas = replicas, ds_Selector = canonicalLabels cr,
                ds_StrategyType = ''RollingUpdate'', ds_MaxSurge = FromInt 1,
                ds_MaxUnavailable = FromInt 0,
                ds_Template = pod_template_of cr cfg hash limit1 limit2 limit3\<rparr>\<rparr>
     }"

definition renderPodDisruptionBudget :: "remote_app \<Rightarrow> pod_defaults \<Rightarrow> k8s_object" where
  "renderPodDisruptionBudget cr cfg =
     \<lparr>ob_TypeMeta = \<lparr>tm_APIVersion = ''policy/v1'', tm_Kind = ''PodDisruptionBudget''\<rparr>,
      ob_Meta = owned_meta cr, ob_Body = PodDisruptionBudgetBody (FromInt 1) (canonicalLabels cr)\<rparr>"

text \<open>The fallback \<open>renderService\<close> repeats for the Service's \<open>tls\<close> port.\<close>

definition service_tls_port :: "pod_defaults \<Rightarrow> int" where
  "service_tls_port cfg =
     (if pd_GhostunnelListenPort cfg = 0 then tlsListenPortDefault else pd_GhostunnelListenPort cfg)"

definition renderService :: "remote_app \<Rightarrow> pod_defaults \<Rightarrow> k8s_object" where
  "renderService cr cfg =
     \<lparr>ob_TypeMeta = \<lparr>tm_APIVersion = ''v1'', tm_Kind = ''Service''\<rparr>,
      ob_Meta = owned_meta cr,
      ob_Body = ServiceBody
        \<lparr>ss_Type = ''ClusterIP'', ss_Selector = canonicalLabels cr,
         ss_Ports =
           [\<lparr>sp_Name = LabelRoleValue, sp_Port = spec_Port (ra_Spec cr),
             sp_TargetPort = FromInt (spec_Port (ra_Spec cr)), sp_Protocol = ''TCP''\<rparr>,
            \<lparr>sp_Name = servicePortNameTLS, sp_Port = service_tls_port cfg,
             sp_TargetPort = FromInt (service_tls_port cfg), sp_Protocol = ''TCP''\<rparr>]\<rparr>\<rparr>"


section \<open>Lemmas\<close>

text \<open>A label selector (\<open>matchLabels\<close>) against the labels of an object.\<close>

definition selects :: "(string, string) go_map \<Rightarrow> (string, string) go_map \<Rightarrow> bool" where
  "selects sel labels \<longleftrightarrow> list_all (\<lambda>(k, v). go_get labels k = Some v) sel"

lemma label_keys_neq [simp]: "LabelRole \<noteq> LabelRemoteAppInstance" "LabelRemoteAppInstance \<noteq> LabelRole"
  by (simp_all add: LabelRole_def LabelRemoteAppInstance_def)

lemma canonicalLabels_get [simp]:
  "go_get (canonicalLabels cr) LabelRole = Some LabelRoleValue"
  "go_get (canonicalLabels cr) LabelRemoteAppInstance = Some (ra_Name cr)"
  by (simp_all add: canonicalLabels_def)

lemma selects_canonical: "selects (canonicalLabels cr) (canonicalLabels cr') \<longleftrightarrow> ra_Name cr' = ra_Name cr"
  by (auto simp: selects_def canonicalLabels_def)

definition all_containers :: "pod_template \<Rightarrow> container list" where
  "all_containers t = tpl_InitContainers t @ tpl_Containers t"

lemma all_containers_template [simp]:
  "all_containers (pod_template_of cr cfg h a b c) = [tbotContainer cr cfg, ghostunnelContainer cr cfg]"
  by (simp add: all_containers_def pod_template_of_def)

lemma renderDeployment_Some:
  "renderDeployment ops cr cfg = Some d \<Longrightarrow>
     \<exists>h a. configHash ops cr cfg = Some h \<and> emptyDirSizeLimit ops = Some a \<and>
       d = \<lparr>ob_TypeMeta = \<lparr>tm_APIVersion = ''apps/v1'', tm_Kind = ''Deployment''\<rparr>,
            ob_Meta = owned_meta cr,
            ob_Body = DeploymentBody
              \<lparr>ds_Replicas = (case spec_Replicas (ra_Spec cr) of Some n \<Rightarrow> n | None \<Rightarrow> 1),
               ds_Selector = canonicalLabels cr,
               ds_StrategyType = ''RollingUpdate'', ds_MaxSurge = FromInt 1,
               ds_MaxUnavailable = FromInt 0,
               ds_Template = pod_template_of cr cfg h a a a\<rparr>\<rparr>"
  by (auto simp: renderDeployment_def Let_def split: option.splits bind_splits)

definition deployment_of :: "k8s_object \<Rightarrow> deployment_spec option" where
  "deployment_of ob = (case ob_Body ob of DeploymentBody d \<Rightarrow> Some d | _ \<Rightarrow> None)"

definition probes_of :: "container \<Rightarrow> k8s_probe list" where
  "probes_of c =
     (case ct_StartupProbe c of Some p \<Rightarrow> [p] | None \<Rightarrow> []) @
     (case ct_ReadinessProbe c of Some p \<Rightarrow> [p] | None \<Rightarrow> []) @
     (case ct_LivenessProbe c of Some p \<Rightarrow> [p] | None \<Rightarrow> [])"

definition probe_port :: "k8s_probe \<Rightarrow> int_or_string" where
  "probe_port p = (case kp_Handler p of HTTPGet _ port \<Rightarrow> port | TCPSocket port \<Rightarrow> port)"

text \<open>What a pod template must satisfy for the API server to accept it and the kubelet to run it.\<close>

definition template_ok :: "pod_template \<Rightarrow> bool" where
  "template_ok t \<longleftrightarrow>
     distinct (map vol_Name (tpl_Volumes t)) \<and>
     distinct (map ct_Name (all_containers t)) \<and>
     distinct (concat (map (\<lambda>c. map cp_Name (ct_Ports c)) (all_containers t))) \<and>
     list_all (\<lambda>c.
       list_all (\<lambda>m. vm_Name m \<in> set (map vol_Name (tpl_Volumes t))) (ct_VolumeMounts c) \<and>
       distinct (map vm_MountPath (ct_VolumeMounts c)) \<and>
       list_all (\<lambda>p. probe_port p \<in> FromString ` set (map cp_Name (ct_Ports c))) (probes_of c))
       (all_containers t)"

lemma container_names_neq [simp]:
  "tbotContainerName \<noteq> ghostunnelContainerName" "ghostunnelContainerName \<noteq> tbotContainerName"
  by (simp_all add: tbotContainerName_def ghostunnelContainerName_def LabelRoleValue_def)

lemma template_ok_rendered: "template_ok (pod_template_of cr cfg h a b c)"
  by (simp add: template_ok_def probes_of_def probe_port_def)
    (simp add: pod_template_of_def tbotContainer_def ghostunnelContainer_def volume_name_defs
      tbotDiagPortName_def servicePortNameTLS_def mountPathTbotConfig_def mountPathTbotStorage_def
      mountPathTbotJoinSAToken_def mountPathTbotTmp_def mountPathSVID_def
      tbotContainerName_def ghostunnelContainerName_def LabelRoleValue_def)

definition hardened :: "container \<Rightarrow> bool" where
  "hardened c \<longleftrightarrow>
     sc_AllowPrivilegeEscalation (ct_SecurityContext c) = Some False \<and>
     sc_ReadOnlyRootFilesystem (ct_SecurityContext c) = Some True \<and>
     sc_CapabilitiesDrop (ct_SecurityContext c) = [capabilityAll]"


section \<open>Properties\<close>

text \<open>Operations to evaluate examples with: a marshaller that prints the fields it is about.\<close>

definition example_ops :: render_ops where
  "example_ops =
     \<lparr>yaml_Marshal = (\<lambda>f. Some (tf_ProxyServer f @ tbo_Token (tf_Onboarding f) @
         concat (map (\<lambda>s. tsv_AppName s @ tsv_Listen s) (tf_Services f)))),
      resource_Parse = (\<lambda>s. Some (StrValue s))\<rparr>"

definition example_defaults :: pod_defaults where
  "example_defaults =
     \<lparr>pd_TbotImage = ''tbot:18'', pd_Resources = \<lparr>rr_Requests = [], rr_Limits = []\<rparr>, pd_Insecure = False,
      pd_TeleportClusterName = ''teleport.example'', pd_TeleportProxyAddr = ''teleport.example:443'',
      pd_GhostunnelImage = ''ghostunnel:1'', pd_GhostunnelReloadInterval = ''5m'',
      pd_GhostunnelListenPort = 0, pd_GhostunnelResources = \<lparr>rr_Requests = [], rr_Limits = []\<rparr>\<rparr>"

lemma example_deployment:
  "\<exists>d. renderDeployment example_ops example_cr example_defaults = Some d"
  by (simp add: renderDeployment_def configHash_def tbotConfig_def emptyDirSizeLimit_def example_ops_def)

text \<open>C38. The selectors of the Deployment, the Service and the disruption budget select the
  pods of the rendered template, and only pods of templates of RemoteApps with the same
  name.\<close>

theorem selectors_match:
  assumes "renderDeployment ops cr cfg = Some d" and "deployment_of d = Some ds"
    and "renderDeployment ops' cr' cfg' = Some d'" and "deployment_of d' = Some ds'"
  shows "\<exists>svc budget. ob_Body (renderService cr cfg) = ServiceBody svc \<and>
    ob_Body (renderPodDisruptionBudget cr cfg) = PodDisruptionBudgetBody (FromInt 1) budget \<and>
    list_all (\<lambda>sel. selects sel (tpl_Labels (ds_Template ds)) \<and>
        (selects sel (tpl_Labels (ds_Template ds')) \<longleftrightarrow> ra_Name cr' = ra_Name cr))
      [ds_Selector ds, ss_Selector svc, budget]"
proof -
  have "ds_Selector ds = canonicalLabels cr" "tpl_Labels (ds_Template ds) = canonicalLabels cr"
    using renderDeployment_Some [OF assms(1)] assms(2)
    by (auto simp: deployment_of_def pod_template_of_def)
  moreover have "tpl_Labels (ds_Template ds') = canonicalLabels cr'"
    using renderDeployment_Some [OF assms(3)] assms(4)
    by (auto simp: deployment_of_def pod_template_of_def)
  ultimately show ?thesis
    by (simp add: renderService_def renderPodDisruptionBudget_def selects_canonical)
qed

theorem selectors_match_witness:
  "\<exists>d ds. renderDeployment example_ops example_cr example_defaults = Some d \<and>
     deployment_of d = Some ds \<and> selects (ds_Selector ds) (tpl_Labels (ds_Template ds))"
proof -
  obtain d where d: "renderDeployment example_ops example_cr example_defaults = Some d"
    using example_deployment by blast
  then obtain ds where ds: "deployment_of d = Some ds"
    using renderDeployment_Some [OF d] by (auto simp: deployment_of_def)
  from selectors_match [OF d ds d ds] d ds show ?thesis by auto
qed

text \<open>How a container mounts the volume of the SVID, the arguments that begin with a prefix, and
  the directories into which a tbot configuration writes SVIDs.\<close>

definition svid_mounts :: "container \<Rightarrow> volume_mount list" where
  "svid_mounts c = filter (\<lambda>m. vm_Name m = volumeNameSVID) (ct_VolumeMounts c)"

definition args_with :: "string \<Rightarrow> container \<Rightarrow> string list" where
  "args_with p c = filter (\<lambda>a. take (length p) a = p) (ct_Args c)"

definition svid_directories :: "tbot_file \<Rightarrow> string list" where
  "svid_directories d =
     concat (map (\<lambda>sv. case tsv_Destination sv of Some dest \<Rightarrow> [wid_Path dest] | None \<Rightarrow> [])
       (filter (\<lambda>sv. tsv_Type sv = ''workload-identity-x509'') (tf_Services d)))"

lemma container_svid_mounts:
  "svid_mounts (tbotContainer cr cfg) =
     [\<lparr>vm_Name = volumeNameSVID, vm_MountPath = mountPathSVID, vm_ReadOnly = False\<rparr>]"
  "svid_mounts (ghostunnelContainer cr cfg) =
     [\<lparr>vm_Name = volumeNameSVID, vm_MountPath = mountPathSVID, vm_ReadOnly = True\<rparr>]"
  by (simp_all add: svid_mounts_def tbotContainer_def ghostunnelContainer_def volume_name_defs)

lemma ghostunnel_args:
  "args_with ''--cert='' (ghostunnelContainer cr cfg) = [''--cert='' @ mountPathSVID @ ''/svid.pem'']"
  "args_with ''--key='' (ghostunnelContainer cr cfg) = [''--key='' @ mountPathSVID @ ''/svid_key.pem'']"
  "args_with ''--listen='' (ghostunnelContainer cr cfg) = [''--listen=0.0.0.0:'' @ itoa (listen_port cfg)]"
  by (simp_all add: args_with_def ghostunnelContainer_def)

lemma tbot_svid_directories: "svid_directories (tbot_doc cr cfg) = [mountPathSVID]"
  by (simp add: svid_directories_def tbot_doc_def workloadIdentityX509Service_def)

lemma renderDeployment_ghostunnel:
  assumes "renderDeployment ops cr cfg = Some d" and "deployment_of d = Some ds"
  shows "tpl_Containers (ds_Template ds) = [ghostunnelContainer cr cfg]"
  using renderDeployment_Some [OF assms(1)] assms(2) by (auto simp: deployment_of_def pod_template_of_def)

lemma renderService_tls:
  "\<exists>svc. ob_Body (renderService cr cfg) = ServiceBody svc \<and>
     filter (\<lambda>sp. sp_Name sp = servicePortNameTLS) (ss_Ports svc) =
       [\<lparr>sp_Name = servicePortNameTLS, sp_Port = service_tls_port cfg,
         sp_TargetPort = FromInt (service_tls_port cfg), sp_Protocol = ''TCP''\<rparr>]"
  by (simp add: renderService_def servicePortNameTLS_def LabelRoleValue_def)

text \<open>C37. Every rendered pod template is well formed: volume, container and port names do not
  repeat, every mount names a volume of the pod, no container mounts twice at one path, and
  every probe names a port its own container declares; both containers run without
  privilege escalation, on a read-only root and without capabilities, the pod as a non-root
  user. The SVID passes from tbot to ghostunnel: the one directory into which the tbot
  configuration writes SVIDs is where the tbot container mounts the SVID volume, writable,
  and the ghostunnel container mounts the same volume read-only at the directory from which
  its only \<open>--cert\<close> and \<open>--key\<close> arguments read.\<close>

theorem template_well_formed:
  assumes "renderDeployment ops cr cfg = Some d" and "deployment_of d = Some ds"
  shows "template_ok (ds_Template ds) \<and> list_all hardened (all_containers (ds_Template ds)) \<and>
    psc_RunAsNonRoot (tpl_SecurityContext (ds_Template ds)) \<and>
    psc_RunAsUser (tpl_SecurityContext (ds_Template ds)) \<noteq> 0 \<and>
    (\<exists>tbot ghostunnel write_dir read_dir.
      tpl_InitContainers (ds_Template ds) = [tbot] \<and> ct_Name tbot = tbotContainerName \<and>
      tpl_Containers (ds_Template ds) = [ghostunnel] \<and> ct_Name ghostunnel = ghostunnelContainerName \<and>
      svid_directories (tbot_doc cr cfg) = [write_dir] \<and>
      svid_mounts tbot = [\<lparr>vm_Name = volumeNameSVID, vm_MountPath = write_dir, vm_ReadOnly = False\<rparr>] \<and>
      svid_mounts ghostunnel = [\<lparr>vm_Name = volumeNameSVID, vm_MountPath = read_dir, vm_ReadOnly = True\<rparr>] \<and>
      args_with ''--cert='' ghostunnel = [''--cert='' @ read_dir @ ''/svid.pem''] \<and>
      args_with ''--key='' ghostunnel = [''--key='' @ read_dir @ ''/svid_key.pem''])"
proof -
  obtain h a where t: "ds_Template ds = pod_template_of cr cfg h a a a"
    using renderDeployment_Some [OF assms(1)] assms(2) by (auto simp: deployment_of_def)
  have containers: "tpl_InitContainers (ds_Template ds) = [tbotContainer cr cfg]"
    "tpl_Containers (ds_Template ds) = [ghostunnelContainer cr cfg]"
    "ct_Name (tbotContainer cr cfg) = tbotContainerName"
    "ct_Name (ghostunnelContainer cr cfg) = ghostunnelContainerName"
    by (simp_all add: t pod_template_of_def tbotContainer_def ghostunnelContainer_def)
  have "list_all hardened (all_containers (ds_Template ds))"
    "psc_RunAsNonRoot (tpl_SecurityContext (ds_Template ds))"
    "psc_RunAsUser (tpl_SecurityContext (ds_Template ds)) \<noteq> 0"
    unfolding t by (simp add: hardened_def tbotContainer_def ghostunnelContainer_def)
      (simp_all add: pod_template_of_def)
  then show ?thesis
    using template_ok_rendered [of cr cfg h a a a] containers container_svid_mounts [of cr cfg]
      ghostunnel_args(1,2) [of cr cfg] tbot_svid_directories [of cr cfg]
    unfolding t by blast
qed

theorem template_well_formed_witness:
  "\<exists>d ds. renderDeployment example_ops example_cr example_defaults = Some d \<and>
     deployment_of d = Some ds \<and> template_ok (ds_Template ds)"
proof -
  obtain d where d: "renderDeployment example_ops example_cr example_defaults = Some d"
    using example_deployment by blast
  then obtain ds where ds: "deployment_of d = Some ds"
    using renderDeployment_Some [OF d] by (auto simp: deployment_of_def)
  from template_well_formed [OF d ds] d ds show ?thesis by auto
qed

text \<open>The RemoteApp with another replica count, and a Deployment without its count.\<close>

definition scaled :: "remote_app \<Rightarrow> int option \<Rightarrow> remote_app" where
  "scaled cr n = cr\<lparr>ra_Spec := (ra_Spec cr)\<lparr>spec_Replicas := n\<rparr>\<rparr>"

definition without_count :: "k8s_object \<Rightarrow> k8s_object" where
  "without_count d =
     (case ob_Body d of
        DeploymentBody s \<Rightarrow> d\<lparr>ob_Body := DeploymentBody (s\<lparr>ds_Replicas := 0\<rparr>)\<rparr> | _ \<Rightarrow> d)"

lemma scaled_same [simp]:
  "canonicalLabels (scaled cr n) = canonicalLabels cr" "owned_meta (scaled cr n) = owned_meta cr"
  "tbot_doc (scaled cr n) cfg = tbot_doc cr cfg" "podAffinity (scaled cr n) = podAffinity cr"
  "tbotContainer (scaled cr n) cfg = tbotContainer cr cfg"
  "ghostunnelContainer (scaled cr n) cfg = ghostunnelContainer cr cfg"
  "spec_Port (ra_Spec (scaled cr n)) = spec_Port (ra_Spec cr)"
  "ra_Name (scaled cr n) = ra_Name cr"
  by (simp_all add: scaled_def canonicalLabels_def owned_meta_def tbot_doc_def podAffinity_def
      tbotContainer_def ghostunnelContainer_def workloadIdentityX509Service_def)

lemma scaled_template [simp]:
  "pod_template_of (scaled cr n) cfg h a b c = pod_template_of cr cfg h a b c"
  by (simp add: pod_template_of_def) (simp add: scaled_def)

text \<open>Scaling rolls nothing: changing \<open>spec.replicas\<close> changes the replica count of the
  Deployment and no other part of any owned object.\<close>

theorem scaling_keeps_template:
  "map_option without_count (renderDeployment ops (scaled cr n) cfg) =
     map_option without_count (renderDeployment ops cr cfg) \<and>
   renderServiceAccount (scaled cr n) cfg = renderServiceAccount cr cfg \<and>
   renderConfigMap ops (scaled cr n) cfg = renderConfigMap ops cr cfg \<and>
   renderPodDisruptionBudget (scaled cr n) cfg = renderPodDisruptionBudget cr cfg \<and>
   renderService (scaled cr n) cfg = renderService cr cfg"
proof -
  have hash: "configHash ops (scaled cr n) cfg = configHash ops cr cfg"
    by (simp add: configHash_def tbotConfig_def)
  show ?thesis
    by (cases "configHash ops cr cfg"; cases "emptyDirSizeLimit ops")
      (simp_all add: renderDeployment_def hash without_count_def renderServiceAccount_def
        renderConfigMap_def tbotConfig_def renderPodDisruptionBudget_def renderService_def)
qed

text \<open>The path of a request: the Service's \<open>tls\<close> port targets the port ghostunnel
  declares and listens on, ghostunnel forwards to the loopback port on which tbot's
  application tunnel listens, and the plaintext port targets the same tunnel.\<close>

theorem request_path:
  "\<exists>svc. ob_Body (renderService cr cfg) = ServiceBody svc \<and>
    map (\<lambda>p. (sp_Name p, sp_TargetPort p)) (ss_Ports svc) =
      [(LabelRoleValue, FromInt (spec_Port (ra_Spec cr))),
       (servicePortNameTLS, FromInt (listen_port cfg))] \<and>
    map (\<lambda>p. (cp_Name p, cp_ContainerPort p)) (ct_Ports (ghostunnelContainer cr cfg)) =
      [(servicePortNameTLS, listen_port cfg)] \<and>
    ''--listen=0.0.0.0:'' @ itoa (listen_port cfg) \<in> set (ct_Args (ghostunnelContainer cr cfg)) \<and>
    ''--target=127.0.0.1:'' @ itoa (spec_Port (ra_Spec cr)) \<in> set (ct_Args (ghostunnelContainer cr cfg)) \<and>
    ''tcp://0.0.0.0:'' @ itoa (spec_Port (ra_Spec cr)) \<in>
      set (map tsv_Listen (tf_Services (tbot_doc cr cfg))) \<and>
    listen_port cfg \<noteq> 0"
  by (simp add: renderService_def ghostunnelContainer_def tbot_doc_def listen_port_def service_tls_port_def
      tlsListenPortDefault_def)

text \<open>The Service is ambiguous exactly when the RemoteApp's own port is ghostunnel's listen
  port: then its two ports have one number, although no validation rejects the spec.\<close>

theorem service_port_collision:
  "(\<exists>svc. ob_Body (renderService cr cfg) = ServiceBody svc \<and> distinct (map sp_Port (ss_Ports svc))) \<longleftrightarrow>
   spec_Port (ra_Spec cr) \<noteq>
     (if pd_GhostunnelListenPort cfg = 0 then 8443 else pd_GhostunnelListenPort cfg)"
  by (simp add: renderService_def service_tls_port_def tlsListenPortDefault_def)

text \<open>The affinity of the pods: what the author wrote stays, and unless the author wrote a
  pod anti-affinity the pods prefer not to share a node with pods of the same RemoteApp.\<close>

theorem podAffinity_contract:
  "(\<forall>a. spec_Affinity (ra_Spec cr) = Some a \<longrightarrow>
      aff_nodeAffinity (podAffinity cr) = aff_nodeAffinity a \<and>
      aff_podAffinity (podAffinity cr) = aff_podAffinity a \<and>
      (aff_podAntiAffinity a \<noteq> None \<longrightarrow> podAffinity cr = a)) \<and>
   ((spec_Affinity (ra_Spec cr) = None \<or>
     (\<exists>a. spec_Affinity (ra_Spec cr) = Some a \<and> aff_podAntiAffinity a = None)) \<longrightarrow>
      (\<exists>term. aff_podAntiAffinity (podAffinity cr) = Some (PreferredAntiAffinity [term]) \<and>
         selects (wt_matchLabels term) (canonicalLabels cr) \<and>
         wt_topologyKey term = ''kubernetes.io/hostname''))"
  by (auto simp: podAffinity_def selects_canonical split: option.split)

theorem podAffinity_contract_witness:
  "\<exists>term. aff_podAntiAffinity (podAffinity example_cr) = Some (PreferredAntiAffinity [term])"
  using podAffinity_contract [of example_cr] by (auto simp: example_cr_def)

end
