(* ===== verification/Controller.thy ===== *)
theory Controller
  imports Status Store Probe Render
begin

text \<open>
  \<open>controller.go\<close>: one reconcile pass, the status write and the Events about outages.

  What the pass calls outside the repository (the API client, the owner-reference helper,
  the unstructured converter, \<open>Semantic.DeepEqual\<close>) is the record \<open>rec_env\<close>. A pass
  returns its result, a Go error or a panic of the renderer, and the list of its effects in
  order: the apply calls, the status patch, the Events.
\<close>

section \<open>The environment\<close>

datatype get_result = Found remote_app | NotFound | GetFailed go_error

record k8s_event =
  ev_Regarding :: namespaced_name
  ev_Type :: string
  ev_Reason :: string
  ev_Action :: string
  ev_Note :: string

datatype effect =
    ApplyCall k8s_object api_value string bool
  | PatchStatusCall remote_app remote_app_status
  | EmitEvent k8s_event

record rec_env =
  en_Get :: "namespaced_name \<Rightarrow> get_result"
  en_SetControllerReference :: "remote_app \<Rightarrow> k8s_object \<Rightarrow> go_error + k8s_object"
  en_ToUnstructured :: "k8s_object \<Rightarrow> go_error + api_value"
  en_Apply :: "api_value \<Rightarrow> go_error option"
  en_ListPods :: "string \<Rightarrow> (string, string) go_map \<Rightarrow> go_error + pod list"
  en_PatchStatus :: "remote_app \<Rightarrow> remote_app_status \<Rightarrow> go_error option"
  en_DeepEqual :: "remote_app_status \<Rightarrow> remote_app_status \<Rightarrow> bool"
  en_meta :: meta_ops
  en_render :: render_ops
  en_clock :: "string \<Rightarrow> go_time"

record reconciler =
  rc_PodDefaults :: pod_defaults
  rc_Recorder :: bool
  rc_Verifications :: "verification_reader option"

datatype rec_result = Panicked | Returned "go_error option"

definition fieldManager :: string where "fieldManager = ''remoteapp-controller''"

definition eventActionProbe :: string where "eventActionProbe = ''Probe''"

definition EventTypeWarning :: string where "EventTypeWarning = ''Warning''"

definition EventTypeNormal :: string where "EventTypeNormal = ''Normal''"

lemma event_types_neq [simp]: "EventTypeWarning \<noteq> EventTypeNormal" "EventTypeNormal \<noteq> EventTypeWarning"
  by (simp_all add: EventTypeWarning_def EventTypeNormal_def)


section \<open>Applying the owned objects\<close>

definition setOwnerRef :: "rec_env \<Rightarrow> remote_app \<Rightarrow> k8s_object \<Rightarrow> go_error + k8s_object" where
  "setOwnerRef env cr obj = en_SetControllerReference env cr obj"

definition applyOwned :: "rec_env \<Rightarrow> remote_app \<Rightarrow> k8s_object \<Rightarrow> go_error option \<times> effect list" where
  "applyOwned env cr desired =
     (case setOwnerRef env cr desired of
        Inl err \<Rightarrow> (Some (wrap_error ''set owner ref'' err), [])
      | Inr obj \<Rightarrow>
          (case en_ToUnstructured env obj of
             Inl err \<Rightarrow> (Some (wrap_error ''convert to unstructured'' err), [])
           | Inr u \<Rightarrow> (en_Apply env u, [ApplyCall obj u fieldManager True])))"

text \<open>The step list of \<open>Reconcile\<close>: all objects are rendered before the first is applied.\<close>

definition owned_steps :: "rec_env \<Rightarrow> remote_app \<Rightarrow> pod_defaults \<Rightarrow> (string \<times> k8s_object) list option" where
  "owned_steps env cr cfg =
     do {
       configMap \<leftarrow> renderConfigMap (en_render env) cr cfg;
       deployment \<leftarrow> renderDeployment (en_render env) cr cfg;
       Some [(kindServiceAccount, renderServiceAccount cr cfg), (''ConfigMap'', configMap),
             (''Deployment'', deployment),
             (''PodDisruptionBudget'', renderPodDisruptionBudget cr cfg),
             (''Service'', renderService cr cfg)]
     }"

fun apply_steps ::
  "rec_env \<Rightarrow> remote_app \<Rightarrow> (string \<times> k8s_object) list \<Rightarrow> go_error option \<times> effect list" where
  "apply_steps env cr [] = (None, [])"
| "apply_steps env cr ((name, obj) # steps) =
     (case applyOwned env cr obj of
        (Some err, effs) \<Rightarrow> (Some (wrap_error (''reconcile '' @ name) err), effs)
      | (None, effs) \<Rightarrow>
          (case apply_steps env cr steps of (res, effs') \<Rightarrow> (res, effs @ effs')))"


section \<open>Status\<close>

definition listTbotPods :: "rec_env \<Rightarrow> remote_app \<Rightarrow> go_error + pod list" where
  "listTbotPods env cr =
     en_ListPods env (ra_Namespace cr)
       [(LabelRole, LabelRoleValue), (LabelRemoteAppInstance, ra_Name cr)]"

definition strip_times :: "remote_app_status \<Rightarrow> remote_app_status" where
  "strip_times s =
     s\<lparr>st_Conditions := map (\<lambda>c. c\<lparr>cond_lastTransitionTime := 0\<rparr>) (st_Conditions s)\<rparr>"

text \<open>A nil pointer is \<open>None\<close>; two pointers are only equal here when both are nil.\<close>

definition statusEqual ::
  "(remote_app_status \<Rightarrow> remote_app_status \<Rightarrow> bool) \<Rightarrow> remote_app_status option \<Rightarrow>
   remote_app_status option \<Rightarrow> bool" where
  "statusEqual deepEqual a b =
     (case (a, b) of
        (Some sa, Some sb) \<Rightarrow> deepEqual (strip_times sa) (strip_times sb)
      | (None, None) \<Rightarrow> True
      | _ \<Rightarrow> False)"

definition upstream_event :: "remote_app \<Rightarrow> string \<Rightarrow> string \<Rightarrow> condition \<Rightarrow> k8s_event" where
  "upstream_event cr type reason c =
     \<lparr>ev_Regarding = ra_key cr, ev_Type = type, ev_Reason = reason, ev_Action = eventActionProbe,
      ev_Note = cond_message c\<rparr>"

definition recordUpstreamTransition ::
  "meta_ops \<Rightarrow> reconciler \<Rightarrow> remote_app \<Rightarrow> condition list \<Rightarrow> condition list \<Rightarrow> k8s_event list" where
  "recordUpstreamTransition meta r cr before after =
     (case (rc_Recorder r, rc_Verifications r) of
        (True, Some rd) \<Rightarrow>
          (case FindStatusCondition meta after ConditionTypeUpstreamReachable of
             None \<Rightarrow> []
           | Some next_cond \<Rightarrow>
               (let prev = FindStatusCondition meta before ConditionTypeUpstreamReachable;
                    prevStatus = (case prev of Some p \<Rightarrow> cond_status p | None \<Rightarrow> ConditionUnknown);
                    key = ra_key cr
                in if prevStatus = cond_status next_cond then []
                   else (case cond_status next_cond of
                           ConditionFalse \<Rightarrow>
                             (if (case (prev, rd_UpstreamDownSince rd key) of
                                    (Some p, Some since) \<Rightarrow>
                                      prevStatus = ConditionUnknown \<and> since < cond_lastTransitionTime p
                                  | _ \<Rightarrow> False)
                              then []
                              else [upstream_event cr EventTypeWarning reasonUpstreamUnreachable next_cond])
                         | ConditionTrue \<Rightarrow>
                             (case rd_UpstreamRecoveredAt rd key of
                                None \<Rightarrow> []
                              | Some recovered \<Rightarrow>
                                  if (case prev of Some p \<Rightarrow> recovered < cond_lastTransitionTime p
                                      | None \<Rightarrow> False)
                                  then []
                                  else [upstream_event cr EventTypeNormal reasonUpstreamReachable next_cond])
                         | ConditionUnknown \<Rightarrow> [])))
      | _ \<Rightarrow> [])"

definition reconcileStatus ::
  "rec_env \<Rightarrow> reconciler \<Rightarrow> remote_app \<Rightarrow> string \<Rightarrow> rec_result \<times> effect list" where
  "reconcileStatus env r cr applyErrSummary =
     (case listTbotPods env cr of
        Inl err \<Rightarrow> (Returned (Some (wrap_error ''list tbot pods'' err)), [])
      | Inr pods \<Rightarrow>
          (let before = ra_Status cr in
           case computeStatus (en_meta env) (en_clock env) cr pods (st_Conditions before)
                  applyErrSummary (rc_Verifications r) of
             None \<Rightarrow> (Panicked, [])
           | Some newStatus \<Rightarrow>
               if statusEqual (en_DeepEqual env) (Some before) (Some newStatus)
               then (Returned None, [])
               else (case en_PatchStatus env cr newStatus of
                       Some err \<Rightarrow> (Returned (Some err), [PatchStatusCall cr newStatus])
                     | None \<Rightarrow>
                         (Returned None,
                          PatchStatusCall cr newStatus #
                          map EmitEvent (recordUpstreamTransition (en_meta env) r cr
                            (st_Conditions before) (st_Conditions newStatus))))))"


section \<open>The pass\<close>

definition Reconcile :: "rec_env \<Rightarrow> reconciler \<Rightarrow> namespaced_name \<Rightarrow> rec_result \<times> effect list" where
  "Reconcile env r req =
     (case en_Get env req of
        NotFound \<Rightarrow> (Returned None, [])
      | GetFailed err \<Rightarrow> (Returned (Some (wrap_error ''get RemoteApp'' err)), [])
      | Found cr \<Rightarrow>
          if ra_DeletionTimestamp cr \<noteq> None then (Returned None, [])
          else (case owned_steps env cr (rc_PodDefaults r) of
                  None \<Rightarrow> (Panicked, [])
                | Some steps \<Rightarrow>
                    (case apply_steps env cr steps of
                       (applyErr, effs) \<Rightarrow>
                         (let applyErrSummary =
                                (case applyErr of Some e \<Rightarrow> error_text e | None \<Rightarrow> '''')
                          in case reconcileStatus env r cr applyErrSummary of
                               (Panicked, effs') \<Rightarrow> (Panicked, effs @ effs')
                             | (Returned (Some err), effs') \<Rightarrow>
                                 (Returned (Some (case applyErr of
                                    Some e \<Rightarrow> e | None \<Rightarrow> wrap_error ''reconcile status'' err)),
                                  effs @ effs')
                             | (Returned None, effs') \<Rightarrow> (Returned applyErr, effs @ effs')))))"

definition mapPodToRemoteApp :: "pod \<Rightarrow> namespaced_name list" where
  "mapPodToRemoteApp obj =
     (if go_index (pod_Labels obj) LabelRole \<noteq> LabelRoleValue then []
      else let name = go_index (pod_Labels obj) LabelRemoteAppInstance in
           if name = '''' then [] else [NamespacedName (pod_Namespace obj) name])"


section \<open>Watches\<close>

text \<open>\<open>SetupWithManager\<close>: the kinds the controller is told about, in the builder's order.\<close>

datatype watch = For string | Owns string | WatchesPods | WatchesChannel

definition SetupWithManager :: "bool \<Rightarrow> watch list" where
  "SetupWithManager verificationEvents =
     [For ''RemoteApp'', Owns ''Deployment'', Owns ''PodDisruptionBudget'', Owns ''Service'',
      Owns ''ConfigMap'', Owns ''ServiceAccount'', WatchesPods] @
     (if verificationEvents then [WatchesChannel] else [])"

lemma pod_selected_iff:
  assumes "ra_Name cr \<noteq> ''''"
  shows "pod_Namespace p = ra_Namespace cr \<and>
    selects [(LabelRole, LabelRoleValue), (LabelRemoteAppInstance, ra_Name cr)] (pod_Labels p) \<longleftrightarrow>
    mapPodToRemoteApp p = [ra_key cr]"
proof -
  have get: "go_index m key = x \<longleftrightarrow> go_get m key = Some x" if "x \<noteq> ''''" for m key x
    using that by (auto simp: go_index_def split: option.split)
  have role: "go_index (pod_Labels p) LabelRole = LabelRoleValue \<longleftrightarrow>
      go_get (pod_Labels p) LabelRole = Some LabelRoleValue"
    by (rule get) (simp add: LabelRoleValue_def)
  show ?thesis
    using get [OF assms, of "pod_Labels p" LabelRemoteAppInstance] assms
    by (auto simp: selects_def mapPodToRemoteApp_def Let_def role)
qed


section \<open>Lemmas: applying\<close>

definition step_effects :: "rec_env \<Rightarrow> remote_app \<Rightarrow> (string \<times> k8s_object) list \<Rightarrow> effect list" where
  "step_effects env cr steps = concat (map (\<lambda>(_, obj). snd (applyOwned env cr obj)) steps)"

definition step_ok :: "rec_env \<Rightarrow> remote_app \<Rightarrow> string \<times> k8s_object \<Rightarrow> bool" where
  "step_ok env cr st \<longleftrightarrow> fst (applyOwned env cr (snd st)) = None"

lemma apply_steps_append:
  "list_all (step_ok env cr) pre \<Longrightarrow>
   apply_steps env cr (pre @ post) =
     (fst (apply_steps env cr post), step_effects env cr pre @ snd (apply_steps env cr post))"
proof (induction pre)
  case (Cons st pre)
  obtain name obj where st: "st = (name, obj)" by (cases st)
  obtain effs where "applyOwned env cr obj = (None, effs)"
    using Cons.prems by (cases "applyOwned env cr obj") (auto simp: st step_ok_def)
  with Cons show ?case by (auto simp: st step_effects_def split: prod.split)
qed (simp add: step_effects_def)

lemma apply_steps_ok:
  "list_all (step_ok env cr) steps \<Longrightarrow> apply_steps env cr steps = (None, step_effects env cr steps)"
  using apply_steps_append [of env cr steps "[]"] by simp

lemma apply_steps_fail:
  assumes "list_all (step_ok env cr) pre" and "fst (applyOwned env cr obj) = Some err"
  shows "apply_steps env cr (pre @ (name, obj) # post) =
    (Some (wrap_error (''reconcile '' @ name) err), step_effects env cr (pre @ [(name, obj)]))"
proof -
  obtain effs where "applyOwned env cr obj = (Some err, effs)"
    using assms(2) by (cases "applyOwned env cr obj") auto
  then show ?thesis
    using apply_steps_append [OF assms(1), of "(name, obj) # post"] by (simp add: step_effects_def)
qed

lemma apply_steps_cases:
  obtains (ok) "list_all (step_ok env cr) steps"
  | (fail) pre name obj post err where "steps = pre @ (name, obj) # post"
      "list_all (step_ok env cr) pre" "fst (applyOwned env cr obj) = Some err"
proof (cases "list_all (step_ok env cr) steps")
  case False
  then obtain pre x post where "steps = pre @ x # post" "\<forall>y \<in> set pre. step_ok env cr y" "\<not> step_ok env cr x"
    using split_list_first_prop [of steps "\<lambda>x. \<not> step_ok env cr x"] by (auto simp: list_all_iff)
  then show ?thesis by (cases x) (auto simp: step_ok_def list_all_iff intro!: fail)
qed (rule ok)

text \<open>The objects that were sent to the API server, in order.\<close>

definition applied_objects :: "effect list \<Rightarrow> k8s_object list" where
  "applied_objects effs = concat (map (\<lambda>e. case e of ApplyCall obj _ _ _ \<Rightarrow> [obj] | _ \<Rightarrow> []) effs)"

lemma applied_objects_append [simp]:
  "applied_objects [] = []"
  "applied_objects (xs @ ys) = applied_objects xs @ applied_objects ys"
  by (simp_all add: applied_objects_def)

text \<open>
  What \<open>SetControllerReference\<close> promises the operator: an object that has no owner yet and
  lives in the namespace of its owner gets one reference to it, and nothing else changes.
\<close>

definition with_owner :: "owner_reference \<Rightarrow> k8s_object \<Rightarrow> k8s_object" where
  "with_owner r obj = obj\<lparr>ob_Meta := (ob_Meta obj)\<lparr>om_OwnerReferences := [r]\<rparr>\<rparr>"

lemma with_owner_simps [simp]:
  "om_OwnerReferences (ob_Meta (with_owner r obj)) = [r]"
  "om_Name (ob_Meta (with_owner r obj)) = om_Name (ob_Meta obj)"
  "om_Namespace (ob_Meta (with_owner r obj)) = om_Namespace (ob_Meta obj)"
  "ob_TypeMeta (with_owner r obj) = ob_TypeMeta obj" "ob_Body (with_owner r obj) = ob_Body obj"
  by (simp_all add: with_owner_def)

definition ownable :: "remote_app \<Rightarrow> k8s_object \<Rightarrow> bool" where
  "ownable cr obj \<longleftrightarrow> om_OwnerReferences (ob_Meta obj) = [] \<and> om_Namespace (ob_Meta obj) = ra_Namespace cr"

locale controller_reference =
  fixes setref :: "remote_app \<Rightarrow> k8s_object \<Rightarrow> go_error + k8s_object"
    and ref :: "remote_app \<Rightarrow> owner_reference"
  assumes ownable_set: "ownable cr obj \<Longrightarrow> setref cr obj = Inr (with_owner (ref cr) obj)"
begin

lemma applyOwned_objects:
  assumes "en_SetControllerReference env = setref" and "ownable cr obj"
  shows "set (applied_objects (snd (applyOwned env cr obj))) \<subseteq> {with_owner (ref cr) obj}"
    and "fst (applyOwned env cr obj) = None \<Longrightarrow>
      applied_objects (snd (applyOwned env cr obj)) = [with_owner (ref cr) obj]"
  using assms ownable_set
  by (auto simp: applyOwned_def setOwnerRef_def applied_objects_def split: sum.splits)

lemma steps_ok:
  assumes "en_SetControllerReference env = setref" and "list_all (\<lambda>(_, obj). ownable cr obj) steps"
    and "\<And>obj. \<exists>u. en_ToUnstructured env obj = Inr u \<and> en_Apply env u = None"
  shows "list_all (step_ok env cr) steps"
proof -
  have "fst (applyOwned env cr obj) = None" if "ownable cr obj" for obj
    using assms(1) assms(3) [of "with_owner (ref cr) obj"] that
    by (auto simp: applyOwned_def setOwnerRef_def ownable_set)
  with assms(2) show ?thesis by (auto simp: list_all_iff step_ok_def)
qed

lemma step_effects_objects:
  assumes "en_SetControllerReference env = setref" and "list_all (\<lambda>(_, obj). ownable cr obj) steps"
  shows "set (applied_objects (step_effects env cr steps)) \<subseteq> (with_owner (ref cr) \<circ> snd) ` set steps"
    and "list_all (step_ok env cr) steps \<Longrightarrow>
      applied_objects (step_effects env cr steps) = map (with_owner (ref cr) \<circ> snd) steps"
proof -
  have cons: "step_effects env cr (st # sts) = snd (applyOwned env cr (snd st)) @ step_effects env cr sts"
    for st sts by (cases st) (simp add: step_effects_def)
  show "set (applied_objects (step_effects env cr steps)) \<subseteq> (with_owner (ref cr) \<circ> snd) ` set steps"
    using assms(2)
  proof (induction steps)
    case (Cons st steps)
    then show ?case using applyOwned_objects(1) [OF assms(1), of cr "snd st"] by (auto simp: cons)
  qed (simp add: step_effects_def)
  show "applied_objects (step_effects env cr steps) = map (with_owner (ref cr) \<circ> snd) steps"
    if "list_all (step_ok env cr) steps"
    using assms(2) that
  proof (induction steps)
    case (Cons st steps)
    then show ?case using applyOwned_objects(2) [OF assms(1), of cr "snd st"]
      by (auto simp: cons step_ok_def)
  qed (simp add: step_effects_def)
qed

end

text \<open>The documented behaviour of the helper, for an owner whose kind is known.\<close>

definition reference_to :: "string \<Rightarrow> string \<Rightarrow> remote_app \<Rightarrow> owner_reference" where
  "reference_to apiVersion kind cr =
     \<lparr>or_APIVersion = apiVersion, or_Kind = kind, or_Name = ra_Name cr, or_UID = ra_UID cr,
      or_Controller = True, or_BlockOwnerDeletion = True\<rparr>"

definition documented_reference ::
  "string \<Rightarrow> string \<Rightarrow> remote_app \<Rightarrow> k8s_object \<Rightarrow> go_error + k8s_object" where
  "documented_reference apiVersion kind cr obj =
     (let ref = reference_to apiVersion kind cr; refs = om_OwnerReferences (ob_Meta obj) in
      if om_Namespace (ob_Meta obj) \<noteq> ra_Namespace cr
      then Inl (errors_new ''cross-namespace owner references are disallowed'')
      else if list_ex (\<lambda>r. or_Controller r \<and> or_UID r \<noteq> ra_UID cr) refs
      then Inl (errors_new ''already owned'')
      else Inr (obj\<lparr>ob_Meta := (ob_Meta obj)\<lparr>om_OwnerReferences :=
             filter (\<lambda>r. or_UID r \<noteq> ra_UID cr) refs @ [ref]\<rparr>\<rparr>))"

interpretation documented_owner:
  controller_reference "documented_reference apiVersion kind" "reference_to apiVersion kind"
  by unfold_locales (simp add: ownable_def documented_reference_def Let_def with_owner_def)

lemma reconcileStatus_applies_nothing [simp]: "applied_objects (snd (reconcileStatus env r cr e)) = []"
  by (simp add: reconcileStatus_def Let_def applied_objects_def comp_def split: sum.split option.split)

lemma reconcileStatus_no_panic [simp]: "fst (reconcileStatus env r cr e) \<noteq> Panicked"
  by (simp add: reconcileStatus_def Let_def computeStatus_eq split: sum.split option.split)

lemma Reconcile_live:
  assumes "en_Get env req = Found cr" and "ra_DeletionTimestamp cr = None"
    and "owned_steps env cr (rc_PodDefaults r) = Some steps"
    and "apply_steps env cr steps = (applyErr, effs)"
    and summary: "summary = (case applyErr of Some e \<Rightarrow> error_text e | None \<Rightarrow> '''')"
  shows "Reconcile env r req =
    ((case fst (reconcileStatus env r cr summary) of
        Returned (Some err) \<Rightarrow>
          Returned (Some (case applyErr of Some e \<Rightarrow> e | None \<Rightarrow> wrap_error ''reconcile status'' err))
      | _ \<Rightarrow> Returned applyErr),
     effs @ snd (reconcileStatus env r cr summary))"
proof -
  obtain x effs' where res: "reconcileStatus env r cr summary = (Returned x, effs')"
    using reconcileStatus_no_panic [of env r cr summary]
    by (metis fst_conv prod.exhaust rec_result.exhaust)
  show ?thesis
    using assms(1-4) res by (cases x) (simp_all add: Reconcile_def Let_def summary [symmetric])
qed

definition applied_kind :: "k8s_object \<Rightarrow> string" where
  "applied_kind obj = tm_Kind (ob_TypeMeta obj)"

lemma owned_steps_kinds:
  assumes "owned_steps env cr cfg = Some steps"
  shows "map fst steps = [''ServiceAccount'', ''ConfigMap'', ''Deployment'', ''PodDisruptionBudget'', ''Service'']
    \<and> map (applied_kind \<circ> snd) steps = map fst steps
    \<and> list_all (\<lambda>(_, obj). om_Name (ob_Meta obj) = ra_Name cr \<and> om_Namespace (ob_Meta obj) = ra_Namespace cr) steps"
proof -
  obtain cm d where steps: "renderConfigMap (en_render env) cr cfg = Some cm"
      "renderDeployment (en_render env) cr cfg = Some d"
      "steps = [(kindServiceAccount, renderServiceAccount cr cfg), (''ConfigMap'', cm),
        (''Deployment'', d), (''PodDisruptionBudget'', renderPodDisruptionBudget cr cfg),
        (''Service'', renderService cr cfg)]"
    using assms by (auto simp: owned_steps_def split: bind_splits)
  have cm: "applied_kind cm = ''ConfigMap'' \<and> ob_Meta cm = owned_meta cr"
    using steps(1) by (auto simp: renderConfigMap_def applied_kind_def split: bind_splits)
  have d: "applied_kind d = ''Deployment'' \<and> ob_Meta d = owned_meta cr"
    using renderDeployment_Some [OF steps(2)] by (auto simp: applied_kind_def)
  show ?thesis
    unfolding steps(3) using cm d
    by (simp add: owned_meta_def renderServiceAccount_def renderPodDisruptionBudget_def
        renderService_def kindServiceAccount_def applied_kind_def)
qed

lemma owned_steps_ownable:
  assumes "owned_steps env cr cfg = Some steps"
  shows "list_all (\<lambda>(_, obj). ownable cr obj) steps"
  using assms
  by (auto simp: owned_steps_def renderConfigMap_def renderDeployment_def renderServiceAccount_def
      renderPodDisruptionBudget_def renderService_def owned_meta_def ownable_def split: bind_splits)

context controller_reference
begin

lemma reconcile_objects:
  assumes "en_SetControllerReference env = setref" and "en_Get env req = Found cr"
    and "obj \<in> set (applied_objects (snd (Reconcile env r req)))"
  shows "\<exists>steps st. owned_steps env cr (rc_PodDefaults r) = Some steps \<and> st \<in> set steps \<and>
    obj = with_owner (ref cr) (snd st)"
proof -
  obtain steps where steps: "ra_DeletionTimestamp cr = None" "owned_steps env cr (rc_PodDefaults r) = Some steps"
    using assms(2,3) by (auto simp: Reconcile_def split: if_splits option.splits)
  obtain applyErr effs where run: "apply_steps env cr steps = (applyErr, effs)" by (cases "apply_steps env cr steps")
  have "obj \<in> set (applied_objects effs)"
    using assms(3) Reconcile_live [OF assms(2) steps run refl] by simp
  moreover obtain sent where "effs = step_effects env cr sent" "set sent \<subseteq> set steps"
  proof (cases rule: apply_steps_cases [of env cr steps])
    case ok
    with run show ?thesis by (intro that [of steps]) (simp_all add: apply_steps_ok)
  next
    case (fail pre name obj post err)
    with run show ?thesis by (intro that [of "pre @ [(name, obj)]"]) (auto simp: apply_steps_fail)
  qed
  ultimately show ?thesis
    using step_effects_objects(1) [OF assms(1), of cr sent] owned_steps_ownable [OF steps(2)] steps(2)
    by (fastforce simp: list_all_iff)
qed

end


section \<open>Lemmas: the status pass\<close>

text \<open>Conditions read back from the API server may carry transition times of another precision.\<close>

definition only_times :: "(condition \<Rightarrow> condition) \<Rightarrow> bool" where
  "only_times f \<longleftrightarrow> (\<forall>c. \<exists>t. f c = c\<lparr>cond_lastTransitionTime := t\<rparr>)"

lemma only_times_simps:
  assumes "only_times f"
  shows "cond_type (f c) = cond_type c" "cond_status (f c) = cond_status c"
    "cond_message (f c) = cond_message c" "cond_reason (f c) = cond_reason c"
    "cond_observedGeneration (f c) = cond_observedGeneration c"
    "(f c)\<lparr>cond_lastTransitionTime := 0\<rparr> = c\<lparr>cond_lastTransitionTime := 0\<rparr>"
proof -
  obtain t where "f c = c\<lparr>cond_lastTransitionTime := t\<rparr>" using assms by (auto simp: only_times_def)
  then show "cond_type (f c) = cond_type c" "cond_status (f c) = cond_status c"
    "cond_message (f c) = cond_message c" "cond_reason (f c) = cond_reason c"
    "cond_observedGeneration (f c) = cond_observedGeneration c"
    "(f c)\<lparr>cond_lastTransitionTime := 0\<rparr> = c\<lparr>cond_lastTransitionTime := 0\<rparr>" by simp_all
qed

lemma find_cond_map:
  "only_times f \<Longrightarrow> find_cond t (map f cs) = map_option f (find_cond t cs)"
  by (induction cs) (auto simp: only_times_simps)

definition read_back :: "(condition \<Rightarrow> condition) \<Rightarrow> remote_app_status \<Rightarrow> remote_app_status" where
  "read_back f s = s\<lparr>st_Conditions := map f (st_Conditions s)\<rparr>"

lemma strip_read_back: "only_times f \<Longrightarrow> strip_times (read_back f s) = strip_times s"
  by (simp add: strip_times_def read_back_def only_times_simps)

text \<open>A pass computes the status from everything but the status.\<close>

lemma computeStatus_ignores_status:
  "computeStatus ops clock (cr\<lparr>ra_Status := x\<rparr>) pods prev e v = computeStatus ops clock cr pods prev e v"
proof -
  have "wants (cr\<lparr>ra_Status := x\<rparr>) pods e v = wants cr pods e v"
    "upstreamCondition (cr\<lparr>ra_Status := x\<rparr>) v = upstreamCondition cr v"
    "ready_part (cr\<lparr>ra_Status := x\<rparr>) a b c = ready_part cr a b c" for a b c
    by (cases v; simp add: wants_def upstreamCondition_def ready_part_def verified_want_def
        reconciled_condition_def)+
  then show ?thesis by (simp add: computeStatus_eq)
qed

lemma recompute_read_back:
  assumes "condition_meta ops" and "only_times f"
    and "computeStatus ops clock cr pods prev e v = Some s"
  shows "computeStatus ops clock' cr pods (st_Conditions (read_back f s)) e v = Some (read_back f s)"
proof -
  let ?ws = "wants cr pods e v"
  have conds: "st_Conditions s = fold (update_condition ops clock) ?ws prev"
    using assms(3) by (auto simp: computeStatus_eq)
  have "fold (update_condition ops clock') ?ws (map f (st_Conditions s)) = map f (st_Conditions s)"
  proof (rule condition_meta.updates_again [OF assms(1) wants_wf])
    fix t w assume "(t, w) \<in> set ?ws"
    then have "map_of ?ws t = Some w"
      using wants_wf [of cr pods e v] by (simp add: well_formed_wants_def map_of_is_SomeI)
    then have found: "find_cond t (st_Conditions s) = map_option (stamp (clock t) (find_cond t prev)) w"
      by (simp add: conds condition_meta.find_updates [OF assms(1) wants_wf])
    have "\<exists>t'. f (stamp n old c) = stamp t' None c" for n old c
    proof -
      obtain t' where "f (stamp n old c) = (stamp n old c)\<lparr>cond_lastTransitionTime := t'\<rparr>"
        using assms(2) by (auto simp: only_times_def)
      then show ?thesis by (auto simp: stamp_def intro: exI [of _ t'])
    qed
    then show "\<exists>t' old. find_cond t (map f (st_Conditions s)) = map_option (stamp t' old) w"
      using found by (cases w) (simp_all add: find_cond_map [OF assms(2)], blast)
  qed
  with assms(3) show ?thesis by (auto simp: computeStatus_eq read_back_def)
qed

text \<open>
  A status that differs from the one just computed in transition times only is the one every
  later pass over the same inputs computes.
\<close>

lemma equal_status_recomputed:
  assumes "condition_meta ops" and "computeStatus ops clock cr pods (st_Conditions st) e v = Some s"
    and "strip_times st = strip_times s"
  shows "computeStatus ops clock' cr pods (st_Conditions st) e v = Some st"
proof -
  let ?ws = "wants cr pods e v" and ?z = "\<lambda>c. c\<lparr>cond_lastTransitionTime := 0 :: go_time\<rparr>"
  have conds: "st_Conditions s = fold (update_condition ops clock) ?ws (st_Conditions st)"
    using assms(2) by (auto simp: computeStatus_eq)
  have strip: "only_times ?z" by (auto simp: only_times_def)
  have maps: "map ?z (st_Conditions st) = map ?z (st_Conditions s)" and rest: "st_Ready st = st_Ready s"
    "st_LastError st = st_LastError s" "st_ObservedGeneration st = st_ObservedGeneration s"
    using arg_cong [OF assms(3), of st_Conditions] arg_cong [OF assms(3), of st_Ready]
      arg_cong [OF assms(3), of st_LastError] arg_cong [OF assms(3), of st_ObservedGeneration]
    by (simp_all add: strip_times_def)
  have "fold (update_condition ops clock') ?ws (st_Conditions st) = st_Conditions st"
  proof (rule condition_meta.updates_again [OF assms(1) wants_wf])
    fix t w assume "(t, w) \<in> set ?ws"
    then have "map_of ?ws t = Some w"
      using wants_wf [of cr pods e v] by (simp add: well_formed_wants_def map_of_is_SomeI)
    then have "find_cond t (st_Conditions s) =
        map_option (stamp (clock t) (find_cond t (st_Conditions st))) w"
      by (simp add: conds condition_meta.find_updates [OF assms(1) wants_wf])
    then have found: "map_option ?z (find_cond t (st_Conditions st)) =
        map_option ?z (map_option (stamp (clock t) (find_cond t (st_Conditions st))) w)"
      using arg_cong [OF maps, of "find_cond t"] by (simp add: find_cond_map [OF strip])
    have "d = stamp (cond_lastTransitionTime d) None c" if "?z d = ?z (stamp n old c)" for d n old c
      using that by (cases d; cases c) (simp add: stamp_def split: option.splits if_splits)
    then show "\<exists>t' old. find_cond t (st_Conditions st) = map_option (stamp t' old) w"
      using found by (cases w; cases "find_cond t (st_Conditions st)") (simp_all, blast)
  qed
  then show ?thesis using assms(2) rest by (cases st) (auto simp: computeStatus_eq)
qed

text \<open>What the pass relies on of \<open>equality.Semantic.DeepEqual\<close>.\<close>

locale deep_equality =
  fixes deepEqual :: "remote_app_status \<Rightarrow> remote_app_status \<Rightarrow> bool"
  assumes deepEqual_iff: "deepEqual a b \<longleftrightarrow> a = b"
begin

lemma statusEqual_iff: "statusEqual deepEqual (Some a) (Some b) \<longleftrightarrow> strip_times a = strip_times b"
  by (simp add: statusEqual_def deepEqual_iff)

lemma statusEqual_refl: "statusEqual deepEqual a a"
  by (simp add: statusEqual_def deepEqual_iff split: option.split)

lemma statusEqual_trans:
  "statusEqual deepEqual a b \<Longrightarrow> statusEqual deepEqual b c \<Longrightarrow> statusEqual deepEqual a c"
  by (auto simp: statusEqual_def deepEqual_iff split: option.splits)

end

interpretation record_equality: deep_equality "(=)"
  by unfold_locales simp


section \<open>Outages and Events\<close>

text \<open>
  The verifier and the reconciler together: after every round one status pass, which reads
  the status as the API server stored it. A turn is such a pair, with its two clock
  readings; the RemoteApp's spec, its pods and the apply result may be anything.
\<close>

record turn =
  tn_time :: go_time
  tn_outcome :: round_outcome
  tn_clock :: go_time
  tn_cr :: remote_app
  tn_pods :: "pod list"
  tn_applyErr :: string

text \<open>The precision with which the API server keeps a transition time.\<close>

definition stored_cond :: "(go_time \<Rightarrow> go_time) \<Rightarrow> condition \<Rightarrow> condition" where
  "stored_cond g c = c\<lparr>cond_lastTransitionTime := g (cond_lastTransitionTime c)\<rparr>"

definition turn_step ::
  "rec_env \<Rightarrow> (go_time \<Rightarrow> go_time) \<Rightarrow> pod_defaults \<Rightarrow> verification_store \<times> remote_app_status \<Rightarrow> turn \<Rightarrow>
   (verification_store \<times> remote_app_status) \<times> k8s_event list" where
  "turn_step env g cfg st tn =
     (let store = apply_round (tn_time tn) (tn_outcome tn) (fst st);
          r = \<lparr>rc_PodDefaults = cfg, rc_Recorder = True, rc_Verifications = Some (store_reader store)\<rparr>;
          env' = env\<lparr>en_ListPods := (\<lambda>_ _. Inr (tn_pods tn)), en_PatchStatus := (\<lambda>_ _. None),
                     en_clock := (\<lambda>_. tn_clock tn)\<rparr>;
          effs = snd (reconcileStatus env' r ((tn_cr tn)\<lparr>ra_Status := snd st\<rparr>) (tn_applyErr tn));
          status = (case effs of
                      PatchStatusCall _ s # _ \<Rightarrow> read_back (stored_cond g) s | _ \<Rightarrow> snd st);
          events = concat (map (\<lambda>e. case e of EmitEvent ev \<Rightarrow> [ev] | _ \<Rightarrow> []) effs)
      in ((store, status), events))"

fun run_turns ::
  "rec_env \<Rightarrow> (go_time \<Rightarrow> go_time) \<Rightarrow> pod_defaults \<Rightarrow> verification_store \<times> remote_app_status \<Rightarrow> turn list \<Rightarrow>
   k8s_event list list" where
  "run_turns env g cfg st [] = []"
| "run_turns env g cfg st (tn # tns) =
     (case turn_step env g cfg st tn of (st', events) \<Rightarrow> events # run_turns env g cfg st' tns)"

text \<open>What a reader of the Events should see: one per boundary of an outage.\<close>

definition boundary :: "upstream_obs \<Rightarrow> go_time option \<Rightarrow> string list" where
  "boundary obs down =
     (case obs of
        Failed \<Rightarrow> if down = None then [EventTypeWarning] else []
      | Reached \<Rightarrow> if down \<noteq> None then [EventTypeNormal] else []
      | Skipped \<Rightarrow> [] | Gone \<Rightarrow> [])"

fun boundaries :: "namespaced_name \<Rightarrow> verification_store \<Rightarrow> turn list \<Rightarrow> string list list" where
  "boundaries k store [] = []"
| "boundaries k store (tn # tns) =
     boundary (round_obs k (tn_outcome tn)) (UpstreamDownSince store k) #
     boundaries k (apply_round (tn_time tn) (tn_outcome tn) store) tns"

text \<open>What the verifier only produces: a request is sent on verified sessions only.\<close>

definition consistent_outcome :: "verification \<Rightarrow> bool" where
  "consistent_outcome v \<longleftrightarrow>
     (up_Result (v_Upstream v) \<in> {UpstreamReachable, UpstreamUnreachable} \<longrightarrow> v_Result v = ResultVerified)"

definition consistent_round :: "round_outcome \<Rightarrow> bool" where
  "consistent_round r =
     (case r of BundleUnavailable \<Rightarrow> True | Outcomes m \<Rightarrow> list_all (\<lambda>(_, v). consistent_outcome v) m)"

text \<open>Rounds at least a second apart, each pass between its round and the next.\<close>

fun paced :: "go_time \<Rightarrow> go_time \<Rightarrow> turn list \<Rightarrow> bool" where
  "paced t c [] = True"
| "paced t c (tn # tns) \<longleftrightarrow>
     t + second \<le> tn_time tn \<and> c \<le> tn_time tn \<and> tn_time tn \<le> tn_clock tn \<and>
     paced (tn_time tn) (tn_clock tn) tns"

definition obs_status :: "upstream_obs \<Rightarrow> condition_status" where
  "obs_status obs =
     (case obs of Reached \<Rightarrow> ConditionTrue | Failed \<Rightarrow> ConditionFalse | _ \<Rightarrow> ConditionUnknown)"

lemma maps_copy_list_all:
  "list_all (\<lambda>(_, v). P v) src \<Longrightarrow> list_all (\<lambda>(_, v). P v) dst \<Longrightarrow> go_get (maps_copy dst src) k = Some v \<Longrightarrow> P v"
proof -
  assume src: "list_all (\<lambda>(_, v). P v) src" and dst: "list_all (\<lambda>(_, v). P v) dst"
    and get: "go_get (maps_copy dst src) k = Some v"
  have "\<forall>k v. go_get (maps_copy dst src) k = Some v \<longrightarrow> P v"
    using src dst
  proof (induction src arbitrary: dst)
    case Nil
    then show ?case by (auto simp: maps_copy_def list_all_iff dest: map_of_SomeD)
  next
    case (Cons x src)
    obtain k v where x: "x = (k, v)" by (cases x)
    have "list_all (\<lambda>(_, v). P v) (go_put k v dst)"
      using Cons.prems x by (induction dst) auto
    from Cons.IH [OF _ this] Cons.prems show ?case by (simp add: maps_copy_def x)
  qed
  with get show ?thesis by blast
qed

lemma consistent_status:
  "consistent_outcome v \<Longrightarrow>
     (if v_Result v = ResultVerified \<and> up_Result (v_Upstream v) = UpstreamReachable then ConditionTrue
      else if v_Result v = ResultVerified \<and> up_Result (v_Upstream v) = UpstreamUnreachable
      then ConditionFalse else ConditionUnknown) =
     obs_status (if up_Result (v_Upstream v) = UpstreamReachable then Reached
      else if up_Result (v_Upstream v) = UpstreamUnreachable then Failed else Skipped)"
  by (cases "up_Result (v_Upstream v) = UpstreamReachable";
      cases "up_Result (v_Upstream v) = UpstreamUnreachable")
    (simp_all add: obs_status_def consistent_outcome_def)

lemma upstream_status_obs:
  assumes "consistent_round r"
  shows "fst (upstream_body (store_reader (apply_round t r s)) k) = obs_status (round_obs k r)"
proof (cases r)
  case BundleUnavailable
  then show ?thesis
    by (simp add: upstream_body_status store_reader_def apply_round_def round_obs_def obs_status_def)
next
  case (Outcomes m)
  have res: "rd_Result (store_reader (apply_round t r s)) k = go_get (maps_copy [] m) k"
    by (simp add: Outcomes store_reader_def apply_round_def Result_Replace)
  show ?thesis
  proof (cases "go_get (maps_copy [] m) k")
    case None
    then show ?thesis
      using res by (simp add: Outcomes upstream_body_status round_obs_def obs_status_def obs_of_def)
  next
    case (Some v)
    then have "consistent_outcome v"
      using maps_copy_list_all [of consistent_outcome m "[]" k v] assms
      by (simp add: consistent_round_def Outcomes)
    moreover have "fst (upstream_body (store_reader (apply_round t r s)) k) =
        (if v_Result v = ResultVerified \<and> up_Result (v_Upstream v) = UpstreamReachable then ConditionTrue
         else if v_Result v = ResultVerified \<and> up_Result (v_Upstream v) = UpstreamUnreachable
         then ConditionFalse else ConditionUnknown)"
      by (simp only: upstream_body_status res Some option.case)
    moreover have "round_obs k r =
        (if up_Result (v_Upstream v) = UpstreamReachable then Reached
         else if up_Result (v_Upstream v) = UpstreamUnreachable then Failed else Skipped)"
      by (simp only: round_obs_def Outcomes round_outcome.case Some obs_of_def option.case)
    ultimately show ?thesis
      by (simp only: consistent_status)
  qed
qed

text \<open>The types of the Events of one pass, from what the decision looks at.\<close>

definition event_types ::
  "condition option \<Rightarrow> condition_status \<Rightarrow> go_time option \<Rightarrow> go_time option \<Rightarrow> string list" where
  "event_types prev st down recovered =
     (if (case prev of Some p \<Rightarrow> cond_status p | None \<Rightarrow> ConditionUnknown) = st then []
      else (case st of
              ConditionFalse \<Rightarrow>
                if (case (prev, down) of
                      (Some p, Some d) \<Rightarrow> cond_status p = ConditionUnknown \<and> d < cond_lastTransitionTime p
                    | _ \<Rightarrow> False) then [] else [EventTypeWarning]
            | ConditionTrue \<Rightarrow>
                (case recovered of
                   None \<Rightarrow> []
                 | Some rt \<Rightarrow> if (case prev of Some p \<Rightarrow> rt < cond_lastTransitionTime p | None \<Rightarrow> False)
                              then [] else [EventTypeNormal])
            | ConditionUnknown \<Rightarrow> []))"

lemma record_one:
  assumes "ev \<in> set (recordUpstreamTransition ops r cr before after)"
  shows "\<exists>c. FindStatusCondition ops after ConditionTypeUpstreamReachable = Some c \<and>
    recordUpstreamTransition ops r cr before after = [ev] \<and>
    ev_Note ev = cond_message c \<and> ev_Regarding ev = ra_key cr"
proof -
  obtain rd where r: "rc_Recorder r" "rc_Verifications r = Some rd"
    using assms by (cases "rc_Recorder r"; cases "rc_Verifications r")
      (auto simp: recordUpstreamTransition_def)
  obtain c where c: "FindStatusCondition ops after ConditionTypeUpstreamReachable = Some c"
    using assms by (cases "FindStatusCondition ops after ConditionTypeUpstreamReachable")
      (auto simp: recordUpstreamTransition_def r)
  have "recordUpstreamTransition ops r cr before after \<in>
      {[], [upstream_event cr EventTypeWarning reasonUpstreamUnreachable c],
           [upstream_event cr EventTypeNormal reasonUpstreamReachable c]}"
    by (cases "FindStatusCondition ops before ConditionTypeUpstreamReachable"; cases "cond_status c";
        cases "rd_UpstreamDownSince rd (ra_key cr)"; cases "rd_UpstreamRecoveredAt rd (ra_key cr)")
      (simp_all add: recordUpstreamTransition_def r c Let_def)
  with assms c show ?thesis by (auto simp: upstream_event_def)
qed

lemma record_event_types:
  assumes "rc_Recorder r" "rc_Verifications r = Some rd"
    and "FindStatusCondition ops after ConditionTypeUpstreamReachable = Some c"
  shows "map ev_Type (recordUpstreamTransition ops r cr before after) =
    event_types (FindStatusCondition ops before ConditionTypeUpstreamReachable) (cond_status c)
      (rd_UpstreamDownSince rd (ra_key cr)) (rd_UpstreamRecoveredAt rd (ra_key cr))"
  using assms
  by (cases "FindStatusCondition ops before ConditionTypeUpstreamReachable"; cases "cond_status c";
      cases "rd_UpstreamDownSince rd (ra_key cr)"; cases "rd_UpstreamRecoveredAt rd (ra_key cr)")
    (simp_all add: recordUpstreamTransition_def event_types_def upstream_event_def Let_def)

locale time_precision =
  fixes g :: "go_time \<Rightarrow> go_time"
  assumes below: "g t \<le> t"
    and within: "t < g t + second"
    and idem: "g (g t) = g t"
begin

text \<open>
  What ties the condition to the store between two turns: an open outage was reported, as
  False or, after it, Unknown; a recovery precedes any Unknown; no time stamp is ahead.
\<close>

definition tracked ::
  "go_time \<Rightarrow> go_time \<Rightarrow> go_time option \<Rightarrow> go_time option \<Rightarrow> condition option \<Rightarrow> bool" where
  "tracked tlast now down rec prev \<longleftrightarrow>
     (\<forall>d. down = Some d \<longrightarrow> d \<le> tlast \<and> (\<exists>p. prev = Some p \<and>
        (cond_status p = ConditionFalse \<or>
         cond_status p = ConditionUnknown \<and> d < cond_lastTransitionTime p))) \<and>
     (down = None \<longrightarrow> (\<forall>p. prev = Some p \<longrightarrow> cond_status p \<noteq> ConditionFalse)) \<and>
     (\<forall>rt. rec = Some rt \<longrightarrow> rt \<le> tlast \<and> (\<exists>p. prev = Some p \<and>
        (cond_status p = ConditionUnknown \<longrightarrow> rt < cond_lastTransitionTime p))) \<and>
     (\<forall>p. prev = Some p \<longrightarrow> g (cond_lastTransitionTime p) = cond_lastTransitionTime p \<and>
        cond_lastTransitionTime p \<le> now)"

definition next_time :: "condition option \<Rightarrow> condition_status \<Rightarrow> go_time \<Rightarrow> go_time" where
  "next_time prev st c =
     (case prev of
        Some p \<Rightarrow> if cond_status p = st then cond_lastTransitionTime p else g c
      | None \<Rightarrow> g c)"

lemma next_time_ok:
  assumes "tracked tlast now down rec prev" and "now \<le> t" and "t \<le> c"
  shows "g (next_time prev st c) = next_time prev st c" "next_time prev st c \<le> c"
  using assms below [of c] idem [of c]
  by (auto simp: next_time_def tracked_def split: option.split)

lemma tracked_step:
  assumes tr: "tracked tlast now down rec prev"
    and times: "tlast + second \<le> t" "now \<le> t" "t \<le> c"
    and down': "down' = (case obs of Reached \<Rightarrow> None
        | Failed \<Rightarrow> Some (case down of Some t0 \<Rightarrow> t0 | None \<Rightarrow> t) | Skipped \<Rightarrow> down | Gone \<Rightarrow> None)"
    and rec': "rec' = (case obs of Reached \<Rightarrow> (if down \<noteq> None then Some t else rec)
        | Failed \<Rightarrow> rec | Skipped \<Rightarrow> rec | Gone \<Rightarrow> None)"
    and p': "cond_status p' = obs_status obs" "cond_lastTransitionTime p' = next_time prev (obs_status obs) c"
  shows "event_types prev (obs_status obs) down' rec' = boundary obs down"
    and "tracked t c down' rec' (Some p')"
proof -
  have late: "tlast < g c" using within [of c] times by simp
  have sec: "0 < second" by (simp add: second_def)
  have stamps: "d \<le> tlast" if "down = Some d" for d using that tr by (simp add: tracked_def)
  have recs: "rt \<le> tlast" if "rec = Some rt" for rt using that tr by (simp add: tracked_def)
  note prevs = tr [unfolded tracked_def]
  show "event_types prev (obs_status obs) down' rec' = boundary obs down"
    using prevs times sec
    by (cases obs; cases prev; cases down; cases rec)
      (auto simp: event_types_def boundary_def obs_status_def down' rec',
        metis condition_status.exhaust)
  have "g (cond_lastTransitionTime p') = cond_lastTransitionTime p'" "cond_lastTransitionTime p' \<le> c"
    using next_time_ok [OF tr times(2,3)] p'(2) by simp_all
  moreover have "cond_status p' \<noteq> ConditionFalse" if "down' = None"
    using that p'(1) down' prevs by (cases obs) (auto simp: obs_status_def)
  moreover have "d \<le> t \<and> (cond_status p' = ConditionFalse \<or>
      cond_status p' = ConditionUnknown \<and> d < cond_lastTransitionTime p')" if "down' = Some d" for d
    using that p' down' prevs stamps late times sec
    by (cases obs; cases down) (auto simp: obs_status_def next_time_def split: option.split)
  moreover have "rt \<le> t \<and> (cond_status p' = ConditionUnknown \<longrightarrow> rt < cond_lastTransitionTime p')"
    if "rec' = Some rt" for rt
    using that p' rec' prevs recs late times sec
    by (cases obs; cases rec) (auto simp: obs_status_def next_time_def split: option.split if_splits)
  ultimately show "tracked t c down' rec' (Some p')"
    by (auto simp: tracked_def)
qed

end

interpretation seconds: time_precision truncate_second
proof
  fix t :: go_time
  have "0 \<le> t mod 1000000000" "t mod 1000000000 < 1000000000" by simp_all
  then show "truncate_second t \<le> t" "t < truncate_second t + second"
    by (simp_all add: truncate_second_def second_def)
  show "truncate_second (truncate_second t) = truncate_second t"
    by (simp add: truncate_second_def minus_mod_eq_mult_div)
qed

lemma only_times_stored [simp]: "only_times (stored_cond g)"
  by (auto simp: only_times_def stored_cond_def)

lemma strip_times_find:
  assumes "strip_times a = strip_times b" and "find_cond t (st_Conditions b) = Some c"
  shows "\<exists>p. find_cond t (st_Conditions a) = Some p \<and> cond_status p = cond_status c \<and>
    cond_reason p = cond_reason c \<and> cond_message p = cond_message c"
proof -
  let ?z = "\<lambda>c. c\<lparr>cond_lastTransitionTime := 0\<rparr>"
  have "only_times ?z" by (auto simp: only_times_def)
  note find = find_cond_map [OF this]
  have "map ?z (st_Conditions a) = map ?z (st_Conditions b)"
    using assms(1) by (simp add: strip_times_def) (metis remote_app_status.select_convs(4) remote_app_status.surjective remote_app_status.update_convs(4))
  then have "map_option ?z (find_cond t (st_Conditions a)) = Some (?z c)"
    using find [of t "st_Conditions a"] find [of t "st_Conditions b"] assms(2) by simp
  then obtain p where p: "find_cond t (st_Conditions a) = Some p" "?z p = ?z c" by auto
  have "cond_status p = cond_status c" "cond_reason p = cond_reason c" "cond_message p = cond_message c"
    using arg_cong [OF p(2), of cond_status] arg_cong [OF p(2), of cond_reason]
      arg_cong [OF p(2), of cond_message] by simp_all
  with p(1) show ?thesis by blast
qed

text \<open>The status a list of effects sends, or, when it sends none, the stored one.\<close>

fun sent_status :: "remote_app \<Rightarrow> effect list \<Rightarrow> remote_app_status" where
  "sent_status cr [] = ra_Status cr"
| "sent_status cr (PatchStatusCall _ new # effs) = new"
| "sent_status cr (_ # effs) = sent_status cr effs"

lemma sent_after_steps: "sent_status cr (step_effects env cr' steps @ ys) = sent_status cr ys"
proof (induction steps)
  case (Cons st steps)
  have "sent_status cr (snd (applyOwned env cr' obj) @ zs) = sent_status cr zs" for obj zs
    by (auto simp: applyOwned_def split: sum.split)
  with Cons show ?case by (cases st) (simp add: step_effects_def)
qed (simp add: step_effects_def)

lemma sent_Reconciled:
  assumes "condition_meta (en_meta env)" and "deep_equality (en_DeepEqual env)"
    and "listTbotPods env cr = Inr pods"
  shows "\<exists>c. FindStatusCondition (en_meta env) (st_Conditions (sent_status cr (snd (reconcileStatus env r cr e))))
      ConditionTypeReconciled = Some c \<and>
    (cond_status c, cond_reason c, cond_message c) =
      (if e = '''' then (ConditionTrue, ''ReconcileSucceeded'', ''all owned objects applied'')
       else (ConditionFalse, ''ReconcileError'', e))"
proof -
  obtain new where new: "computeStatus (en_meta env) (en_clock env) cr pods (st_Conditions (ra_Status cr)) e
      (rc_Verifications r) = Some new" by (simp add: computeStatus_eq)
  let ?c = "stamp (en_clock env ConditionTypeReconciled)
      (find_cond ConditionTypeReconciled (st_Conditions (ra_Status cr))) (reconciled_condition cr e)"
  have found: "find_cond ConditionTypeReconciled (st_Conditions new) = Some ?c"
    using find_computed [OF assms(1) new, of ConditionTypeReconciled] by (simp add: condition_meta.find_eq [OF assms(1)])
  have fields: "(cond_status ?c, cond_reason ?c, cond_message ?c) =
      (if e = '''' then (ConditionTrue, ''ReconcileSucceeded'', ''all owned objects applied'')
       else (ConditionFalse, ''ReconcileError'', e))" by (simp add: reconciled_condition_def)
  show ?thesis
  proof (cases "statusEqual (en_DeepEqual env) (Some (ra_Status cr)) (Some new)")
    case True
    then have "sent_status cr (snd (reconcileStatus env r cr e)) = ra_Status cr"
      using assms(3) new by (simp add: reconcileStatus_def)
    moreover from True have "strip_times (ra_Status cr) = strip_times new"
      by (simp add: deep_equality.statusEqual_iff [OF assms(2)])
    ultimately show ?thesis
      using strip_times_find [OF _ found] fields by (auto simp: condition_meta.find_eq [OF assms(1)])
  next
    case False
    then have "sent_status cr (snd (reconcileStatus env r cr e)) = new"
      using assms(3) new by (simp add: reconcileStatus_def split: option.split)
    then show ?thesis using found fields by (simp add: condition_meta.find_eq [OF assms(1)])
  qed
qed

text \<open>
  One turn, by whether the computed status differs from the stored one; then the condition
  the status is computed with; then the types of the turn's Events and the condition it leaves.
\<close>

lemma turn_step_cases:
  assumes step: "turn_step env g cfg (s, status) tn = ((s', status'), evs)"
    and store: "store = apply_round (tn_time tn) (tn_outcome tn) s"
    and new: "computeStatus (en_meta env) (\<lambda>_. tn_clock tn) ((tn_cr tn)\<lparr>ra_Status := status\<rparr>) (tn_pods tn)
      (st_Conditions status) (tn_applyErr tn) (Some (store_reader store)) = Some new"
  obtains
    (same) "statusEqual (en_DeepEqual env) (Some status) (Some new)"
      "s' = store" "status' = status" "evs = []"
  | (changed) "s' = store" "status' = read_back (stored_cond g) new"
      "evs = recordUpstreamTransition (en_meta env)
         \<lparr>rc_PodDefaults = cfg, rc_Recorder = True, rc_Verifications = Some (store_reader store)\<rparr>
         ((tn_cr tn)\<lparr>ra_Status := status\<rparr>) (st_Conditions status) (st_Conditions new)"
  using step new unfolding store
  by (cases "statusEqual (en_DeepEqual env) (Some status) (Some new)")
    (auto simp: turn_step_def Let_def reconcileStatus_def listTbotPods_def comp_def)

lemma turn_condition:
  assumes meta: "condition_meta (en_meta env)"
    and on: "UpstreamProbeEnabled s" "Enabled s" and cons: "consistent_round (tn_outcome tn)"
    and key: "ra_key (tn_cr tn) = k"
    and store: "store = apply_round (tn_time tn) (tn_outcome tn) s"
    and new: "computeStatus (en_meta env) (\<lambda>_. tn_clock tn) ((tn_cr tn)\<lparr>ra_Status := status\<rparr>) (tn_pods tn)
      (st_Conditions status) (tn_applyErr tn) (Some (store_reader store)) = Some new"
  shows "\<exists>c0. find_cond ConditionTypeUpstreamReachable (st_Conditions new) =
      Some (stamp (tn_clock tn) (find_cond ConditionTypeUpstreamReachable (st_Conditions status)) c0) \<and>
    cond_status c0 = obs_status (round_obs k (tn_outcome tn))"
proof -
  let ?cr = "(tn_cr tn)\<lparr>ra_Status := status\<rparr>"
  let ?c0 = "mk_condition ConditionTypeUpstreamReachable (ra_Generation ?cr)
      (upstream_body (store_reader store) k)"
  have "ra_key ?cr = k" using key by simp
  then have "upstreamCondition ?cr (Some (store_reader store)) = Some ?c0"
    using on by (simp add: upstreamCondition_def store_reader_def store)
  then have "find_cond ConditionTypeUpstreamReachable (st_Conditions new) =
      Some (stamp (tn_clock tn) (find_cond ConditionTypeUpstreamReachable (st_Conditions status)) ?c0)"
    using find_computed [OF meta new, of ConditionTypeUpstreamReachable]
    by (simp add: condition_meta.find_eq [OF meta])
  moreover have "cond_status ?c0 = obs_status (round_obs k (tn_outcome tn))"
    using upstream_status_obs [OF cons, of "tn_time tn" s k] by (simp add: store)
  ultimately show ?thesis by blast
qed

lemma turn_step_effect:
  assumes meta: "condition_meta (en_meta env)" and eq: "deep_equality (en_DeepEqual env)"
    and prec: "time_precision g"
    and on: "UpstreamProbeEnabled s" "Enabled s" and cons: "consistent_round (tn_outcome tn)"
    and key: "ra_key (tn_cr tn) = k"
    and prev: "prev = find_cond ConditionTypeUpstreamReachable (st_Conditions status)"
      "\<forall>p. prev = Some p \<longrightarrow> g (cond_lastTransitionTime p) = cond_lastTransitionTime p"
    and step: "turn_step env g cfg (s, status) tn = ((s', status'), evs)"
  shows "s' = apply_round (tn_time tn) (tn_outcome tn) s \<and>
    map ev_Type evs = event_types prev (obs_status (round_obs k (tn_outcome tn)))
      (UpstreamDownSince s' k) (UpstreamRecoveredAt s' k) \<and>
    (\<exists>p'. find_cond ConditionTypeUpstreamReachable (st_Conditions status') = Some p' \<and>
       cond_status p' = obs_status (round_obs k (tn_outcome tn)) \<and>
       cond_lastTransitionTime p' =
         time_precision.next_time g prev (obs_status (round_obs k (tn_outcome tn))) (tn_clock tn))"
proof -
  define store where "store = apply_round (tn_time tn) (tn_outcome tn) s"
  let ?S = "obs_status (round_obs k (tn_outcome tn))"
  obtain new where new: "computeStatus (en_meta env) (\<lambda>_. tn_clock tn) ((tn_cr tn)\<lparr>ra_Status := status\<rparr>)
      (tn_pods tn) (st_Conditions status) (tn_applyErr tn) (Some (store_reader store)) = Some new"
    by (simp add: computeStatus_eq)
  from turn_condition [OF meta on cons key store_def new] obtain c0 where
    find: "find_cond ConditionTypeUpstreamReachable (st_Conditions new) = Some (stamp (tn_clock tn) prev c0)"
    and S: "cond_status c0 = ?S" unfolding prev(1) by blast
  from step store_def new show ?thesis
  proof (cases rule: turn_step_cases)
    case same
    from same(1) have "strip_times status = strip_times new"
      by (simp add: deep_equality.statusEqual_iff [OF eq])
    from strip_times_find [OF this find] S obtain p
      where p: "prev = Some p" "cond_status p = ?S" unfolding prev(1) by auto
    then show ?thesis
      using same prev(1) by (simp add: event_types_def time_precision.next_time_def [OF prec] store_def)
  next
    case changed
    have "map ev_Type evs = event_types prev ?S (UpstreamDownSince store k) (UpstreamRecoveredAt store k)"
      unfolding changed(3)
      using record_event_types [of _ "store_reader store" "en_meta env" "st_Conditions new"] find S key prev(1)
      by (simp add: condition_meta.find_eq [OF meta] store_reader_def)
    moreover have "cond_lastTransitionTime (stored_cond g (stamp (tn_clock tn) prev c0)) =
        time_precision.next_time g prev ?S (tn_clock tn)"
      using prev(2) S by (auto simp: stored_cond_def stamp_def time_precision.next_time_def [OF prec]
          split: option.split)
    ultimately show ?thesis
      using changed(1,2) find S by (auto simp: stored_cond_def store_def read_back_def find_cond_map)
  qed
qed

lemma run_turns_events:
  assumes meta: "condition_meta (en_meta env)" and eq: "deep_equality (en_DeepEqual env)"
    and prec: "time_precision g"
    and "UpstreamProbeEnabled s" "Enabled s"
    and "list_all (\<lambda>tn. consistent_round (tn_outcome tn) \<and> ra_key (tn_cr tn) = k) turns"
    and "paced tlast now turns"
    and "time_precision.tracked g tlast now (UpstreamDownSince s k) (UpstreamRecoveredAt s k)
      (find_cond ConditionTypeUpstreamReachable (st_Conditions status))"
  shows "map (map ev_Type) (run_turns env g cfg (s, status) turns) = boundaries k s turns"
  using assms(4-8)
proof (induction turns arbitrary: s status tlast now)
  case (Cons tn turns)
  obtain s' status' evs where step: "turn_step env g cfg (s, status) tn = ((s', status'), evs)"
    by (metis prod.exhaust)
  let ?prev = "find_cond ConditionTypeUpstreamReachable (st_Conditions status)"
  let ?obs = "round_obs k (tn_outcome tn)"
  have tr: "time_precision.tracked g tlast now (UpstreamDownSince s k) (UpstreamRecoveredAt s k) ?prev"
    by (rule Cons.prems(5))
  then have fixed: "\<forall>p. ?prev = Some p \<longrightarrow> g (cond_lastTransitionTime p) = cond_lastTransitionTime p"
    by (simp add: time_precision.tracked_def [OF prec])
  have "consistent_round (tn_outcome tn)" "ra_key (tn_cr tn) = k" using Cons.prems(3) by auto
  from turn_step_effect [OF meta eq prec Cons.prems(1,2) this refl fixed step] obtain p' where
    s': "s' = apply_round (tn_time tn) (tn_outcome tn) s"
    and evs: "map ev_Type evs = event_types ?prev (obs_status ?obs) (UpstreamDownSince s' k) (UpstreamRecoveredAt s' k)"
    and p': "find_cond ConditionTypeUpstreamReachable (st_Conditions status') = Some p'"
      "cond_status p' = obs_status ?obs"
      "cond_lastTransitionTime p' = time_precision.next_time g ?prev (obs_status ?obs) (tn_clock tn)"
    by blast
  have times: "tlast + second \<le> tn_time tn" "now \<le> tn_time tn" "tn_time tn \<le> tn_clock tn"
    and paced: "paced (tn_time tn) (tn_clock tn) turns"
    using Cons.prems(4) by auto
  note next_step = time_precision.tracked_step [OF prec tr times
      tracker.down_round [where k = k and t = "tn_time tn" and r = "tn_outcome tn" and s = s]
      tracker.recovered_round p'(2,3)]
  have "map (map ev_Type) (run_turns env g cfg (s', status') turns) = boundaries k s' turns"
    using Cons.prems(1-3) next_step(2) paced p'(1)
    by (intro Cons.IH) (auto simp: s')
  with next_step(1) evs show ?case by (simp add: step s')
qed simp


section \<open>Properties\<close>

text \<open>C1. Events mark the boundaries of outages, exactly: in any run of rounds, each followed by a
  status pass, of a RemoteApp that starts without an UpstreamReachable condition, a turn
  emits one Warning when its round opens an outage, one Normal when its round closes one,
  and nothing otherwise. In particular pod rolls in the middle of an outage, lost trust
  bundles and repeated failures stay silent. The helpers of apimachinery are as documented,
  transition times are read back with up to a second cut off, and rounds are at least a
  second apart.\<close>

theorem events_mark_outages:
  assumes "condition_meta (en_meta env)" and "deep_equality (en_DeepEqual env)"
    and "time_precision g"
    and "find_cond ConditionTypeUpstreamReachable (st_Conditions status) = None"
    and "list_all (\<lambda>tn. consistent_round (tn_outcome tn) \<and> ra_key (tn_cr tn) = k) turns"
    and "paced tlast now turns"
  shows "map (map ev_Type) (run_turns env g cfg (NewVerificationStore True True, status) turns) =
    boundaries k (NewVerificationStore True True) turns"
  using assms
  by (intro run_turns_events [OF assms(1-3)]) (auto simp: time_precision.tracked_def)

definition example_turn :: "go_time \<Rightarrow> round_outcome \<Rightarrow> turn" where
  "example_turn t r =
     \<lparr>tn_time = t, tn_outcome = r, tn_clock = t, tn_cr = example_cr, tn_pods = example_pods,
      tn_applyErr = ''''\<rparr>"

definition example_rec_env :: rec_env where
  "example_rec_env =
     \<lparr>en_Get = (\<lambda>_. Found example_cr), en_SetControllerReference =
        documented_reference ''access.giantswarm.io/v1alpha1'' ''RemoteApp'',
      en_ToUnstructured = (\<lambda>_. Inr (ObjValue [])), en_Apply = (\<lambda>_. None),
      en_ListPods = (\<lambda>_ _. Inr example_pods), en_PatchStatus = (\<lambda>_ _. None), en_DeepEqual = (=),
      en_meta = documented_meta, en_render = example_ops, en_clock = (\<lambda>_. 7)\<rparr>"

definition example_turns :: "turn list" where
  "example_turns =
     [example_turn (2 * second) (Outcomes (example_result ResultVerified UpstreamUnreachable)),
      example_turn (4 * second) BundleUnavailable,
      example_turn (6 * second) (Outcomes (example_result ResultVerified UpstreamUnreachable)),
      example_turn (8 * second) (Outcomes (example_result ResultVerified UpstreamReachable))]"

theorem events_mark_outages_witness:
  "map (map ev_Type) (run_turns example_rec_env truncate_second example_defaults
     (NewVerificationStore True True, ra_Status example_cr) example_turns) =
   [[EventTypeWarning], [], [], [EventTypeNormal]]"
proof -
  have meta: "condition_meta (en_meta example_rec_env)"
    unfolding example_rec_env_def by (simp add: documented.condition_meta_axioms)
  have eq: "deep_equality (en_DeepEqual example_rec_env)"
    unfolding example_rec_env_def by (simp add: record_equality.deep_equality_axioms)
  have key: "ra_Namespace example_cr = ''mcp''" "ra_Name example_cr = ''kube''"
    by (simp_all add: example_cr_def)
  have start: "find_cond ConditionTypeUpstreamReachable (st_Conditions (ra_Status example_cr)) = None"
    by (simp add: example_cr_def)
  have turns: "list_all (\<lambda>tn. consistent_round (tn_outcome tn) \<and>
      ra_key (tn_cr tn) = NamespacedName ''mcp'' ''kube'') example_turns" "paced 0 0 example_turns"
    by (simp_all add: example_turns_def example_turn_def key consistent_round_def second_def
        example_result_def consistent_outcome_def)
  have skipped: "round_obs k BundleUnavailable = Skipped" for k by (simp add: round_obs_def)
  have "boundaries (NamespacedName ''mcp'' ''kube'') (NewVerificationStore True True) example_turns =
      [[EventTypeWarning], [], [], [EventTypeNormal]]"
    by (simp add: example_turns_def example_turn_def boundary_def skipped tracker.down_round)
  then show ?thesis
    using events_mark_outages [OF meta eq seconds.time_precision_axioms start turns] by simp
qed

text \<open>C5. No hot loop: after a status pass whose patch was stored, with transition times of
  whatever precision, the next pass over the same pods, outcomes and apply result writes
  nothing and emits nothing; so do all later ones.\<close>

theorem no_hot_loop:
  assumes "condition_meta (en_meta env)" and "deep_equality (en_DeepEqual env)" and "only_times f"
    and "snd (reconcileStatus env r cr e) = PatchStatusCall cr' new # events"
    and "listTbotPods (env\<lparr>en_clock := clock'\<rparr>) (cr\<lparr>ra_Status := read_back f new\<rparr>) = listTbotPods env cr"
  shows "reconcileStatus (env\<lparr>en_clock := clock'\<rparr>) r (cr\<lparr>ra_Status := read_back f new\<rparr>) e =
    (Returned None, [])"
proof -
  obtain pods where pods: "listTbotPods env cr = Inr pods"
    and new: "computeStatus (en_meta env) (en_clock env) cr pods (st_Conditions (ra_Status cr)) e
      (rc_Verifications r) = Some new"
    using assms(4) by (auto simp: reconcileStatus_def Let_def split: sum.splits option.splits if_splits)
  have "computeStatus (en_meta env) clock' (cr\<lparr>ra_Status := read_back f new\<rparr>) pods
      (st_Conditions (read_back f new)) e (rc_Verifications r) = Some (read_back f new)"
    using recompute_read_back [OF assms(1,3) new, of clock'] by (simp add: computeStatus_ignores_status)
  then show ?thesis
    using assms(5) pods by (simp add: reconcileStatus_def deep_equality.statusEqual_refl [OF assms(2)])
qed

theorem no_hot_loop_witness:
  "\<exists>new. snd (reconcileStatus example_rec_env \<lparr>rc_PodDefaults = example_defaults, rc_Recorder = True,
      rc_Verifications = None\<rparr> example_cr '''') = [PatchStatusCall example_cr new] \<and>
    reconcileStatus (example_rec_env\<lparr>en_clock := (\<lambda>_. 99)\<rparr>) \<lparr>rc_PodDefaults = example_defaults,
      rc_Recorder = True, rc_Verifications = None\<rparr>
      (example_cr\<lparr>ra_Status := read_back (stored_cond truncate_second) new\<rparr>) '''' = (Returned None, [])"
proof -
  let ?r = "\<lparr>rc_PodDefaults = example_defaults, rc_Recorder = True, rc_Verifications = None\<rparr>"
  have meta: "condition_meta (en_meta example_rec_env)"
    unfolding example_rec_env_def by (simp add: documented.condition_meta_axioms)
  have eq: "deep_equality (en_DeepEqual example_rec_env)"
    unfolding example_rec_env_def by (simp add: record_equality.deep_equality_axioms)
  obtain new where new: "computeStatus documented_meta (\<lambda>_. 7) example_cr example_pods [] '''' None = Some new"
    by (simp add: computeStatus_eq)
  then have "st_ObservedGeneration new = 3" by (auto simp: computeStatus_eq example_cr_def)
  then have "strip_times (ra_Status example_cr) \<noteq> strip_times new"
    by (auto simp: strip_times_def example_cr_def dest: arg_cong [of _ _ st_ObservedGeneration])
  moreover have "st_Conditions (ra_Status example_cr) = []" by (simp add: example_cr_def)
  ultimately have "snd (reconcileStatus example_rec_env ?r example_cr '''') = [PatchStatusCall example_cr new]"
    using new by (simp add: reconcileStatus_def listTbotPods_def example_rec_env_def Let_def
        record_equality.statusEqual_iff recordUpstreamTransition_def)
  moreover from no_hot_loop [OF meta eq only_times_stored this, of "\<lambda>_. 99" truncate_second]
  have "reconcileStatus (example_rec_env\<lparr>en_clock := (\<lambda>_. 99)\<rparr>) ?r
      (example_cr\<lparr>ra_Status := read_back (stored_cond truncate_second) new\<rparr>) '''' = (Returned None, [])"
    by (simp add: listTbotPods_def example_rec_env_def)
  ultimately show ?thesis by blast
qed

text \<open>C15. A pass over a live RemoteApp whose objects apply sends the ServiceAccount, the
  ConfigMap, the Deployment, the PodDisruptionBudget and the Service, in this order, each
  under the RemoteApp's name and namespace and with the RemoteApp as its only owner; it
  returns the status pass's error, or success.\<close>

theorem Reconcile_applies_all:
  assumes "en_Get env req = Found cr" and "ra_DeletionTimestamp cr = None"
    and "owned_steps env cr (rc_PodDefaults r) = Some steps"
    and "list_all (step_ok env cr) steps"
    and "controller_reference (en_SetControllerReference env) ref"
  shows "map applied_kind (applied_objects (snd (Reconcile env r req))) =
      [''ServiceAccount'', ''ConfigMap'', ''Deployment'', ''PodDisruptionBudget'', ''Service''] \<and>
    list_all (\<lambda>obj. om_Name (ob_Meta obj) = ra_Name cr \<and> om_Namespace (ob_Meta obj) = ra_Namespace cr \<and>
        om_OwnerReferences (ob_Meta obj) = [ref cr])
      (applied_objects (snd (Reconcile env r req))) \<and>
    fst (Reconcile env r req) =
      (case fst (reconcileStatus env r cr '''') of
         Returned (Some err) \<Rightarrow> Returned (Some (wrap_error ''reconcile status'' err))
       | _ \<Rightarrow> Returned None)"
proof -
  note live = Reconcile_live [OF assms(1-3) apply_steps_ok [OF assms(4)] refl, simplified]
  have "applied_objects (snd (Reconcile env r req)) = map (with_owner (ref cr) \<circ> snd) steps"
    by (simp add: live controller_reference.step_effects_objects(2)
        [OF assms(5) refl owned_steps_ownable [OF assms(3)] assms(4)])
  moreover have "fst (Reconcile env r req) =
      (case fst (reconcileStatus env r cr '''') of
         Returned (Some err) \<Rightarrow> Returned (Some (wrap_error ''reconcile status'' err))
       | _ \<Rightarrow> Returned None)"
    by (simp add: live split: rec_result.split option.split)
  ultimately show ?thesis
    using owned_steps_kinds [OF assms(3)] by (auto simp: list_all_iff applied_kind_def comp_def)
qed

definition example_reconciler :: reconciler where
  "example_reconciler =
     \<lparr>rc_PodDefaults = example_defaults, rc_Recorder = True, rc_Verifications = Some example_reader\<rparr>"

lemma example_steps:
  "\<exists>steps. owned_steps example_rec_env example_cr (rc_PodDefaults example_reconciler) = Some steps"
  using example_deployment
  by (simp add: owned_steps_def example_rec_env_def example_reconciler_def renderConfigMap_def
      tbotConfig_def example_ops_def) (auto simp: example_ops_def)

lemma example_steps_ok:
  assumes "owned_steps example_rec_env example_cr cfg = Some steps"
  shows "list_all (step_ok example_rec_env example_cr) steps"
  by (rule documented_owner.steps_ok [OF _ owned_steps_ownable [OF assms]])
    (simp_all add: example_rec_env_def)

theorem Reconcile_applies_all_witness:
  "map applied_kind (applied_objects (snd (Reconcile example_rec_env example_reconciler (ra_key example_cr)))) =
     [''ServiceAccount'', ''ConfigMap'', ''Deployment'', ''PodDisruptionBudget'', ''Service'']"
proof -
  obtain steps where steps:
    "owned_steps example_rec_env example_cr (rc_PodDefaults example_reconciler) = Some steps"
    using example_steps by blast
  moreover have "ra_DeletionTimestamp example_cr = None" by (simp add: example_cr_def)
  moreover have "en_Get example_rec_env (ra_key example_cr) = Found example_cr"
    by (simp add: example_rec_env_def)
  moreover have "controller_reference (en_SetControllerReference example_rec_env)
      (reference_to ''access.giantswarm.io/v1alpha1'' ''RemoteApp'')"
    by (simp add: example_rec_env_def documented_owner.controller_reference_axioms)
  ultimately show ?thesis
    using Reconcile_applies_all [of example_rec_env "ra_key example_cr" example_cr example_reconciler steps]
      example_steps_ok [OF steps] by blast
qed

text \<open>C14. A pass whose first failing object is some step sends nothing after that object, still
  runs the status pass, and returns that error whatever the status pass does. When the pods
  can be listed, the status the pass sends, or the stored one when the pass sends none because
  it is already the same, has the condition Reconciled False with the reason ReconcileError
  and the text of that error as its message.\<close>

theorem Reconcile_first_failure:
  assumes "en_Get env req = Found cr" and "ra_DeletionTimestamp cr = None"
    and "owned_steps env cr (rc_PodDefaults r) = Some (pre @ (name, obj) # post)"
    and "list_all (step_ok env cr) pre" and "fst (applyOwned env cr obj) = Some err"
  shows "fst (Reconcile env r req) = Returned (Some (wrap_error (''reconcile '' @ name) err)) \<and>
    snd (Reconcile env r req) =
      step_effects env cr (pre @ [(name, obj)]) @
      snd (reconcileStatus env r cr (''reconcile '' @ name @ '': '' @ error_text err)) \<and>
    length (applied_objects (snd (Reconcile env r req))) \<le> Suc (length pre) \<and>
    (\<forall>pods. condition_meta (en_meta env) \<and> deep_equality (en_DeepEqual env) \<and> listTbotPods env cr = Inr pods \<longrightarrow>
      (\<exists>c. FindStatusCondition (en_meta env) (st_Conditions (sent_status cr (snd (Reconcile env r req))))
          ConditionTypeReconciled = Some c \<and>
        cond_status c = ConditionFalse \<and> cond_reason c = ''ReconcileError'' \<and>
        cond_message c = ''reconcile '' @ name @ '': '' @ error_text err))"
proof -
  let ?text = "''reconcile '' @ name @ '': '' @ error_text err"
  have run: "apply_steps env cr (pre @ (name, obj) # post) =
      (Some (wrap_error (''reconcile '' @ name) err), step_effects env cr (pre @ [(name, obj)]))"
    by (rule apply_steps_fail [OF assms(4,5)])
  have res: "Reconcile env r req = (Returned (Some (wrap_error (''reconcile '' @ name) err)),
      step_effects env cr (pre @ [(name, obj)]) @ snd (reconcileStatus env r cr ?text))"
    by (simp add: Reconcile_live [OF assms(1-3) run refl] split: rec_result.split option.split)
  have one: "length (applied_objects (snd (applyOwned env cr o'))) \<le> 1" for o'
    by (simp add: applyOwned_def applied_objects_def split: sum.split)
  have "length (applied_objects (step_effects env cr sts)) \<le> length sts" for sts
  proof (induction sts)
    case (Cons st sts)
    have "step_effects env cr (st # sts) = snd (applyOwned env cr (snd st)) @ step_effects env cr sts"
      by (cases st) (simp add: step_effects_def)
    with Cons one [of "snd st"] show ?case by simp
  qed (simp add: step_effects_def)
  from this [of "pre @ [(name, obj)]"]
  have "length (applied_objects (snd (Reconcile env r req))) \<le> Suc (length pre)" by (simp add: res)
  moreover have "sent_status cr (snd (Reconcile env r req)) = sent_status cr (snd (reconcileStatus env r cr ?text))"
    by (simp only: res snd_conv sent_after_steps)
  ultimately show ?thesis using res sent_Reconciled [of env cr _ r ?text] by auto
qed

theorem Reconcile_first_failure_witness:
  "fst (Reconcile (example_rec_env\<lparr>en_Apply := (\<lambda>_. Some (errors_new ''conflict''))\<rparr>)
     example_reconciler (ra_key example_cr)) =
   Returned (Some (wrap_error (''reconcile '' @ ''ServiceAccount'') (errors_new ''conflict''))) \<and>
   (\<exists>c. FindStatusCondition documented_meta (st_Conditions (sent_status example_cr
        (snd (Reconcile (example_rec_env\<lparr>en_Apply := (\<lambda>_. Some (errors_new ''conflict''))\<rparr>)
           example_reconciler (ra_key example_cr))))) ConditionTypeReconciled = Some c \<and>
      cond_status c = ConditionFalse \<and> cond_message c = ''reconcile ServiceAccount: conflict'')"
proof -
  let ?env = "example_rec_env\<lparr>en_Apply := (\<lambda>_. Some (errors_new ''conflict''))\<rparr>"
  let ?sa = "renderServiceAccount example_cr (rc_PodDefaults example_reconciler)"
  have "owned_steps ?env = owned_steps example_rec_env" by (simp add: owned_steps_def fun_eq_iff)
  then obtain post where "owned_steps ?env example_cr (rc_PodDefaults example_reconciler) =
      Some ([] @ (''ServiceAccount'', ?sa) # post)"
    using example_steps by (auto simp: owned_steps_def kindServiceAccount_def split: bind_splits)
  moreover have "ra_DeletionTimestamp example_cr = None" by (simp add: example_cr_def)
  moreover have "en_Get ?env (ra_key example_cr) = Found example_cr"
    "fst (applyOwned ?env example_cr ?sa) = Some (errors_new ''conflict'')"
    by (simp_all add: example_rec_env_def applyOwned_def setOwnerRef_def documented_owner.ownable_set
        ownable_def renderServiceAccount_def owned_meta_def)
  moreover have "condition_meta (en_meta ?env)" "deep_equality (en_DeepEqual ?env)" "en_meta ?env = documented_meta"
    by (simp_all add: example_rec_env_def documented.condition_meta_axioms record_equality.deep_equality_axioms)
  moreover have "listTbotPods ?env example_cr = Inr example_pods" "error_text (errors_new ''conflict'') = ''conflict''"
    by (simp_all add: example_rec_env_def listTbotPods_def errors_new_def)
  ultimately show ?thesis
    using Reconcile_first_failure [of ?env "ra_key example_cr" example_cr example_reconciler "[]"
        "''ServiceAccount''" ?sa post "errors_new ''conflict''"] by auto
qed

text \<open>C20. An Event never describes a state the RemoteApp does not show: a pass that emits one has
  patched the status before it, successfully, and the Event's note is the message of the
  patched UpstreamReachable condition.\<close>

theorem event_after_patch:
  assumes "EmitEvent ev \<in> set (snd (reconcileStatus env r cr e))"
  shows "\<exists>new rest c. snd (reconcileStatus env r cr e) = PatchStatusCall cr new # rest \<and>
    en_PatchStatus env cr new = None \<and> fst (reconcileStatus env r cr e) = Returned None \<and>
    FindStatusCondition (en_meta env) (st_Conditions new) ConditionTypeUpstreamReachable = Some c \<and>
    ev_Note ev = cond_message c \<and> ev_Regarding ev = ra_key cr \<and> rest = [EmitEvent ev]"
proof -
  obtain new where new: "snd (reconcileStatus env r cr e) = PatchStatusCall cr new #
      map EmitEvent (recordUpstreamTransition (en_meta env) r cr (st_Conditions (ra_Status cr)) (st_Conditions new))"
    "en_PatchStatus env cr new = None" "fst (reconcileStatus env r cr e) = Returned None"
    using assms by (auto simp: reconcileStatus_def Let_def split: sum.splits option.splits if_splits)
  have "ev \<in> set (recordUpstreamTransition (en_meta env) r cr (st_Conditions (ra_Status cr)) (st_Conditions new))"
    using assms new(1) by auto
  from record_one [OF this] new show ?thesis by auto
qed

theorem event_after_patch_witness:
  "\<exists>ev new. snd (reconcileStatus example_rec_env example_reconciler example_cr '''') =
     [PatchStatusCall example_cr new, EmitEvent ev] \<and> ev_Type ev = EventTypeWarning"
proof -
  obtain new where new: "computeStatus documented_meta (\<lambda>_. 7) example_cr example_pods [] ''''
      (Some example_reader) = Some new"
    by (simp add: computeStatus_eq)
  then have "st_ObservedGeneration new = 3" by (auto simp: computeStatus_eq example_cr_def)
  then have diff: "strip_times (ra_Status example_cr) \<noteq> strip_times new"
    by (auto simp: strip_times_def example_cr_def dest: arg_cong [of _ _ st_ObservedGeneration])
  have conds: "st_Conditions (ra_Status example_cr) = []" by (simp add: example_cr_def)
  let ?evs = "recordUpstreamTransition documented_meta example_reconciler example_cr [] (st_Conditions new)"
  have effs: "snd (reconcileStatus example_rec_env example_reconciler example_cr '''') =
      PatchStatusCall example_cr new # map EmitEvent ?evs"
    using new diff conds
    by (simp add: reconcileStatus_def listTbotPods_def example_rec_env_def Let_def
        record_equality.statusEqual_iff example_reconciler_def)
  obtain c where c: "FindStatusCondition documented_meta (st_Conditions new) ConditionTypeUpstreamReachable = Some c"
      "cond_status c = ConditionFalse"
    using cond_is_computed [OF documented.condition_meta_axioms new wants_lookup(2)]
    by (auto simp: cond_is_def upstreamCondition_def upstream_body_status example_reader_def
        example_outcome_def)
  have "map ev_Type ?evs = [EventTypeWarning]"
    using record_event_types [OF _ _ c(1), of example_reconciler example_reader example_cr "[]"] c(2)
    by (simp add: example_reconciler_def event_types_def documented.find_eq)
  then obtain ev where ev: "?evs = [ev]" "ev_Type ev = EventTypeWarning" by auto
  with effs have "EmitEvent ev \<in> set (snd (reconcileStatus example_rec_env example_reconciler example_cr ''''))"
    by simp
  from event_after_patch [OF this] ev(2) show ?thesis by auto
qed

text \<open>Pods are routed to the RemoteApp that selects them: a pod is among the pods a status
  pass asks for, by namespace and labels, exactly when the watch maps its events to that
  RemoteApp; a pod with the labels of a rendered template is.\<close>

theorem pod_routing:
  assumes "ra_Name cr \<noteq> ''''"
  shows "(pod_Namespace p = ra_Namespace cr \<and>
      selects [(LabelRole, LabelRoleValue), (LabelRemoteAppInstance, ra_Name cr)] (pod_Labels p) \<longleftrightarrow>
      mapPodToRemoteApp p = [ra_key cr]) \<and>
    (pod_Namespace p = ra_Namespace cr \<and>
      pod_Labels p = tpl_Labels (pod_template_of cr cfg hash l1 l2 l3) \<longrightarrow>
      mapPodToRemoteApp p = [ra_key cr])"
proof -
  have "selects [(LabelRole, LabelRoleValue), (LabelRemoteAppInstance, ra_Name cr)]
      (tpl_Labels (pod_template_of cr cfg hash l1 l2 l3))"
    by (simp add: selects_def pod_template_of_def)
  with pod_selected_iff [OF assms] show ?thesis by metis
qed

theorem pod_routing_witness:
  "mapPodToRemoteApp (example_pod ''b'' False) = [ra_key example_cr]"
proof -
  have "ra_Name example_cr \<noteq> ''''" by (simp add: example_cr_def)
  from pod_routing [OF this, of "example_pod ''b'' False"] show ?thesis
    by (simp add: selects_def example_pod_def) (simp add: example_cr_def)
qed

text \<open>The controller watches every kind it applies: whatever a pass sends to the API
  server is of a kind whose changes trigger a pass.\<close>

theorem applied_kinds_watched:
  assumes "owned_steps env cr cfg = Some steps"
  shows "set (map (Owns \<circ> applied_kind \<circ> snd) steps) = {w. w \<in> set (SetupWithManager ev) \<and> (\<exists>k. w = Owns k)}"
proof -
  have "map (applied_kind \<circ> snd) steps =
      [''ServiceAccount'', ''ConfigMap'', ''Deployment'', ''PodDisruptionBudget'', ''Service'']"
    using owned_steps_kinds [OF assms] by metis
  then have "map (Owns \<circ> applied_kind \<circ> snd) steps =
      map Owns [''ServiceAccount'', ''ConfigMap'', ''Deployment'', ''PodDisruptionBudget'', ''Service'']"
    by (metis comp_assoc map_map)
  then show ?thesis by (auto simp: SetupWithManager_def)
qed

theorem applied_kinds_watched_witness:
  "\<exists>steps. owned_steps example_rec_env example_cr (rc_PodDefaults example_reconciler) = Some steps \<and>
     set (map (Owns \<circ> applied_kind \<circ> snd) steps) \<subseteq> set (SetupWithManager True)"
proof -
  obtain steps where s: "owned_steps example_rec_env example_cr (rc_PodDefaults example_reconciler) = Some steps"
    using example_steps by blast
  from applied_kinds_watched [OF s, of True] s show ?thesis by blast
qed

end
