(* ===== verification/System.thy ===== *)
theory System
  imports Round Controller
begin

text \<open>
  The running operator: the reconciler, the verifier and the queues between them, on the
  objects of the API server.

  The state holds the RemoteApps with the status that is stored for them, the tunnel pods,
  the objects the operator applied as it applied them last, the verification store, the
  event channel, the watch events of applied objects that are on their way, and the
  controller's work queue. A step is a verification round, the move of an event from the
  channel to the work queue (\<open>source.Channel\<close>), the arrival of a watch event, one whole
  reconcile pass, a change of pods, RemoteApps or applied objects by others with the watch
  events it causes (\<open>SetupWithManager\<close>, \<open>mapPodToRemoteApp\<close>), or a spurious request. A pass is one step: the
  work queue never runs two passes for one key and keeps a request that arrives during a
  pass, so that what changes under a running pass is pending after it. A round is one step
  at the moment it publishes; that no RemoteApp is deleted and created anew between the
  round's list and its publication is an assumption of the model. A stored patch is itself
  a watch event for its RemoteApp, and so is an apply that changes the object
  (\<open>Owns\<close>, through the object's controller reference), so a pass that writes is followed by
  another one. That an apply of unchanged content changes nothing and is no event is what
  server-side apply documents.

  The lemmas show that a stored status is never wrong without a request pending for its
  RemoteApp, and that delivering the pending requests ends, since rendering reads neither the
  status nor what an earlier pass applied. They hold while rounds can load
  the trust bundle and the channel has room for one event per RemoteApp;
  \<open>bundle_loss_unnoticed\<close> shows that the first of the two is needed.
\<close>

section \<open>What the status pass reads of a store\<close>

text \<open>What the status pass reads of a store, and when it may change.\<close>

lemma upstream_body_unchanged:
  assumes "Result (apply_round t r s) k = Result s k"
  shows "upstream_body (store_reader (apply_round t r s)) k = upstream_body (store_reader s) k"
proof -
  have same: "upstream_body (store_reader s') k = upstream_body (store_reader s) k"
    if "Result s' k = Result s k" and "obs_of (Result s k) = Failed \<longrightarrow> LastUpstreamSuccess s' k = LastUpstreamSuccess s k" for s'
    using that by (cases "Result s k")
      (auto simp: upstream_body_def store_reader_def lastGoodProbe_def obs_of_def)
  show ?thesis
  proof (cases r)
    case BundleUnavailable
    with assms show ?thesis by (intro same) (auto simp: apply_round_def obs_of_def)
  next
    case (Outcomes results)
    have "go_get (maps_copy [] results) k = Result s k"
      using assms by (simp add: Outcomes apply_round_def Result_Replace)
    then have "LastUpstreamSuccess (apply_round t r s) k = LastUpstreamSuccess s k" if "obs_of (Result s k) = Failed"
      using that by (simp add: Outcomes apply_round_def Replace_bookkeeping)
    with assms show ?thesis by (intro same) auto
  qed
qed

lemma computeStatus_reader_cong:
  assumes "rd_Enabled rd = rd_Enabled rd'" "rd_UpstreamProbeEnabled rd = rd_UpstreamProbeEnabled rd'"
    and "rd_Result rd (ra_key cr) = rd_Result rd' (ra_key cr)"
    and "upstream_body rd (ra_key cr) = upstream_body rd' (ra_key cr)"
  shows "computeStatus ops clock cr pods prev e (Some rd) = computeStatus ops clock cr pods prev e (Some rd')"
proof -
  have "upstreamCondition cr (Some rd) = upstreamCondition cr (Some rd')"
    using assms by (simp add: upstreamCondition_def)
  moreover have "verified_want cr (Some rd) = verified_want cr (Some rd')"
    using assms by (simp add: verified_want_def)
  ultimately show ?thesis by (simp add: computeStatus_eq wants_def)
qed

lemma RunOnce_enabled [simp]:
  "Enabled (fst (RunOnce v env cfg store events)) = Enabled store"
  "UpstreamProbeEnabled (fst (RunOnce v env cfg store events)) = UpstreamProbeEnabled store"
  using RunOnce_is_round [of v env cfg store events] by auto

lemma RunOnce_unchanged_status:
  assumes "Result (fst (RunOnce v env cfg store events)) (ra_key cr) = Result store (ra_key cr)"
  shows "computeStatus ops clock cr pods prev applyErr
      (Some (store_reader (fst (RunOnce v env cfg store events)))) =
    computeStatus ops clock cr pods prev applyErr (Some (store_reader store))"
proof -
  let ?s' = "fst (RunOnce v env cfg store events)"
  have "upstream_body (store_reader ?s') (ra_key cr) = upstream_body (store_reader store) (ra_key cr)"
    using RunOnce_is_round [of v env cfg store events] assms upstream_body_unchanged by force
  moreover have "rd_Result (store_reader ?s') (ra_key cr) = rd_Result (store_reader store) (ra_key cr)"
    using assms by (simp add: store_reader_def)
  moreover have "rd_Enabled (store_reader ?s') = rd_Enabled (store_reader store)"
    "rd_UpstreamProbeEnabled (store_reader ?s') = rd_UpstreamProbeEnabled (store_reader store)"
    by (simp_all add: store_reader_def)
  ultimately show ?thesis by (intro computeStatus_reader_cong)
qed


section \<open>States and steps\<close>

record system =
  sy_apps :: "remote_app list"
  sy_pods :: "pod list"
  sy_store :: verification_store
  sy_chan :: event_chan
  sy_work :: "namespaced_name list"
  sy_owned :: "(string \<times> string \<times> string) \<rightharpoonup> api_value"
  sy_watch :: "namespaced_name list"

text \<open>The work queue holds a key at most once.\<close>

definition queue_add :: "namespaced_name \<Rightarrow> namespaced_name list \<Rightarrow> namespaced_name list" where
  "queue_add k ws = (if k \<in> set ws then ws else ws @ [k])"

definition selected_pods :: "pod list \<Rightarrow> string \<Rightarrow> (string, string) go_map \<Rightarrow> pod list" where
  "selected_pods pods ns sel = filter (\<lambda>p. pod_Namespace p = ns \<and> selects sel (pod_Labels p)) pods"

definition app_pods :: "pod list \<Rightarrow> remote_app \<Rightarrow> pod list" where
  "app_pods pods cr =
     selected_pods pods (ra_Namespace cr) [(LabelRole, LabelRoleValue), (LabelRemoteAppInstance, ra_Name cr)]"

definition get_app :: "remote_app list \<Rightarrow> namespaced_name \<Rightarrow> get_result" where
  "get_app apps k = (case find (\<lambda>cr. ra_key cr = k) apps of Some cr \<Rightarrow> Found cr | None \<Rightarrow> NotFound)"

text \<open>What a pass reads is what is stored, or the read fails.\<close>

definition serves :: "rec_env \<Rightarrow> system \<Rightarrow> bool" where
  "serves env s \<longleftrightarrow>
     (\<forall>k. en_Get env k = get_app (sy_apps s) k \<or> (\<exists>err. en_Get env k = GetFailed err)) \<and>
     (\<forall>ns sel. en_ListPods env ns sel = Inr (selected_pods (sy_pods s) ns sel) \<or>
        (\<exists>err. en_ListPods env ns sel = Inl err))"

text \<open>
  A status patch that succeeds stores the status, read back as \<open>f\<close> leaves its conditions,
  and causes a watch event.
\<close>

fun store_effect ::
  "(condition \<Rightarrow> condition) \<Rightarrow> rec_env \<Rightarrow> effect \<Rightarrow> remote_app list \<times> namespaced_name list \<Rightarrow>
   remote_app list \<times> namespaced_name list" where
  "store_effect f env (PatchStatusCall cr new) (apps, ks) =
     (if en_PatchStatus env cr new = None
      then (map (\<lambda>c. if ra_key c = ra_key cr then c\<lparr>ra_Status := read_back f new\<rparr> else c) apps,
            ks @ [ra_key cr])
      else (apps, ks))"
| "store_effect f env _ (apps, ks) = (apps, ks)"

text \<open>
  An applied object is known by its kind, namespace and name. The server keeps what the
  operator applied last; an apply that succeeds with the same content changes nothing, and
  one that changes the object causes a watch event, which the \<open>Owns\<close> watches of
  \<open>SetupWithManager\<close> map to the object's controller.
\<close>

definition object_id :: "k8s_object \<Rightarrow> string \<times> string \<times> string" where
  "object_id obj = (applied_kind obj, om_Namespace (ob_Meta obj), om_Name (ob_Meta obj))"

definition owner_events :: "k8s_object \<Rightarrow> namespaced_name list" where
  "owner_events obj =
     (if Owns (applied_kind obj) \<in> set (SetupWithManager True)
      then map (\<lambda>r. NamespacedName (om_Namespace (ob_Meta obj)) (or_Name r))
             (filter or_Controller (om_OwnerReferences (ob_Meta obj)))
      else [])"

fun store_object ::
  "rec_env \<Rightarrow> effect \<Rightarrow> ((string \<times> string \<times> string) \<rightharpoonup> api_value) \<times> namespaced_name list \<Rightarrow>
   ((string \<times> string \<times> string) \<rightharpoonup> api_value) \<times> namespaced_name list" where
  "store_object env (ApplyCall obj u manager force) (owned, ws) =
     (if en_Apply env u = None \<and> owned (object_id obj) \<noteq> Some u
      then (owned(object_id obj \<mapsto> u), ws @ owner_events obj) else (owned, ws))"
| "store_object env _ (owned, ws) = (owned, ws)"

text \<open>
  One pass for the key \<open>k\<close>; the work queue keeps a key whose pass returned an error. The
  watch events of the applied objects are on their way when the pass ends.
\<close>

definition pass_step ::
  "(condition \<Rightarrow> condition) \<Rightarrow> rec_env \<Rightarrow> pod_defaults \<Rightarrow> bool \<Rightarrow> namespaced_name \<Rightarrow> system \<Rightarrow> system" where
  "pass_step f env cfg recorder k s =
     (let r = \<lparr>rc_PodDefaults = cfg, rc_Recorder = recorder,
               rc_Verifications = Some (store_reader (sy_store s))\<rparr>;
          (res, effs) = Reconcile env r k;
          (apps, ks) = fold (store_effect f env) effs (sy_apps s, []);
          (owned, ws) = fold (store_object env) effs (sy_owned s, [])
      in s\<lparr>sy_apps := apps,
           sy_work := fold queue_add ks
             (if res = Returned None then removeAll k (sy_work s) else sy_work s),
           sy_owned := owned, sy_watch := sy_watch s @ ws\<rparr>)"

text \<open>
  A round that can tell the reconciler what it finds: the trust bundle loads, the list of
  RemoteApps is the stored one or fails, and the channel has room.
\<close>

definition lossless :: "'roots round_env \<Rightarrow> verify_config \<Rightarrow> system \<Rightarrow> bool" where
  "lossless env cfg s \<longleftrightarrow>
     (\<exists>roots. loadTrustBundle (re_readFile env) (re_appendCerts env)
        (vc_TrustBundleFile (withDefaults cfg)) = Inr roots) \<and>
     (re_listRemoteApps env = Inr (sy_apps s) \<or> (\<exists>err. re_listRemoteApps env = Inl err)) \<and>
     length (ch_queue (sy_chan s)) + length (sy_apps s) \<le> ch_cap (sy_chan s)"

definition round_step :: "'roots tls_verifier \<Rightarrow> verify_config \<Rightarrow> 'roots round_env \<Rightarrow> system \<Rightarrow> system" where
  "round_step v cfg env s =
     (case RunOnce v env cfg (sy_store s) (Some (sy_chan s)) of
        (store', events', _) \<Rightarrow>
          s\<lparr>sy_store := store', sy_chan := (case events' of Some c \<Rightarrow> c | None \<Rightarrow> sy_chan s)\<rparr>)"

inductive system_step ::
  "meta_ops \<Rightarrow> (condition \<Rightarrow> condition) \<Rightarrow> pod_defaults \<Rightarrow> 'roots tls_verifier \<Rightarrow> verify_config \<Rightarrow>
   system \<Rightarrow> system \<Rightarrow> bool"
  for ops f cfg v vcfg where
  round: "lossless env vcfg s \<Longrightarrow> system_step ops f cfg v vcfg s (round_step v vcfg env s)"
| forward: "ch_queue (sy_chan s) = k # ks \<Longrightarrow>
    system_step ops f cfg v vcfg s
      (s\<lparr>sy_chan := (sy_chan s)\<lparr>ch_queue := ks\<rparr>, sy_work := queue_add k (sy_work s)\<rparr>)"
| reconcile: "k \<in> set (sy_work s) \<Longrightarrow> serves env s \<Longrightarrow> en_meta env = ops \<Longrightarrow>
    deep_equality (en_DeepEqual env) \<Longrightarrow>
    system_step ops f cfg v vcfg s (pass_step f env cfg recorder k s)"
| pods: "sy_pods s = xs @ old @ ys \<Longrightarrow>
    system_step ops f cfg v vcfg s
      (s\<lparr>sy_pods := xs @ new @ ys,
         sy_work := fold queue_add (concat (map mapPodToRemoteApp (old @ new))) (sy_work s)\<rparr>)"
| apps: "distinct (map ra_key apps') \<Longrightarrow> \<forall>cr \<in> set apps'. ra_Name cr \<noteq> '''' \<Longrightarrow>
    \<forall>cr \<in> set apps'. cr \<in> set (sy_apps s) \<or> ra_key cr \<in> set ks \<Longrightarrow>
    system_step ops f cfg v vcfg s (s\<lparr>sy_apps := apps', sy_work := fold queue_add ks (sy_work s)\<rparr>)"
| watch: "sy_watch s = xs @ k # ys \<Longrightarrow>
    system_step ops f cfg v vcfg s (s\<lparr>sy_watch := xs @ ys, sy_work := queue_add k (sy_work s)\<rparr>)"
| objects: "system_step ops f cfg v vcfg s (s\<lparr>sy_owned := owned', sy_watch := sy_watch s @ ks\<rparr>)"
| request: "system_step ops f cfg v vcfg s (s\<lparr>sy_work := queue_add k (sy_work s)\<rparr>)"

text \<open>The start: the initial list of the RemoteApps is a watch event for each of them.\<close>

definition system_init :: "bool \<Rightarrow> bool \<Rightarrow> remote_app list \<Rightarrow> pod list \<Rightarrow> system" where
  "system_init enabled upstreamProbe apps pods =
     \<lparr>sy_apps = apps, sy_pods = pods, sy_store = NewVerificationStore enabled upstreamProbe,
      sy_chan = verification_events, sy_work = map ra_key apps, sy_owned = Map.empty, sy_watch = []\<rparr>"


section \<open>The invariant\<close>

definition pending :: "system \<Rightarrow> namespaced_name \<Rightarrow> bool" where
  "pending s k \<longleftrightarrow> k \<in> set (ch_queue (sy_chan s)) \<or> k \<in> set (sy_work s)"

text \<open>A status is settled when a pass over the current pods and outcomes computes it again.\<close>

definition settled :: "meta_ops \<Rightarrow> system \<Rightarrow> remote_app \<Rightarrow> bool" where
  "settled ops s cr \<longleftrightarrow>
     (\<forall>clock. computeStatus ops clock cr (app_pods (sy_pods s) cr) (st_Conditions (ra_Status cr)) ''''
        (Some (store_reader (sy_store s))) = Some (ra_Status cr))"

definition system_inv :: "meta_ops \<Rightarrow> system \<Rightarrow> bool" where
  "system_inv ops s \<longleftrightarrow>
     distinct (map ra_key (sy_apps s)) \<and> (\<forall>cr \<in> set (sy_apps s). ra_Name cr \<noteq> '''') \<and>
     (\<forall>cr \<in> set (sy_apps s). ra_DeletionTimestamp cr = None \<longrightarrow> pending s (ra_key cr) \<or> settled ops s cr)"

lemma set_queue_add [simp]: "set (queue_add k ws) = insert k (set ws)"
  by (auto simp: queue_add_def)

lemma set_fold_queue_add [simp]: "set (fold queue_add ks ws) = set ks \<union> set ws"
  by (induction ks arbitrary: ws) auto


section \<open>Lemmas: one pass\<close>

text \<open>What a pass does to statuses and requests, and what it does to the applied objects.\<close>

definition pass_status ::
  "(condition \<Rightarrow> condition) \<Rightarrow> rec_env \<Rightarrow> pod_defaults \<Rightarrow> bool \<Rightarrow> namespaced_name \<Rightarrow> system \<Rightarrow> system" where
  "pass_status f env cfg recorder k s =
     (let r = \<lparr>rc_PodDefaults = cfg, rc_Recorder = recorder,
               rc_Verifications = Some (store_reader (sy_store s))\<rparr>;
          (res, effs) = Reconcile env r k;
          (apps, ks) = fold (store_effect f env) effs (sy_apps s, [])
      in s\<lparr>sy_apps := apps,
           sy_work := fold queue_add ks
             (if res = Returned None then removeAll k (sy_work s) else sy_work s)\<rparr>)"

definition pass_objects ::
  "rec_env \<Rightarrow> pod_defaults \<Rightarrow> bool \<Rightarrow> namespaced_name \<Rightarrow> system \<Rightarrow>
   ((string \<times> string \<times> string) \<rightharpoonup> api_value) \<times> namespaced_name list" where
  "pass_objects env cfg recorder k s =
     fold (store_object env)
       (snd (Reconcile env \<lparr>rc_PodDefaults = cfg, rc_Recorder = recorder,
          rc_Verifications = Some (store_reader (sy_store s))\<rparr> k)) (sy_owned s, [])"

lemma pass_step_parts:
  "pass_step f env cfg recorder k s =
     (pass_status f env cfg recorder k s)\<lparr>sy_owned := fst (pass_objects env cfg recorder k s),
       sy_watch := sy_watch s @ snd (pass_objects env cfg recorder k s)\<rparr>"
  by (simp add: pass_step_def pass_status_def pass_objects_def Let_def split: prod.split)


text \<open>Effects other than a status patch store nothing.\<close>

fun is_patch :: "effect \<Rightarrow> bool" where
  "is_patch (PatchStatusCall cr new) = True"
| "is_patch _ = False"

lemma store_effect_other [simp]: "\<not> is_patch e \<Longrightarrow> store_effect f env e x = x"
  by (cases e; cases x) simp_all

lemma fold_store_other [simp]:
  "list_all (\<lambda>e. \<not> is_patch e) effs \<Longrightarrow> fold (store_effect f env) effs x = x"
  by (induction effs arbitrary: x) simp_all

lemma apply_steps_no_patch: "list_all (\<lambda>e. \<not> is_patch e) (snd (apply_steps env cr steps))"
  by (induction env cr steps rule: apply_steps.induct)
    (auto simp: applyOwned_def split: prod.splits option.splits sum.splits)

lemma fold_store_events [simp]: "fold (store_effect f env) (map EmitEvent evs) x = x"
  by (rule fold_store_other) (simp add: list_all_iff)

lemma reconcileStatus_store:
  "fold (store_effect f env) (snd (reconcileStatus env r cr e)) (apps, []) = (apps, []) \<or>
   (\<exists>new. fold (store_effect f env) (snd (reconcileStatus env r cr e)) (apps, []) =
     (map (\<lambda>c. if ra_key c = ra_key cr then c\<lparr>ra_Status := read_back f new\<rparr> else c) apps, [ra_key cr]))"
  by (auto simp: reconcileStatus_def Let_def split: sum.split option.split)

lemma Reconcile_store:
  obtains (unwritten) "fold (store_effect f env) (snd (Reconcile env r k)) (apps, []) = (apps, [])"
  | (patched) cr new where "en_Get env k = Found cr"
      "fold (store_effect f env) (snd (Reconcile env r k)) (apps, []) =
        (map (\<lambda>c. if ra_key c = ra_key cr then c\<lparr>ra_Status := read_back f new\<rparr> else c) apps, [ra_key cr])"
proof (cases "en_Get env k")
  case (Found cr)
  show ?thesis
  proof (cases "ra_DeletionTimestamp cr = None \<and> owned_steps env cr (rc_PodDefaults r) \<noteq> None")
    case True
    then obtain steps where steps: "owned_steps env cr (rc_PodDefaults r) = Some steps" by blast
    obtain applyErr effs where run: "apply_steps env cr steps = (applyErr, effs)"
      by (cases "apply_steps env cr steps")
    have "list_all (\<lambda>e. \<not> is_patch e) effs" using apply_steps_no_patch [of env cr steps] run by simp
    then have eq: "fold (store_effect f env) (snd (Reconcile env r k)) (apps, []) =
        fold (store_effect f env) (snd (reconcileStatus env r cr
          (case applyErr of Some e \<Rightarrow> error_text e | None \<Rightarrow> ''''))) (apps, [])"
      using Reconcile_live [OF Found _ steps run refl] True by simp
    from reconcileStatus_store [of f env r cr "case applyErr of Some e \<Rightarrow> error_text e | None \<Rightarrow> ''''" apps]
    show ?thesis
    proof (elim disjE exE)
      assume "fold (store_effect f env) (snd (reconcileStatus env r cr
          (case applyErr of Some e \<Rightarrow> error_text e | None \<Rightarrow> ''''))) (apps, []) = (apps, [])"
      then show ?thesis by (intro unwritten) (simp only: eq)
    next
      fix new
      assume "fold (store_effect f env) (snd (reconcileStatus env r cr
          (case applyErr of Some e \<Rightarrow> error_text e | None \<Rightarrow> ''''))) (apps, []) =
        (map (\<lambda>c. if ra_key c = ra_key cr then c\<lparr>ra_Status := read_back f new\<rparr> else c) apps, [ra_key cr])"
      then show ?thesis by (intro patched [OF Found]) (simp only: eq)
    qed
  qed (use Found in \<open>auto simp: Reconcile_def intro!: unwritten split: option.splits\<close>)
qed (auto simp: Reconcile_def intro!: unwritten)

lemma Reconcile_quiet:
  assumes "fst (Reconcile env r k) = Returned None" and "en_Get env k = Found cr"
    and "ra_DeletionTimestamp cr = None"
    and "fold (store_effect f env) (snd (Reconcile env r k)) (apps, []) = (apps, [])"
  obtains pods new where "listTbotPods env cr = Inr pods"
    "computeStatus (en_meta env) (en_clock env) cr pods (st_Conditions (ra_Status cr)) '''' (rc_Verifications r) =
      Some new"
    "statusEqual (en_DeepEqual env) (Some (ra_Status cr)) (Some new)"
proof -
  obtain steps where steps: "owned_steps env cr (rc_PodDefaults r) = Some steps"
    using assms(1-3) by (auto simp: Reconcile_def split: option.splits)
  obtain applyErr effs where run: "apply_steps env cr steps = (applyErr, effs)"
    by (cases "apply_steps env cr steps")
  note live = Reconcile_live [OF assms(2,3) steps run refl]
  have none: "applyErr = None" "fst (reconcileStatus env r cr '''') = Returned None"
    using assms(1) live reconcileStatus_no_panic [of env r cr "''''"]
    by (auto split: rec_result.splits option.splits)
  have "list_all (\<lambda>e. \<not> is_patch e) effs" using apply_steps_no_patch [of env cr steps] run by simp
  then have "fold (store_effect f env) (snd (reconcileStatus env r cr '''')) (apps, []) = (apps, [])"
    using assms(4) live none(1) by simp
  with none(2) show ?thesis
    by (auto simp: reconcileStatus_def Let_def
        split: sum.splits option.splits if_splits intro: that)
qed

lemma serves_Found:
  assumes "serves env s" and "en_Get env k = Found cr"
  shows "cr \<in> set (sy_apps s) \<and> ra_key cr = k \<and> find (\<lambda>cr. ra_key cr = k) (sy_apps s) = Some cr"
proof -
  have "get_app (sy_apps s) k = Found cr" using assms by (metis serves_def get_result.distinct(3))
  then have found: "find (\<lambda>cr. ra_key cr = k) (sy_apps s) = Some cr"
    by (simp add: get_app_def split: option.splits)
  then have "cr \<in> set (sy_apps s)" "ra_key cr = k" by (auto simp: find_Some_iff)
  with found show ?thesis by simp
qed

lemma serves_pods:
  assumes "serves env s" and "listTbotPods env cr = Inr pods"
  shows "pods = app_pods (sy_pods s) cr"
proof -
  have "en_ListPods env ns sel = Inr xs \<Longrightarrow> xs = selected_pods (sy_pods s) ns sel" for ns sel xs
    using assms(1) unfolding serves_def by (metis Inl_Inr_False sum.inject(2))
  then show ?thesis using assms(2) by (simp add: listTbotPods_def app_pods_def)
qed

text \<open>A pass that returns without an error and writes nothing found its RemoteApp settled.\<close>

lemma quiet_pass_settled:
  assumes "condition_meta (en_meta env)" and "deep_equality (en_DeepEqual env)" and "serves env s"
    and "distinct (map ra_key (sy_apps s))"
    and quiet: "fst (Reconcile env r k) = Returned None" "\<forall>err. en_Get env k \<noteq> GetFailed err"
      "fold (store_effect f env) (snd (Reconcile env r k)) (sy_apps s, []) = (sy_apps s, [])"
    and reader: "rc_Verifications r = Some (store_reader (sy_store s))"
    and cr: "cr \<in> set (sy_apps s)" "ra_key cr = k" "ra_DeletionTimestamp cr = None"
  shows "settled (en_meta env) s cr"
proof -
  have "find (\<lambda>cr. ra_key cr = k) (sy_apps s) = Some cr"
    using find_key_unique [OF assms(4) cr(1)] cr(2) by simp
  then have found: "en_Get env k = Found cr"
    using assms(3) quiet(2) unfolding serves_def get_app_def by (metis option.simps(5))
  obtain pods new where pods: "listTbotPods env cr = Inr pods"
    and new: "computeStatus (en_meta env) (en_clock env) cr pods (st_Conditions (ra_Status cr)) ''''
      (rc_Verifications r) = Some new"
    and eq: "statusEqual (en_DeepEqual env) (Some (ra_Status cr)) (Some new)"
    by (rule Reconcile_quiet [OF quiet(1) found cr(3) quiet(3)])
  have "strip_times (ra_Status cr) = strip_times new"
    using eq deep_equality.statusEqual_iff [OF assms(2)] by simp
  from equal_status_recomputed [OF assms(1) new this] show ?thesis
    by (simp add: settled_def serves_pods [OF assms(3) pods] reader)
qed

text \<open>
  The three ends of a pass: its request stays, its request is answered without a write, or
  it wrote and is requested again.
\<close>

lemma pass_status_cases:
  assumes "condition_meta (en_meta env)" and "deep_equality (en_DeepEqual env)" and "serves env s"
    and "distinct (map ra_key (sy_apps s))"
  obtains (kept) "pass_status f env cfg recorder k s = s"
  | (answered) "pass_status f env cfg recorder k s = s\<lparr>sy_work := removeAll k (sy_work s)\<rparr>"
      "\<And>cr. cr \<in> set (sy_apps s) \<Longrightarrow> ra_key cr = k \<Longrightarrow> ra_DeletionTimestamp cr = None \<Longrightarrow>
        settled (en_meta env) s cr"
  | (written) new ws where "set ws = insert k (set (sy_work s))"
      "pass_status f env cfg recorder k s =
        s\<lparr>sy_apps := map (\<lambda>c. if ra_key c = k then c\<lparr>ra_Status := read_back f new\<rparr> else c) (sy_apps s),
          sy_work := ws\<rparr>"
proof -
  let ?r = "\<lparr>rc_PodDefaults = cfg, rc_Recorder = recorder, rc_Verifications = Some (store_reader (sy_store s))\<rparr>"
  obtain res effs where run: "Reconcile env ?r k = (res, effs)" by (cases "Reconcile env ?r k")
  let ?w = "if res = Returned None then removeAll k (sy_work s) else sy_work s"
  from Reconcile_store [of f env ?r k "sy_apps s"] show ?thesis
  proof cases
    case unwritten
    then have step: "pass_status f env cfg recorder k s = s\<lparr>sy_work := ?w\<rparr>"
      by (simp add: pass_status_def Let_def run)
    show ?thesis
    proof (cases "res = Returned None \<and> (\<forall>err. en_Get env k \<noteq> GetFailed err)")
      case True
      then have "fst (Reconcile env ?r k) = Returned None" "\<forall>err. en_Get env k \<noteq> GetFailed err" by (simp_all add: run)
      note settled = quiet_pass_settled [OF assms this unwritten]
      from True step show ?thesis by (intro answered) (auto intro: settled)
    next
      case False
      then have "res \<noteq> Returned None" using run by (auto simp: Reconcile_def)
      with step show ?thesis by (intro kept) simp
    qed
  next
    case (patched cr new)
    then have key: "ra_key cr = k" using serves_Found [OF assms(3)] by simp
    have "set (queue_add k ?w) = insert k (set (sy_work s))" by auto
    moreover have "pass_status f env cfg recorder k s =
        s\<lparr>sy_apps := map (\<lambda>c. if ra_key c = k then c\<lparr>ra_Status := read_back f new\<rparr> else c) (sy_apps s),
          sy_work := queue_add k ?w\<rparr>"
      using patched(2) unfolding key by (simp add: pass_status_def Let_def run)
    ultimately show ?thesis by (rule written)
  qed
qed


section \<open>Lemmas: the invariant\<close>

lemma app_pods_same:
  assumes "ra_Name cr \<noteq> ''''"
    and "ra_key cr \<notin> set (concat (map mapPodToRemoteApp (old @ new)))"
  shows "app_pods (xs @ new @ ys) cr = app_pods (xs @ old @ ys) cr"
proof -
  have "\<not> (pod_Namespace p = ra_Namespace cr \<and>
      selects [(LabelRole, LabelRoleValue), (LabelRemoteAppInstance, ra_Name cr)] (pod_Labels p))"
    if "p \<in> set (old @ new)" for p
    using assms(2) that unfolding pod_selected_iff [OF assms(1)] by fastforce
  then have "filter (\<lambda>p. pod_Namespace p = ra_Namespace cr \<and>
      selects [(LabelRole, LabelRoleValue), (LabelRemoteAppInstance, ra_Name cr)] (pod_Labels p)) ps = []"
    if "ps \<in> {old, new}" for ps using that by (auto simp: filter_empty_conv)
  then show ?thesis by (simp add: app_pods_def selected_pods_def)
qed

lemma system_inv_init:
  assumes "distinct (map ra_key apps)" and "\<forall>cr \<in> set apps. ra_Name cr \<noteq> ''''"
  shows "system_inv ops (system_init e u apps pods)"
  using assms by (auto simp: system_inv_def system_init_def pending_def)

text \<open>A step that keeps the inputs of a RemoteApp's status keeps it settled.\<close>

lemma settled_cong:
  assumes "app_pods (sy_pods s') cr = app_pods (sy_pods s) cr" and "sy_store s' = sy_store s"
  shows "settled ops s' cr \<longleftrightarrow> settled ops s cr"
  using assms by (simp add: settled_def)

lemma system_inv_more:
  assumes "system_inv ops s" and "sy_apps s' = sy_apps s"
    and "\<And>k. pending s k \<Longrightarrow> pending s' k"
    and "\<And>cr. cr \<in> set (sy_apps s) \<Longrightarrow> ra_DeletionTimestamp cr = None \<Longrightarrow> settled ops s cr \<Longrightarrow>
      settled ops s' cr \<or> pending s' (ra_key cr)"
  shows "system_inv ops s'"
  using assms unfolding system_inv_def by metis

lemma enqueue_keeps:
  "\<exists>c'. fst (snd (RunOnce v env cfg store (Some c))) = Some c' \<and> set (ch_queue c) \<subseteq> set (ch_queue c') \<and>
     ch_cap c' = ch_cap c"
  by (auto simp: RunOnce_def publish_def Let_def fold_enqueue split: sum.split option.split prod.split)

lemma round_step_tells:
  assumes "lossless env vcfg s" and "distinct (map ra_key (sy_apps s))"
    and "cr \<in> set (sy_apps s)" and "ra_DeletionTimestamp cr = None"
    and "Result (sy_store (round_step v vcfg env s)) (ra_key cr) \<noteq> Result (sy_store s) (ra_key cr)"
  shows "ra_key cr \<in> set (ch_queue (sy_chan (round_step v vcfg env s)))"
proof -
  let ?run = "RunOnce v env vcfg (sy_store s) (Some (sy_chan s))"
  obtain roots where loads: "loadTrustBundle (re_readFile env) (re_appendCerts env)
      (vc_TrustBundleFile (withDefaults vcfg)) = Inr roots"
    using assms(1) by (auto simp: lossless_def)
  have store: "sy_store (round_step v vcfg env s) = fst ?run"
    by (simp add: round_step_def split: prod.split)
  then have "fst ?run \<noteq> sy_store s" using assms(5) by auto
  then obtain pods where lists: "re_listRemoteApps env = Inr (sy_apps s)" "re_listPods env = Inr pods"
      "re_ctxErr env = None"
    using assms(1) loads
    by (auto simp: lossless_def RunOnce_def Let_def split: sum.splits option.splits prod.splits)
  note ok = RunOnce_ok [OF loads lists, of v "sy_store s"]
  let ?ks = "changed_keys v env (withDefaults vcfg) (sy_store s) roots pods (sy_apps s)"
  have "ra_key cr \<in> set ?ks"
    using assms(3-5) set_changed_keys [OF loads lists assms(2), of v "sy_store s" "Some (sy_chan s)"] store by auto
  moreover have "length ?ks \<le> ch_cap (sy_chan s) - length (ch_queue (sy_chan s))"
    using assms(1) length_changed_keys [of v env "withDefaults vcfg" "sy_store s" roots pods "sy_apps s"]
    unfolding lossless_def by linarith
  ultimately show ?thesis by (simp add: round_step_def ok fold_enqueue)
qed

lemma system_inv_round:
  assumes "system_inv ops s" and "lossless env vcfg s"
  shows "system_inv ops (round_step v vcfg env s)"
proof (rule system_inv_more [OF assms(1)])
  let ?s' = "round_step v vcfg env s"
  have dist: "distinct (map ra_key (sy_apps s))" using assms(1) by (simp add: system_inv_def)
  have s': "sy_store ?s' = fst (RunOnce v env vcfg (sy_store s) (Some (sy_chan s)))" "sy_pods ?s' = sy_pods s"
    by (simp_all add: round_step_def split: prod.split)
  show "sy_apps ?s' = sy_apps s" by (simp add: round_step_def split: prod.split)
  show "pending ?s' k" if "pending s k" for k
    using that enqueue_keeps [of v env vcfg "sy_store s" "sy_chan s"]
    by (auto simp: round_step_def pending_def split: prod.split)
  fix cr assume cr: "cr \<in> set (sy_apps s)" "ra_DeletionTimestamp cr = None" "settled ops s cr"
  show "settled ops ?s' cr \<or> pending ?s' (ra_key cr)"
  proof (cases "Result (sy_store ?s') (ra_key cr) = Result (sy_store s) (ra_key cr)")
    case True
    with cr(3) s' RunOnce_unchanged_status [of v env vcfg "sy_store s" "Some (sy_chan s)" cr]
    show ?thesis by (simp add: settled_def)
  next
    case False
    then show ?thesis using round_step_tells [OF assms(2) dist cr(1,2)] by (simp add: pending_def)
  qed
qed

lemma system_inv_objects [simp]:
  "system_inv ops (s\<lparr>sy_owned := owned, sy_watch := ws\<rparr>) = system_inv ops s"
  by (simp add: system_inv_def pending_def settled_def)

lemma system_inv_pass_status:
  assumes "condition_meta (en_meta env)" and "deep_equality (en_DeepEqual env)" and "serves env s"
    and "system_inv (en_meta env) s"
  shows "system_inv (en_meta env) (pass_status f env cfg recorder k s)"
proof -
  have dist: "distinct (map ra_key (sy_apps s))" using assms(4) by (simp add: system_inv_def)
  show ?thesis
  proof (cases rule: pass_status_cases [OF assms(1-3) dist, of f cfg recorder k, case_names kept answered written])
    case kept
    with assms(4) show ?thesis by simp
  next
    case answered
    then show ?thesis
      using assms(4) unfolding system_inv_def by (auto simp: pending_def settled_def)
  next
    case (written new ws)
    then show ?thesis
      using assms(4) unfolding system_inv_def
      by (auto simp: pending_def settled_def comp_def if_distrib cong: if_cong)
  qed
qed

lemma system_inv_pods:
  assumes "system_inv ops s" and "sy_pods s = xs @ old @ ys"
  shows "system_inv ops (s\<lparr>sy_pods := xs @ new @ ys,
    sy_work := fold queue_add (concat (map mapPodToRemoteApp (old @ new))) (sy_work s)\<rparr>)"
    (is "system_inv ops ?s'")
proof (rule system_inv_more [OF assms(1)])
  fix cr assume "cr \<in> set (sy_apps s)" "settled ops s cr"
  moreover from this have "ra_Name cr \<noteq> ''''" using assms(1) by (simp add: system_inv_def)
  ultimately show "settled ops ?s' cr \<or> pending ?s' (ra_key cr)"
    using assms(2) app_pods_same [of cr old new xs ys]
    by (cases "ra_key cr \<in> set (concat (map mapPodToRemoteApp (old @ new)))")
      (simp_all add: pending_def settled_def, blast)
qed (auto simp: pending_def)

lemma system_inv_step:
  assumes "condition_meta ops" and "system_inv ops s" and "system_step ops f cfg v vcfg s s'"
  shows "system_inv ops s'"
  using assms(3)
proof cases
  case (round env)
  with system_inv_round [OF assms(2)] show ?thesis by simp
next
  case (reconcile k env recorder)
  with system_inv_pass_status [of env s f cfg recorder k] assms(1,2) show ?thesis by (simp add: pass_step_parts)
next
  case (pods xs old ys new)
  with system_inv_pods [OF assms(2) pods(2)] show ?thesis by simp
next
  case (apps apps' ks)
  then show ?thesis
    using assms(2) unfolding system_inv_def
    by (simp add: pending_def settled_def) blast
qed (intro system_inv_more [OF assms(2)]; auto simp: pending_def settled_def)+

lemma system_inv_reachable:
  assumes "condition_meta ops" and "(system_step ops f cfg v vcfg)\<^sup>*\<^sup>* s s'" and "system_inv ops s"
  shows "system_inv ops s'"
  using assms(2,3) by (induction rule: rtranclp_induct) (auto intro: system_inv_step [OF assms(1)])


section \<open>Lemmas: delivering\<close>

text \<open>An API server that answers every call of a pass, and stores what it is sent.\<close>

definition answers :: "rec_env \<Rightarrow> pod_defaults \<Rightarrow> system \<Rightarrow> bool" where
  "answers env cfg s \<longleftrightarrow>
     (\<forall>k. en_Get env k = get_app (sy_apps s) k) \<and>
     (\<forall>ns sel. en_ListPods env ns sel = Inr (selected_pods (sy_pods s) ns sel)) \<and>
     (\<forall>cr new. en_PatchStatus env cr new = None) \<and>
     (\<forall>cr. \<exists>steps. owned_steps env cr cfg = Some steps \<and> list_all (step_ok env cr) steps)"

lemma answers_serves: "answers env cfg s \<Longrightarrow> serves env s"
  by (simp add: answers_def serves_def)

lemma app_pods_ignores_status [simp]: "app_pods pods (cr\<lparr>ra_Status := x\<rparr>) = app_pods pods cr"
  by (simp add: app_pods_def)

text \<open>A pass over a live RemoteApp, with every call answered.\<close>

lemma pass_status_live:
  assumes "answers env cfg s" and found: "en_Get env k = Found cr" and live: "ra_DeletionTimestamp cr = None"
    and new: "computeStatus (en_meta env) (en_clock env) cr (app_pods (sy_pods s) cr)
      (st_Conditions (ra_Status cr)) '''' (Some (store_reader (sy_store s))) = Some new"
  shows "pass_status f env cfg recorder k s =
    (if statusEqual (en_DeepEqual env) (Some (ra_Status cr)) (Some new) then s\<lparr>sy_work := removeAll k (sy_work s)\<rparr>
     else s\<lparr>sy_apps := map (\<lambda>c. if ra_key c = k then c\<lparr>ra_Status := read_back f new\<rparr> else c) (sy_apps s),
            sy_work := queue_add k (removeAll k (sy_work s))\<rparr>)"
proof -
  let ?r = "\<lparr>rc_PodDefaults = cfg, rc_Recorder = recorder, rc_Verifications = Some (store_reader (sy_store s))\<rparr>"
  have key: "ra_key cr = k" using serves_Found [OF answers_serves [OF assms(1)] found] by simp
  obtain steps where steps: "owned_steps env cr cfg = Some steps" "list_all (step_ok env cr) steps"
    using assms(1) unfolding answers_def by blast
  have pods: "listTbotPods env cr = Inr (app_pods (sy_pods s) cr)"
    using assms(1) by (simp add: answers_def listTbotPods_def app_pods_def)
  let ?evs = "recordUpstreamTransition (en_meta env) ?r cr (st_Conditions (ra_Status cr)) (st_Conditions new)"
  have status: "reconcileStatus env ?r cr '''' =
      (Returned None, if statusEqual (en_DeepEqual env) (Some (ra_Status cr)) (Some new) then []
         else PatchStatusCall cr new # map EmitEvent ?evs)"
    using pods new assms(1) by (simp add: reconcileStatus_def answers_def)
  have "list_all (\<lambda>e. \<not> is_patch e) (step_effects env cr steps)"
    using apply_steps_no_patch [of env cr steps] apply_steps_ok [OF steps(2)] by simp
  moreover have "Reconcile env ?r k = (Returned None, step_effects env cr steps @ snd (reconcileStatus env ?r cr ''''))"
    using Reconcile_live [OF found live _ apply_steps_ok [OF steps(2)] refl, of ?r] steps(1) status by simp
  ultimately show ?thesis
    using status assms(1) key by (simp add: pass_status_def answers_def)
qed

text \<open>A pass that is answered either finds its RemoteApp settled or settles it.\<close>

lemma pass_status_answered:
  assumes "condition_meta (en_meta env)" and "deep_equality (en_DeepEqual env)" and "only_times f"
    and "answers env cfg s" and "distinct (map ra_key (sy_apps s))"
  obtains (found) "pass_status f env cfg recorder k s = s\<lparr>sy_work := removeAll k (sy_work s)\<rparr>"
  | (settles) cr new where "cr \<in> set (sy_apps s)" "ra_key cr = k" "ra_DeletionTimestamp cr = None"
      "\<not> settled (en_meta env) s cr"
      "pass_status f env cfg recorder k s =
        s\<lparr>sy_apps := map (\<lambda>c. if ra_key c = k then c\<lparr>ra_Status := read_back f new\<rparr> else c) (sy_apps s),
          sy_work := queue_add k (removeAll k (sy_work s))\<rparr>"
      "settled (en_meta env) s (cr\<lparr>ra_Status := read_back f new\<rparr>)"
proof (cases "\<exists>cr. en_Get env k = Found cr \<and> ra_DeletionTimestamp cr = None")
  case True
  then obtain cr where cr: "en_Get env k = Found cr" "ra_DeletionTimestamp cr = None" by blast
  have mem: "cr \<in> set (sy_apps s)" "ra_key cr = k" using serves_Found [OF answers_serves [OF assms(4)] cr(1)] by simp_all
  obtain new where new: "computeStatus (en_meta env) (en_clock env) cr (app_pods (sy_pods s) cr)
      (st_Conditions (ra_Status cr)) '''' (Some (store_reader (sy_store s))) = Some new"
    by (simp add: computeStatus_eq)
  note step = pass_status_live [OF assms(4) cr new, of f recorder]
  show ?thesis
  proof (cases "statusEqual (en_DeepEqual env) (Some (ra_Status cr)) (Some new)")
    case False
    then have "\<not> settled (en_meta env) s cr"
      using new deep_equality.statusEqual_refl [OF assms(2)] unfolding settled_def by (metis option.inject)
    moreover have "settled (en_meta env) s (cr\<lparr>ra_Status := read_back f new\<rparr>)"
      using recompute_read_back [OF assms(1,3) new] by (simp add: settled_def computeStatus_ignores_status)
    ultimately show ?thesis using settles [OF mem cr(2)] step False by simp
  qed (use step in \<open>intro found, simp\<close>)
next
  case False
  moreover have "en_Get env k = get_app (sy_apps s) k" using assms(4) by (simp add: answers_def)
  ultimately have "Reconcile env \<lparr>rc_PodDefaults = cfg, rc_Recorder = recorder,
      rc_Verifications = Some (store_reader (sy_store s))\<rparr> k = (Returned None, [])"
    by (auto simp: Reconcile_def get_app_def split: option.split)
  then show ?thesis by (intro found) (simp add: pass_status_def)
qed

section \<open>Lemmas: the applied objects\<close>

text \<open>The calls of a pass that applies everything, and how many of them change an object.\<close>

definition owned_calls :: "rec_env \<Rightarrow> pod_defaults \<Rightarrow> remote_app \<Rightarrow> effect list" where
  "owned_calls env cfg cr =
     (case owned_steps env cr cfg of None \<Rightarrow> [] | Some steps \<Rightarrow> step_effects env cr steps)"

fun stale_call :: "((string \<times> string \<times> string) \<rightharpoonup> api_value) \<Rightarrow> effect \<Rightarrow> bool" where
  "stale_call owned (ApplyCall obj u manager force) \<longleftrightarrow> owned (object_id obj) \<noteq> Some u"
| "stale_call owned _ \<longleftrightarrow> False"

definition stale :: "((string \<times> string \<times> string) \<rightharpoonup> api_value) \<Rightarrow> effect list \<Rightarrow> nat" where
  "stale owned calls = length (filter (stale_call owned) calls)"

lemma stale_simps [simp]:
  "stale owned [] = 0"
  "stale owned (e # es) = (if stale_call owned e then Suc (stale owned es) else stale owned es)"
  by (simp_all add: stale_def)

lemma stale_le: "stale owned calls \<le> length calls"
  by (simp add: stale_def)

abbreviation call_of :: "k8s_object \<times> api_value \<Rightarrow> effect" where
  "call_of c \<equiv> ApplyCall (fst c) (snd c) fieldManager True"

lemma stale_other:
  "(\<And>c. c \<in> set cs \<Longrightarrow> owned' (object_id (fst c)) = owned (object_id (fst c))) \<Longrightarrow>
   stale owned' (map call_of cs) = stale owned (map call_of cs)"
  by (induction cs) auto

text \<open>Applying calls for distinct objects: each object that differed is stored, with one event.\<close>

lemma fold_store_calls:
  assumes "distinct (map (object_id \<circ> fst) cs)"
    and "\<And>c. c \<in> set cs \<Longrightarrow> en_Apply env (snd c) = None \<and> owner_events (fst c) = [k]"
  shows "fold (store_object env) (map call_of cs) (owned, ws) =
    (owned ++ map_of (map (\<lambda>c. (object_id (fst c), snd c)) cs),
     ws @ replicate (stale owned (map call_of cs)) k)"
  using assms
proof (induction cs arbitrary: owned ws)
  case (Cons c cs)
  let ?id = "object_id (fst c)" and ?m = "map_of (map (\<lambda>c. (object_id (fst c), snd c)) cs)"
  let ?owned = "owned(?id \<mapsto> snd c)"
  have c: "en_Apply env (snd c) = None" "owner_events (fst c) = [k]" using Cons.prems(2) [of c] by simp_all
  have fresh: "object_id (fst d) \<noteq> ?id" if "d \<in> set cs" for d using Cons.prems(1) that by (auto simp: image_iff)
  have later: "stale ?owned (map call_of cs) = stale owned (map call_of cs)"
    by (rule stale_other) (use fresh in auto)
  have first: "store_object env (call_of c) (owned, ws) =
      (?owned, ws @ (if owned ?id = Some (snd c) then [] else [k]))"
    using c by (auto simp: fun_upd_idem)
  have dist: "distinct (map (object_id \<circ> fst) cs)" using Cons.prems(1) by (simp add: comp_def)
  have IH: "fold (store_object env) (map call_of cs) (?owned, ws') =
      (?owned ++ ?m, ws' @ replicate (stale owned (map call_of cs)) k)" for ws'
    using Cons.IH [OF dist Cons.prems(2) [OF list.set_intros(2)], of ?owned ws'] unfolding later .
  have "?m ?id = None" using fresh by (force simp: map_of_eq_None_iff)
  then have eq: "owned ++ map_of (map (\<lambda>c. (object_id (fst c), snd c)) (c # cs)) = ?owned ++ ?m"
    by (auto simp: map_add_def fun_eq_iff split: option.split)
  show ?case unfolding eq by (simp add: first IH del: store_object.simps)
qed simp

lemma stale_stored:
  "distinct (map (object_id \<circ> fst) cs) \<Longrightarrow>
   stale (owned ++ map_of (map (\<lambda>c. (object_id (fst c), snd c)) cs)) (map call_of cs) = 0"
proof -
  assume dist: "distinct (map (object_id \<circ> fst) cs)"
  have "map_of (map (\<lambda>c. (object_id (fst c), snd c)) cs) (object_id (fst c)) = Some (snd c)" if "c \<in> set cs" for c
    using that dist by (intro map_of_is_SomeI) (auto simp: comp_def)
  then show ?thesis by (auto simp: stale_def filter_empty_conv map_add_def)
qed

text \<open>Rendering does not read the status.\<close>

lemma owned_steps_ignores_status [simp]: "owned_steps env (cr\<lparr>ra_Status := x\<rparr>) cfg = owned_steps env cr cfg"
  by (simp add: owned_steps_def renderConfigMap_def renderDeployment_def configHash_def tbotConfig_def tbot_doc_def
      workloadIdentityX509Service_def renderServiceAccount_def renderPodDisruptionBudget_def renderService_def
      owned_meta_def canonicalLabels_def pod_template_of_def podAffinity_def tbotContainer_def
      ghostunnelContainer_def)

context controller_reference
begin

lemma steps_calls:
  assumes "en_SetControllerReference env = setref" and "list_all (step_ok env cr) steps"
    and "list_all (\<lambda>(_, obj). ownable cr obj) steps"
  shows "step_effects env cr steps =
      map call_of (map (\<lambda>st. (with_owner (ref cr) (snd st),
        projr (en_ToUnstructured env (with_owner (ref cr) (snd st))))) steps) \<and>
    (\<forall>st \<in> set steps. en_Apply env (projr (en_ToUnstructured env (with_owner (ref cr) (snd st)))) = None)"
  using assms(2,3)
proof (induction steps)
  case (Cons st steps)
  obtain name obj where st: "st = (name, obj)" by (cases st)
  let ?obj = "with_owner (ref cr) obj"
  have "ownable cr obj" "fst (applyOwned env cr obj) = None" using Cons.prems by (simp_all add: st step_ok_def)
  then obtain u where u: "en_ToUnstructured env ?obj = Inr u" "en_Apply env u = None"
    using assms(1) by (auto simp: applyOwned_def setOwnerRef_def ownable_set split: sum.splits)
  with \<open>ownable cr obj\<close> have "snd (applyOwned env cr obj) = [call_of (?obj, u)]"
    using assms(1) by (simp add: applyOwned_def setOwnerRef_def ownable_set)
  with u Cons show ?case by (simp add: st step_effects_def)
qed (simp add: step_effects_def)

end

lemma owner_events_with_owner:
  assumes "ownable cr obj" and "Owns (applied_kind obj) \<in> set (SetupWithManager True)"
  shows "owner_events (with_owner (reference_to a kind cr) obj) = [ra_key cr]"
  using assms by (simp add: owner_events_def applied_kind_def ownable_def reference_to_def)

text \<open>The calls for one RemoteApp: five objects with its name, and one event for each that changes.\<close>

lemma owned_calls_cases:
  assumes "answers env cfg s"
    and "controller_reference (en_SetControllerReference env) (reference_to a kind)"
  obtains cs where "owned_calls env cfg cr = map call_of cs" "length cs = 5"
    "distinct (map (object_id \<circ> fst) cs)"
    "\<And>c. c \<in> set cs \<Longrightarrow> en_Apply env (snd c) = None \<and> owner_events (fst c) = [ra_key cr] \<and>
      snd (object_id (fst c)) = (ra_Namespace cr, ra_Name cr)"
proof -
  obtain steps where steps: "owned_steps env cr cfg = Some steps" "list_all (step_ok env cr) steps"
    using assms(1) unfolding answers_def by blast
  note own = owned_steps_ownable [OF steps(1)]
  note kinds = owned_steps_kinds [OF steps(1)]
  let ?ref = "reference_to a kind"
  define cs where "cs = map (\<lambda>st. (with_owner (?ref cr) (snd st),
      projr (en_ToUnstructured env (with_owner (?ref cr) (snd st))))) steps"
  note calls = controller_reference.steps_calls [OF assms(2) refl steps(2) own]
  have "length (map fst steps) = 5" using kinds by simp
  then have len: "length cs = 5" by (simp add: cs_def)
  have "map (fst \<circ> object_id \<circ> fst) cs = map (applied_kind \<circ> snd) steps"
    by (simp add: cs_def object_id_def applied_kind_def)
  then have "distinct (map fst (map (object_id \<circ> fst) cs))"
    using kinds by (simp add: comp_assoc)
  then have "distinct (map (object_id \<circ> fst) cs)" unfolding distinct_map by blast
  moreover have "owned_calls env cfg cr = map call_of cs"
    using calls by (simp add: owned_calls_def steps(1) cs_def)
  moreover have "en_Apply env (snd c) = None \<and> owner_events (fst c) = [ra_key cr] \<and>
      snd (object_id (fst c)) = (ra_Namespace cr, ra_Name cr)" if "c \<in> set cs" for c
  proof -
    obtain st where st: "st \<in> set steps" "c = (with_owner (?ref cr) (snd st),
        projr (en_ToUnstructured env (with_owner (?ref cr) (snd st))))" using \<open>c \<in> set cs\<close> by (auto simp: cs_def)
    have "applied_kind (snd st) \<in> set (map (applied_kind \<circ> snd) steps)" using st(1) by auto
    then have "Owns (applied_kind (snd st)) \<in> set (SetupWithManager True)"
      using kinds by (auto simp: SetupWithManager_def)
    moreover have "ownable cr (snd st)" using own st(1) by (auto simp: list_all_iff)
    ultimately show ?thesis
      using st calls kinds owner_events_with_owner [of cr "snd st" a kind]
      by (auto simp: object_id_def list_all_iff)
  qed
  ultimately show ?thesis using len that by blast
qed

text \<open>What the calls of a RemoteApp depend on: the renderer, the owner stamp, the conversion and the spec.\<close>

lemma owned_calls_ignores_status:
  assumes "answers env cfg s" and "controller_reference (en_SetControllerReference env) (reference_to a kind)"
  shows "owned_calls env cfg (cr\<lparr>ra_Status := x\<rparr>) = owned_calls env cfg cr"
proof -
  let ?cr = "cr\<lparr>ra_Status := x\<rparr>"
  have ref: "reference_to a kind ?cr = reference_to a kind cr" by (simp add: reference_to_def)
  obtain steps where steps: "owned_steps env cr cfg = Some steps" "list_all (step_ok env cr) steps"
    using assms(1) unfolding answers_def by blast
  obtain steps' where steps': "owned_steps env ?cr cfg = Some steps'" "list_all (step_ok env ?cr) steps'"
    using assms(1) unfolding answers_def by blast
  have eq: "steps' = steps" using steps(1) steps'(1) by simp
  note calls = controller_reference.steps_calls [OF assms(2) refl]
  have "step_effects env ?cr steps = step_effects env cr steps"
    using calls [OF steps(2) owned_steps_ownable [OF steps(1)]]
      calls [OF steps'(2) owned_steps_ownable [OF steps'(1)]] unfolding eq ref by simp
  then show ?thesis by (simp add: owned_calls_def steps(1))
qed

lemma owned_calls_cong:
  assumes "en_render env = en_render env'" "en_ToUnstructured env = en_ToUnstructured env'"
    "en_SetControllerReference env = en_SetControllerReference env'"
  shows "owned_calls env cfg cr = owned_calls env' cfg cr"
proof -
  have "snd (applyOwned env cr obj) = snd (applyOwned env' cr obj)" for cr obj
    using assms by (simp add: applyOwned_def setOwnerRef_def split: sum.split)
  then have "step_effects env = step_effects env'" by (simp add: step_effects_def fun_eq_iff)
  moreover have "owned_steps env = owned_steps env'" using assms(1) by (simp add: owned_steps_def fun_eq_iff)
  ultimately show ?thesis by (simp add: owned_calls_def split: option.split)
qed

text \<open>The objects after a pass: those of a live RemoteApp are as rendered, all others as before.\<close>

lemma store_object_patch [simp]: "store_object env (PatchStatusCall cr new) x = x"
  by (cases x) simp

lemma fold_store_object_events [simp]: "fold (store_object env) (map EmitEvent evs) x = x"
proof (induction evs arbitrary: x)
  case (Cons ev evs)
  then show ?case by (cases x) simp
qed simp

lemma pass_objects_answered:
  assumes "answers env cfg s"
  shows "pass_objects env cfg recorder k s =
    (case get_app (sy_apps s) k of
       Found cr \<Rightarrow> if ra_DeletionTimestamp cr = None
         then fold (store_object env) (owned_calls env cfg cr) (sy_owned s, []) else (sy_owned s, [])
     | _ \<Rightarrow> (sy_owned s, []))"
proof (cases "get_app (sy_apps s) k")
  case (Found cr)
  let ?r = "\<lparr>rc_PodDefaults = cfg, rc_Recorder = recorder, rc_Verifications = Some (store_reader (sy_store s))\<rparr>"
  have found: "en_Get env k = Found cr" using assms Found by (simp add: answers_def)
  obtain steps where steps: "owned_steps env cr cfg = Some steps" "list_all (step_ok env cr) steps"
    using assms unfolding answers_def by blast
  have status: "fold (store_object env) (snd (reconcileStatus env ?r cr '''')) y = y" for y
    by (auto simp: reconcileStatus_def Let_def split: sum.split option.split)
  show ?thesis
  proof (cases "ra_DeletionTimestamp cr = None")
    case True
    have "snd (Reconcile env ?r k) = step_effects env cr steps @ snd (reconcileStatus env ?r cr '''')"
      using Reconcile_live [OF found True _ apply_steps_ok [OF steps(2)] refl, of ?r] steps(1) by simp
    then show ?thesis using Found True status by (simp add: pass_objects_def owned_calls_def steps(1))
  next
    case False
    then show ?thesis using Found found by (auto simp: pass_objects_def Reconcile_def)
  qed
next
  case NotFound
  then show ?thesis using assms by (simp add: answers_def pass_objects_def Reconcile_def)
qed (simp add: get_app_def split: option.splits)

lemma distinct_map_other: "distinct (map g (xs @ x # ys)) \<Longrightarrow> c \<in> set xs \<union> set ys \<Longrightarrow> g c \<noteq> g x"
  by (simp add: image_iff) metis

definition stale_total ::
  "((string \<times> string \<times> string) \<rightharpoonup> api_value) \<Rightarrow> rec_env \<Rightarrow> pod_defaults \<Rightarrow> remote_app list \<Rightarrow> nat" where
  "stale_total owned env cfg apps = (\<Sum>cr \<leftarrow> apps. stale owned (owned_calls env cfg cr))"

text \<open>A pass turns objects that differ from the rendered ones into watch events, one for one.\<close>

lemma stale_total_pass:
  assumes env: "answers env cfg s" "controller_reference (en_SetControllerReference env) (reference_to a kind)"
    and dist: "distinct (map ra_key (sy_apps s))"
  shows "stale_total (fst (pass_objects env cfg recorder k s)) env cfg (sy_apps s) +
      length (snd (pass_objects env cfg recorder k s)) = stale_total (sy_owned s) env cfg (sy_apps s)"
proof (cases "\<exists>cr. get_app (sy_apps s) k = Found cr \<and> ra_DeletionTimestamp cr = None")
  case True
  then obtain cr where cr: "get_app (sy_apps s) k = Found cr" "ra_DeletionTimestamp cr = None" by blast
  have mem: "cr \<in> set (sy_apps s)"
    using cr(1) by (auto simp: get_app_def find_Some_iff split: option.splits)
  obtain cs where cs: "owned_calls env cfg cr = map call_of cs" "distinct (map (object_id \<circ> fst) cs)"
    "\<And>c. c \<in> set cs \<Longrightarrow> en_Apply env (snd c) = None \<and> owner_events (fst c) = [ra_key cr] \<and>
      snd (object_id (fst c)) = (ra_Namespace cr, ra_Name cr)"
    by (rule owned_calls_cases [OF env, of cr]) blast
  let ?m = "map_of (map (\<lambda>c. (object_id (fst c), snd c)) cs)" and ?k = "ra_key cr"
  have run: "pass_objects env cfg recorder k s =
      (sy_owned s ++ ?m, replicate (stale (sy_owned s) (map call_of cs)) ?k)"
    using pass_objects_answered [OF env(1), of recorder k] cr
      fold_store_calls [OF cs(2), of env ?k "sy_owned s" "[]"] cs(1,3) by simp
  have other: "stale (sy_owned s ++ ?m) (owned_calls env cfg c) = stale (sy_owned s) (owned_calls env cfg c)"
    if c: "ra_key c \<noteq> ?k" for c
  proof -
    obtain ds where ds: "owned_calls env cfg c = map call_of ds"
      "\<And>d. d \<in> set ds \<Longrightarrow> snd (object_id (fst d)) = (ra_Namespace c, ra_Name c)"
      by (rule owned_calls_cases [OF env, of c]) blast
    have "object_id (fst e) \<noteq> object_id (fst d)" if "d \<in> set ds" "e \<in> set cs" for d e
      using ds(2) [OF that(1)] cs(3) [OF that(2)] c by auto
    then have "object_id (fst d) \<notin> (\<lambda>e. object_id (fst e)) ` set cs" if "d \<in> set ds" for d
      using that by (metis imageE)
    then have "?m (object_id (fst d)) = None" if "d \<in> set ds" for d
      using that by (simp add: map_of_eq_None_iff image_image)
    then show ?thesis unfolding ds(1) by (intro stale_other) (simp add: map_add_def)
  qed
  obtain xs ys where split: "sy_apps s = xs @ cr # ys" using mem by (metis split_list)
  have "ra_key c \<noteq> ?k" if "c \<in> set xs \<union> set ys" for c
    by (rule distinct_map_other [OF dist [unfolded split] that])
  then have "stale_total (sy_owned s ++ ?m) env cfg zs = stale_total (sy_owned s) env cfg zs" if "zs \<in> {xs, ys}" for zs
    using that other unfolding stale_total_def by (auto intro!: arg_cong [of _ _ sum_list])
  then show ?thesis
    using stale_stored [OF cs(2), of "sy_owned s"]
    unfolding split run by (simp add: stale_total_def cs(1))
next
  case False
  then have "pass_objects env cfg recorder k s = (sy_owned s, [])"
    using pass_objects_answered [OF env(1), of recorder k] by (auto split: get_result.split)
  then show ?thesis by simp
qed

lemma stale_total_le:
  assumes "answers env cfg s" and "controller_reference (en_SetControllerReference env) (reference_to a kind)"
  shows "stale_total owned env cfg apps \<le> 5 * length apps"
proof (induction apps)
  case (Cons cr apps)
  have "stale owned (owned_calls env cfg cr) \<le> 5"
    by (rule owned_calls_cases [OF assms, of cr]) (metis stale_le length_map)
  with Cons show ?case by (simp add: stale_total_def)
qed (simp add: stale_total_def)


section \<open>Lemmas: delivering to the end\<close>

text \<open>
  A delivery: an event leaves the channel, a watch event arrives, or a request is answered by
  a pass.
\<close>

inductive deliver_step ::
  "(system \<Rightarrow> rec_env) \<Rightarrow> (condition \<Rightarrow> condition) \<Rightarrow> pod_defaults \<Rightarrow> system \<Rightarrow> system \<Rightarrow> bool"
  for E f cfg where
  forward: "ch_queue (sy_chan s) = k # ks \<Longrightarrow>
    deliver_step E f cfg s
      (s\<lparr>sy_chan := (sy_chan s)\<lparr>ch_queue := ks\<rparr>, sy_work := queue_add k (sy_work s)\<rparr>)"
| watch: "sy_watch s = xs @ k # ys \<Longrightarrow>
    deliver_step E f cfg s (s\<lparr>sy_watch := xs @ ys, sy_work := queue_add k (sy_work s)\<rparr>)"
| reconcile: "k \<in> set (sy_work s) \<Longrightarrow> deliver_step E f cfg s (pass_step f (E s) cfg recorder k s)"

text \<open>
  An API server that always answers, for condition helpers \<open>ops\<close>, with an owner stamp that
  names the RemoteApp, and with libraries that are the same in every state.
\<close>

definition answering :: "meta_ops \<Rightarrow> pod_defaults \<Rightarrow> (system \<Rightarrow> rec_env) \<Rightarrow> bool" where
  "answering ops cfg E \<longleftrightarrow>
     (\<forall>s. answers (E s) cfg s \<and> en_meta (E s) = ops \<and> deep_equality (en_DeepEqual (E s))) \<and>
     (\<exists>a kind. \<forall>s. controller_reference (en_SetControllerReference (E s)) (reference_to a kind)) \<and>
     (\<forall>s s'. en_render (E s) = en_render (E s') \<and> en_ToUnstructured (E s) = en_ToUnstructured (E s') \<and>
        en_SetControllerReference (E s) = en_SetControllerReference (E s'))"

lemma answeringD:
  assumes "answering ops cfg E"
  shows "answers (E s) cfg s" "en_meta (E s) = ops" "deep_equality (en_DeepEqual (E s))"
    and "\<exists>a kind. controller_reference (en_SetControllerReference (E s)) (reference_to a kind)"
  using assms unfolding answering_def by blast+

lemma stale_total_server:
  assumes "answering ops cfg E"
  shows "stale_total owned (E s) cfg apps = stale_total owned (E s') cfg apps"
proof -
  have "owned_calls (E s) cfg cr = owned_calls (E s') cfg cr" for cr
    using assms unfolding answering_def by (intro owned_calls_cong) blast+
  then show ?thesis by (simp add: stale_total_def)
qed

lemma stale_total_bound:
  assumes "answering ops cfg E"
  shows "stale_total owned (E s) cfg apps \<le> 5 * length apps"
  using answeringD(1,4) [OF assms, of s] stale_total_le by blast

lemma deliver_is_step:
  assumes "answering ops cfg E" and "deliver_step E f cfg s s'"
  shows "system_step ops f cfg v vcfg s s'"
  using assms(2)
proof cases
  case (forward k ks)
  from system_step.forward [OF forward(2)] show ?thesis unfolding forward(1) .
next
  case (watch xs k ys)
  from system_step.watch [OF watch(2)] show ?thesis unfolding watch(1) .
next
  case (reconcile k recorder)
  note E = answeringD [OF assms(1), of s]
  have "serves (E s) s" "en_meta (E s) = ops" "deep_equality (en_DeepEqual (E s))"
    using answers_serves [OF E(1)] E(2,3) by simp_all
  from system_step.reconcile [OF reconcile(2) this] show ?thesis unfolding reconcile(1) .
qed

definition unsettled :: "meta_ops \<Rightarrow> system \<Rightarrow> remote_app list" where
  "unsettled ops s = filter (\<lambda>cr. \<not> settled ops s cr) (sy_apps s)"

definition delivery_work :: "meta_ops \<Rightarrow> (system \<Rightarrow> rec_env) \<Rightarrow> pod_defaults \<Rightarrow> system \<Rightarrow> nat" where
  "delivery_work ops E cfg s =
     2 * length (ch_queue (sy_chan s)) + length (sy_work s) + 2 * length (sy_watch s) +
     length (unsettled ops s) + 2 * stale_total (sy_owned s) (E s) cfg (sy_apps s)"

lemma length_queue_add: "length (queue_add k ws) \<le> Suc (length ws)"
  by (simp add: queue_add_def)

lemma length_filter_map_less:
  assumes "x \<in> set xs" and "P x" and "\<And>y. y \<in> set xs \<Longrightarrow> P (g y) \<Longrightarrow> P y" and "\<not> P (g x)"
  shows "length (filter P (map g xs)) < length (filter P xs)"
proof -
  have le: "length (filter P (map g ys)) \<le> length (filter P ys)" if "set ys \<subseteq> set xs" for ys
    using that assms(3) by (induction ys) auto
  obtain as bs where xs: "xs = as @ x # bs" using assms(1) by (metis split_list)
  have "length (filter P (map g as)) \<le> length (filter P as)" "length (filter P (map g bs)) \<le> length (filter P bs)"
    by (rule le; auto simp: xs)+
  then show ?thesis using assms(2,4) unfolding xs by simp
qed

text \<open>A pass that is answered shortens the work queue or settles a RemoteApp.\<close>

lemma pass_status_less:
  fixes recorder :: bool
  assumes "condition_meta ops" and "only_times f" and "answering ops cfg E"
    and dist: "distinct (map ra_key (sy_apps s))" and k: "k \<in> set (sy_work s)"
  defines "s' \<equiv> pass_status f (E s) cfg recorder k s"
  shows "length (sy_work s') + length (unsettled ops s') < length (sy_work s) + length (unsettled ops s)"
    and "sy_chan s' = sy_chan s"
    and "stale_total owned (E s) cfg (sy_apps s') = stale_total owned (E s) cfg (sy_apps s)"
proof -
  note E = answeringD [OF assms(3), of s]
  have meta: "condition_meta (en_meta (E s))" using assms(1) E(2) by simp
  obtain a kind where ref: "controller_reference (en_SetControllerReference (E s)) (reference_to a kind)" using E(4) by blast
  have shorter: "length (removeAll k (sy_work s)) < length (sy_work s)" using k by (rule length_removeAll_less)
  have "(length (sy_work s') + length (unsettled ops s') < length (sy_work s) + length (unsettled ops s) \<and>
      sy_chan s' = sy_chan s) \<and>
    stale_total owned (E s) cfg (sy_apps s') = stale_total owned (E s) cfg (sy_apps s)"
  proof (cases rule: pass_status_answered [OF meta E(3) assms(2) E(1) dist, of recorder k, case_names found settles])
    case found
    with shorter show ?thesis by (simp add: s'_def unsettled_def settled_def)
  next
    case (settles cr new)
    let ?g = "\<lambda>c. if ra_key c = k then c\<lparr>ra_Status := read_back f new\<rparr> else c"
    have other: "c = cr" if "c \<in> set (sy_apps s)" "ra_key c = k" for c
      using dist settles(1,2) that by (auto simp: distinct_map dest: inj_onD)
    have "length (filter (\<lambda>cr. \<not> settled ops s cr) (map ?g (sy_apps s))) <
        length (filter (\<lambda>cr. \<not> settled ops s cr) (sy_apps s))"
    proof (rule length_filter_map_less [OF settles(1)])
      show "\<not> settled ops s cr" using settles(4) E(2) by simp
      show settled: "\<not> \<not> settled ops s (?g cr)" using settles(2,6) E(2) by simp
      show "\<not> settled ops s c" if "c \<in> set (sy_apps s)" "\<not> settled ops s (?g c)" for c
        using that settled other [OF that(1)] by (cases "ra_key c = k") simp_all
    qed
    moreover have "settled ops s' = settled ops s"
      by (simp add: fun_eq_iff settled_def s'_def settles(5))
    moreover have "owned_calls (E s) cfg (?g c) = owned_calls (E s) cfg c" for c
      using owned_calls_ignores_status [OF E(1) ref] by simp
    ultimately show ?thesis
      using shorter length_queue_add [of k "removeAll k (sy_work s)"]
      by (simp add: unsettled_def s'_def settles(5) stale_total_def comp_def)
  qed
  then show "length (sy_work s') + length (unsettled ops s') < length (sy_work s) + length (unsettled ops s)"
    "sy_chan s' = sy_chan s"
    "stale_total owned (E s) cfg (sy_apps s') = stale_total owned (E s) cfg (sy_apps s)" by blast+
qed

lemma delivery_work_step:
  assumes "condition_meta ops" and "only_times f" and "answering ops cfg E"
    and "distinct (map ra_key (sy_apps s))" and "deliver_step E f cfg s s'"
  shows "delivery_work ops E cfg s' < delivery_work ops E cfg s"
proof -
  have work: "delivery_work ops E cfg s' =
      2 * length (ch_queue (sy_chan s')) + length (sy_work s') + 2 * length (sy_watch s') +
      length (unsettled ops s') + 2 * stale_total (sy_owned s') (E s) cfg (sy_apps s')"
    using stale_total_server [OF assms(3)] by (simp add: delivery_work_def)
  show ?thesis
    using assms(5)
  proof cases
    case (forward k ks)
    then show ?thesis using length_queue_add [of k "sy_work s"]
      unfolding work by (simp add: delivery_work_def unsettled_def settled_def)
  next
    case (watch xs k ys)
    then show ?thesis using length_queue_add [of k "sy_work s"]
      unfolding work by (simp add: delivery_work_def unsettled_def settled_def)
  next
    case (reconcile k recorder)
    obtain a kind where ref: "controller_reference (en_SetControllerReference (E s)) (reference_to a kind)"
      using answeringD(4) [OF assms(3)] by blast
    note less = pass_status_less [OF assms(1-4) reconcile(2), where recorder = recorder]
    have "unsettled ops s' = unsettled ops (pass_status f (E s) cfg recorder k s)"
      by (simp add: reconcile(1) pass_step_parts unsettled_def settled_def)
    with less stale_total_pass [OF answeringD(1) [OF assms(3)] ref assms(4), of recorder k] show ?thesis
      unfolding work by (simp add: reconcile(1) pass_step_parts delivery_work_def)
  qed
qed

text \<open>Delivering writes statuses and applied objects only.\<close>

lemma deliver_keeps_inv:
  assumes "condition_meta ops" and "answering ops cfg E"
    and "(deliver_step E f cfg)\<^sup>*\<^sup>* s s'" and "system_inv ops s"
  shows "system_inv ops s'"
  using assms(3,4)
proof (induction rule: rtranclp_induct)
  case (step y z)
  obtain v :: "unit tls_verifier" and vcfg where "system_step ops f cfg v vcfg y z"
    using deliver_is_step [OF assms(2) step(2)] by blast
  with step show ?case using system_inv_step [OF assms(1)] by blast
qed

lemma delivery_work_le:
  assumes "condition_meta ops" and "only_times f" and "answering ops cfg E"
    and "system_inv ops s" and "(deliver_step E f cfg ^^ n) s s'"
  shows "n + delivery_work ops E cfg s' \<le> delivery_work ops E cfg s"
  using assms(5)
proof (induction n arbitrary: s')
  case (Suc n)
  then obtain y where y: "(deliver_step E f cfg ^^ n) s y" "deliver_step E f cfg y s'" by auto
  then have "system_inv ops y"
    using deliver_keeps_inv [OF assms(1,3) _ assms(4)] by (metis rtranclp_power)
  then have "delivery_work ops E cfg s' < delivery_work ops E cfg y"
    by (intro delivery_work_step [OF assms(1-3) _ y(2)]) (simp add: system_inv_def)
  with Suc.IH [OF y(1)] show ?case by simp
qed simp

lemma delivery_ends:
  assumes "condition_meta ops" and "only_times f" and "answering ops cfg E" and "system_inv ops s"
  shows "\<exists>s'. (deliver_step E f cfg)\<^sup>*\<^sup>* s s' \<and> (\<nexists>s''. deliver_step E f cfg s' s'')"
  using assms(4)
proof (induction "delivery_work ops E cfg s" arbitrary: s rule: less_induct)
  case less
  show ?case
  proof (cases "\<exists>y. deliver_step E f cfg s y")
    case True
    then obtain y where y: "deliver_step E f cfg s y" by blast
    have "delivery_work ops E cfg y < delivery_work ops E cfg s"
      using less(2) by (intro delivery_work_step [OF assms(1-3) _ y]) (simp add: system_inv_def)
    moreover have "system_inv ops y"
      using deliver_keeps_inv [OF assms(1,3) r_into_rtranclp [of "deliver_step E f cfg"] less(2)] y by blast
    ultimately show ?thesis using less(1) y by (meson converse_rtranclp_into_rtranclp)
  qed blast
qed

lemma deliver_keeps:
  assumes "condition_meta ops" and "only_times f" and "answering ops cfg E"
    and "(deliver_step E f cfg)\<^sup>*\<^sup>* s s'" and "system_inv ops s"
  shows "sy_pods s' = sy_pods s \<and> sy_store s' = sy_store s \<and>
    map (ra_Status_update (\<lambda>_. x)) (sy_apps s') = map (ra_Status_update (\<lambda>_. x)) (sy_apps s)"
  using assms(4)
proof (induction rule: rtranclp_induct)
  case (step y z)
  have inv: "distinct (map ra_key (sy_apps y))"
    using deliver_keeps_inv [OF assms(1,3) step(1) assms(5)] by (simp add: system_inv_def)
  have "sy_pods z = sy_pods y \<and> sy_store z = sy_store y \<and>
      map (ra_Status_update (\<lambda>_. x)) (sy_apps z) = map (ra_Status_update (\<lambda>_. x)) (sy_apps y)"
    using step(2)
  proof cases
    case (reconcile k recorder)
    note E = answeringD [OF assms(3), of y]
    have meta: "condition_meta (en_meta (E y))" using assms(1) E(2) by simp
    show ?thesis
      by (rule pass_status_answered [OF meta E(3) assms(2) E(1) inv, of recorder k])
        (simp_all add: reconcile(1) pass_step_parts)
  qed simp_all
  with step.IH show ?case by simp
qed simp

lemma delivered_iff:
  "(\<nexists>s'. deliver_step E f cfg s s') \<longleftrightarrow> ch_queue (sy_chan s) = [] \<and> sy_work s = [] \<and> sy_watch s = []"
proof
  assume none: "\<nexists>s'. deliver_step E f cfg s s'"
  show "ch_queue (sy_chan s) = [] \<and> sy_work s = [] \<and> sy_watch s = []"
  proof (rule ccontr)
    assume "\<not> (ch_queue (sy_chan s) = [] \<and> sy_work s = [] \<and> sy_watch s = [])"
    then consider k ks where "ch_queue (sy_chan s) = k # ks" | k where "k \<in> set (sy_work s)"
      | k ks where "sy_watch s = [] @ k # ks"
      by (metis append_Nil list.exhaust list.set_intros(1))
    then show False using none deliver_step.intros by cases blast+
  qed
qed (auto elim: deliver_step.cases)


section \<open>Properties\<close>

lemma settled_status:
  assumes "condition_meta ops" and "settled ops s cr"
  shows "st_Ready (ra_Status cr) \<longleftrightarrow>
      pods_ready (app_pods (sy_pods s) cr) \<and> \<not> upstream_down cr (Some (store_reader (sy_store s)))"
    and "st_ObservedGeneration (ra_Status cr) = ra_Generation cr"
    and "cond_is ops (st_Conditions (ra_Status cr)) ConditionTypeTunnelVerified =
      map_option cond_status (verified_want cr (Some (store_reader (sy_store s))))"
proof -
  have computed: "computeStatus ops (\<lambda>_. 0) cr (app_pods (sy_pods s) cr) (st_Conditions (ra_Status cr)) ''''
      (Some (store_reader (sy_store s))) = Some (ra_Status cr)"
    using assms(2) by (simp add: settled_def)
  from computed have st: "ra_Status cr = the (computeStatus ops (\<lambda>_. 0) cr (app_pods (sy_pods s) cr)
      (st_Conditions (ra_Status cr)) '''' (Some (store_reader (sy_store s))))" by simp
  show "st_Ready (ra_Status cr) \<longleftrightarrow>
      pods_ready (app_pods (sy_pods s) cr) \<and> \<not> upstream_down cr (Some (store_reader (sy_store s)))"
    by (subst st) (simp add: computeStatus_eq ready_part_ready)
  show "st_ObservedGeneration (ra_Status cr) = ra_Generation cr"
    by (subst st) (simp add: computeStatus_eq)
  show "cond_is ops (st_Conditions (ra_Status cr)) ConditionTypeTunnelVerified =
      map_option cond_status (verified_want cr (Some (store_reader (sy_store s))))"
    by (rule cond_is_computed [OF assms(1) computed wants_lookup(1)])
qed

lemma verified_want_True:
  "map_option cond_status (verified_want cr (Some (store_reader st))) = Some ConditionTrue \<longleftrightarrow>
     Enabled st \<and> (\<exists>o'. Result st (ra_key cr) = Some o' \<and> v_Result o' = ResultVerified)"
  by (auto simp: verified_want_def verified_body_status store_reader_def split: option.split)

text \<open>C3. The status in the API server follows what the operator knows: in every state that
  rounds, passes, watch events and lost reads lead to from the start of the process, a live
  RemoteApp with no request pending in the event channel or the work queue shows Ready
  exactly when one of its pods is Ready and its upstream probe did not fail, TunnelVerified
  True exactly when the stored outcome is Verified, and the current generation. It needs
  rounds that load the trust bundle and an event channel with room.\<close>

theorem status_tracks_store:
  assumes "condition_meta ops" and "distinct (map ra_key apps)" and "\<forall>cr \<in> set apps. ra_Name cr \<noteq> ''''"
    and "(system_step ops f cfg v vcfg)\<^sup>*\<^sup>* (system_init e u apps pods) s"
    and "cr \<in> set (sy_apps s)" and "ra_DeletionTimestamp cr = None" and "\<not> pending s (ra_key cr)"
  shows "(st_Ready (ra_Status cr) \<longleftrightarrow>
      pods_ready (app_pods (sy_pods s) cr) \<and> \<not> upstream_down cr (Some (store_reader (sy_store s)))) \<and>
    (cond_is ops (st_Conditions (ra_Status cr)) ConditionTypeTunnelVerified = Some ConditionTrue \<longleftrightarrow>
      Enabled (sy_store s) \<and>
      (\<exists>o'. Result (sy_store s) (ra_key cr) = Some o' \<and> v_Result o' = ResultVerified)) \<and>
    st_ObservedGeneration (ra_Status cr) = ra_Generation cr"
proof -
  have "system_inv ops s"
    by (rule system_inv_reachable [OF assms(1,4) system_inv_init [OF assms(2,3)]])
  then have "settled ops s cr" using assms(5-7) by (auto simp: system_inv_def)
  from settled_status [OF assms(1) this] show ?thesis unfolding verified_want_True [symmetric] by simp
qed

text \<open>
  The API server of the examples answers every call from the state. Transition times are
  read back unchanged.
\<close>

definition example_server :: "system \<Rightarrow> rec_env" where
  "example_server s =
     example_rec_env\<lparr>en_Get := get_app (sy_apps s),
       en_ListPods := (\<lambda>ns sel. Inr (selected_pods (sy_pods s) ns sel))\<rparr>"

lemma example_answering: "answering documented_meta example_defaults example_server"
proof -
  have steps: "\<exists>steps. owned_steps (example_server s) cr example_defaults = Some steps" for s cr
    by (simp add: owned_steps_def example_server_def example_rec_env_def renderConfigMap_def
        renderDeployment_def configHash_def emptyDirSizeLimit_def tbotConfig_def example_ops_def)
  have "list_all (step_ok (example_server s) cr) steps"
    if "owned_steps (example_server s) cr example_defaults = Some steps" for s cr steps
    by (rule documented_owner.steps_ok [OF _ owned_steps_ownable [OF that]])
      (simp_all add: example_server_def example_rec_env_def)
  with steps have "\<exists>steps. owned_steps (example_server s) cr example_defaults = Some steps \<and>
      list_all (step_ok (example_server s) cr) steps" for s cr by blast
  then have "\<forall>s. answers (example_server s) example_defaults s \<and> en_meta (example_server s) = documented_meta \<and>
      deep_equality (en_DeepEqual (example_server s))"
    by (simp add: answers_def)
      (simp add: example_server_def example_rec_env_def record_equality.deep_equality_axioms)
  moreover have "en_SetControllerReference (example_server s) =
      documented_reference ''access.giantswarm.io/v1alpha1'' ''RemoteApp''" for s
    by (simp add: example_server_def example_rec_env_def)
  then have "\<forall>s. controller_reference (en_SetControllerReference (example_server s))
      (reference_to ''access.giantswarm.io/v1alpha1'' ''RemoteApp'')"
    using documented_owner.controller_reference_axioms by simp
  ultimately show ?thesis unfolding answering_def by (auto simp: example_server_def)
qed

abbreviation example_start :: system where
  "example_start \<equiv> system_init True True [example_cr] example_pods"

lemma example_inv: "system_inv documented_meta example_start"
  by (rule system_inv_init) (simp_all add: example_cr_def)

lemma example_delivered:
  obtains s cr where "(deliver_step example_server (stored_cond truncate_second) example_defaults)\<^sup>*\<^sup>* example_start s"
    "ch_queue (sy_chan s) = []" "sy_work s = []" "sy_apps s = [cr]" "ra_key cr = ra_key example_cr"
    "ra_DeletionTimestamp cr = None" "ra_Generation cr = 3" "sy_pods s = example_pods"
    "sy_store s = NewVerificationStore True True" "sy_watch s = []"
proof -
  obtain s where s: "(deliver_step example_server (stored_cond truncate_second) example_defaults)\<^sup>*\<^sup>* example_start s"
      "ch_queue (sy_chan s) = []" "sy_work s = []" "sy_watch s = []"
    using delivery_ends [OF documented.condition_meta_axioms only_times_stored example_answering example_inv]
    unfolding delivered_iff by blast
  have kept: "sy_pods s = example_pods" "sy_store s = NewVerificationStore True True"
    "map (ra_Status_update (\<lambda>_. example_status)) (sy_apps s) = [ra_Status_update (\<lambda>_. example_status) example_cr]"
    using deliver_keeps [OF documented.condition_meta_axioms only_times_stored example_answering s(1) example_inv,
        of example_status] by (simp_all add: system_init_def)
  then obtain cr where cr: "sy_apps s = [cr]" "cr\<lparr>ra_Status := example_status\<rparr> = example_cr\<lparr>ra_Status := example_status\<rparr>"
    by auto
  from arg_cong [OF cr(2), of ra_key] arg_cong [OF cr(2), of ra_DeletionTimestamp] arg_cong [OF cr(2), of ra_Generation]
  have "ra_key cr = ra_key example_cr" "ra_DeletionTimestamp cr = None" "ra_Generation cr = 3"
    by (simp_all add: example_cr_def)
  with s kept(1,2) cr(1) show ?thesis by (intro that) simp_all
qed

theorem status_tracks_store_witness:
  "\<exists>s cr. (system_step documented_meta (stored_cond truncate_second) example_defaults example_verifier
       example_config)\<^sup>*\<^sup>* example_start s \<and>
     sy_apps s = [cr] \<and> \<not> pending s (ra_key cr) \<and> st_Ready (ra_Status cr) \<and>
     st_ObservedGeneration (ra_Status cr) = 3"
proof -
  obtain s cr where s: "(deliver_step example_server (stored_cond truncate_second) example_defaults)\<^sup>*\<^sup>* example_start s"
    "ch_queue (sy_chan s) = []" "sy_work s = []" "sy_apps s = [cr]" "ra_key cr = ra_key example_cr"
    "ra_DeletionTimestamp cr = None" "ra_Generation cr = 3" "sy_pods s = example_pods"
    "sy_store s = NewVerificationStore True True" by (rule example_delivered)
  have run: "(system_step documented_meta (stored_cond truncate_second) example_defaults example_verifier
      example_config)\<^sup>*\<^sup>* example_start s"
    using s(1) deliver_is_step [OF example_answering] by (metis mono_rtranclp)
  have idle: "\<not> pending s (ra_key cr)" using s(2,3) by (simp add: pending_def)
  have key: "ra_Namespace cr = ''mcp''" "ra_Name cr = ''kube''" using s(5) by (simp_all add: example_cr_def)
  have "pods_ready (app_pods (sy_pods s) cr)"
    by (simp add: pods_ready_def app_pods_def selected_pods_def s(8) example_pods_def selects_def key)
      (simp add: example_pod_def isPodReady_def PodReady_def)
  moreover have "\<not> upstream_down cr (Some (store_reader (sy_store s)))"
    by (simp add: s(9) upstream_down_def store_reader_def)
  ultimately show ?thesis
    using status_tracks_store [OF documented.condition_meta_axioms _ _ run, of cr] s(4,6,7) run idle
    by (auto simp: example_cr_def)
qed

text \<open>C4. Requests do not chase each other: whatever is pending and whatever objects the server
  holds, and in whatever order events are forwarded, watch events arrive and requests are
  taken, deliveries end. A pass may cause a watch event for the status it patched and for
  each of the five objects it applied; an API server that answers, and that raises a watch
  event only for an apply that changes the object, sees at most two steps for each event in
  the channel or on its way, one for each request and eleven for each RemoteApp. Steps can
  be taken until nothing is pending, and then every live RemoteApp has the status a pass
  would compute again.\<close>

theorem deliveries_settle:
  assumes "condition_meta ops" and "only_times f" and "answering ops cfg E"
    and "distinct (map ra_key apps)" and "\<forall>cr \<in> set apps. ra_Name cr \<noteq> ''''"
    and "(system_step ops f cfg v vcfg)\<^sup>*\<^sup>* (system_init e u apps pods) s"
  shows "(\<forall>n s'. (deliver_step E f cfg ^^ n) s s' \<longrightarrow>
      n \<le> 2 * length (ch_queue (sy_chan s)) + length (sy_work s) + 2 * length (sy_watch s) +
        11 * length (sy_apps s)) \<and>
    (\<exists>s'. (deliver_step E f cfg)\<^sup>*\<^sup>* s s' \<and> (\<nexists>s''. deliver_step E f cfg s' s'')) \<and>
    (\<forall>s'. (deliver_step E f cfg)\<^sup>*\<^sup>* s s' \<and> (\<nexists>s''. deliver_step E f cfg s' s'') \<longrightarrow>
      ch_queue (sy_chan s') = [] \<and> sy_work s' = [] \<and> sy_watch s' = [] \<and>
      (\<forall>cr \<in> set (sy_apps s'). ra_DeletionTimestamp cr = None \<longrightarrow> settled ops s' cr))"
proof (intro conjI allI impI)
  have inv: "system_inv ops s"
    by (rule system_inv_reachable [OF assms(1,6) system_inv_init [OF assms(4,5)]])
  show "\<exists>s'. (deliver_step E f cfg)\<^sup>*\<^sup>* s s' \<and> (\<nexists>s''. deliver_step E f cfg s' s'')"
    by (rule delivery_ends [OF assms(1-3) inv])
  show "n \<le> 2 * length (ch_queue (sy_chan s)) + length (sy_work s) + 2 * length (sy_watch s) +
      11 * length (sy_apps s)" if "(deliver_step E f cfg ^^ n) s s'" for n s'
    using delivery_work_le [OF assms(1-3) inv that] length_filter_le [of "\<lambda>cr. \<not> settled ops s cr" "sy_apps s"]
      stale_total_bound [OF assms(3), of "sy_owned s" s "sy_apps s"]
    unfolding delivery_work_def unsettled_def by linarith
  fix s' assume fin: "(deliver_step E f cfg)\<^sup>*\<^sup>* s s' \<and> (\<nexists>s''. deliver_step E f cfg s' s'')"
  then show "ch_queue (sy_chan s') = []" "sy_work s' = []" "sy_watch s' = []" unfolding delivered_iff by simp_all
  moreover have "system_inv ops s'" using deliver_keeps_inv [OF assms(1,3) _ inv] fin by blast
  ultimately show "\<forall>cr \<in> set (sy_apps s'). ra_DeletionTimestamp cr = None \<longrightarrow> settled ops s' cr"
    by (simp add: system_inv_def pending_def)
qed

theorem deliveries_settle_witness:
  "(\<nexists>n s'. (deliver_step example_server (stored_cond truncate_second) example_defaults ^^ n) example_start s' \<and>
      12 < n) \<and>
   (\<exists>s' cr. (deliver_step example_server (stored_cond truncate_second) example_defaults)\<^sup>*\<^sup>* example_start s' \<and>
      sy_apps s' = [cr] \<and> sy_work s' = [] \<and> sy_watch s' = [] \<and> settled documented_meta s' cr)"
proof -
  let ?d = "deliver_step example_server (stored_cond truncate_second) example_defaults"
  have names: "distinct (map ra_key [example_cr])" "\<forall>cr \<in> set [example_cr]. ra_Name cr \<noteq> ''''"
    by (simp_all add: example_cr_def)
  have run: "(system_step documented_meta (stored_cond truncate_second) example_defaults example_verifier
      example_config)\<^sup>*\<^sup>* example_start example_start" by simp
  note settle = deliveries_settle [OF documented.condition_meta_axioms only_times_stored example_answering names run]
  obtain s' cr where s': "?d\<^sup>*\<^sup>* example_start s'" "ch_queue (sy_chan s') = []" "sy_work s' = []" "sy_watch s' = []"
      "sy_apps s' = [cr]" "ra_DeletionTimestamp cr = None"
    using example_delivered by metis
  then have "\<nexists>s''. ?d s' s''" unfolding delivered_iff by simp
  with settle s' have "settled documented_meta s' cr" by simp
  moreover have "2 * length (ch_queue (sy_chan example_start)) + length (sy_work example_start) +
      2 * length (sy_watch example_start) + 11 * length (sy_apps example_start) = 12"
    by (simp add: system_init_def verification_events_def)
  then have "\<nexists>n s'. (?d ^^ n) example_start s' \<and> 12 < n"
    using conjunct1 [OF settle] by (metis not_le)
  ultimately show ?thesis using s' by blast
qed

text \<open>C21. A lost trust bundle goes unnoticed in the status: a round that cannot load it takes the
  outcome of a verified tunnel out of the store without a request, so that TunnelVerified
  stays True, against the store, until something else requests a pass.\<close>

theorem bundle_loss_unnoticed:
  assumes "condition_meta ops"
    and "loadTrustBundle (re_readFile env) (re_appendCerts env) (vc_TrustBundleFile (withDefaults vcfg)) = Inl err"
    and "Enabled (sy_store s)" and "settled ops s cr" and "\<not> pending s (ra_key cr)"
    and "Result (sy_store s) (ra_key cr) = Some o'" and "v_Result o' = ResultVerified"
  shows "let s' = round_step v vcfg env s
    in sy_apps s' = sy_apps s \<and> \<not> pending s' (ra_key cr) \<and> Result (sy_store s') (ra_key cr) = None \<and>
       cond_is ops (st_Conditions (ra_Status cr)) ConditionTypeTunnelVerified = Some ConditionTrue \<and>
       \<not> settled ops s' cr"
proof -
  let ?s' = "round_step v vcfg env s"
  have s': "?s' = s\<lparr>sy_store := SetBundleUnavailable (sy_store s)\<rparr>"
    using assms(2) by (simp add: round_step_def RunOnce_def Let_def)
  have true: "cond_is ops (st_Conditions (ra_Status cr)) ConditionTypeTunnelVerified = Some ConditionTrue"
    using settled_status(3) [OF assms(1,4)] assms(3,6,7) verified_want_True [of cr "sy_store s"] by simp
  have gone: "Result (sy_store ?s') (ra_key cr) = None" by (simp add: s')
  have "\<not> settled ops ?s' cr"
  proof
    assume "settled ops ?s' cr"
    from settled_status(3) [OF assms(1) this] true gone verified_want_True [of cr "sy_store ?s'"]
    show False by simp
  qed
  with true gone assms(5) show ?thesis by (simp add: s' pending_def)
qed

definition example_verified :: verification_store where
  "example_verified =
     Replace (NewVerificationStore True True) (example_result ResultVerified UpstreamReachable) 5"

theorem bundle_loss_unnoticed_witness:
  "\<exists>st. let cr = example_cr\<lparr>ra_Status := st\<rparr>;
        s = \<lparr>sy_apps = [cr], sy_pods = example_pods, sy_store = example_verified,
             sy_chan = verification_events, sy_work = [], sy_owned = Map.empty, sy_watch = []\<rparr>;
        s' = round_step example_verifier example_config
          ((example_env example_pods (Inr 200))\<lparr>re_readFile := (\<lambda>_. Inl (errors_new ''no such file''))\<rparr>) s
    in settled documented_meta s cr \<and> \<not> pending s' (ra_key cr) \<and> \<not> settled documented_meta s' cr \<and>
       cond_is documented_meta (st_Conditions st) ConditionTypeTunnelVerified = Some ConditionTrue"
proof -
  obtain st where st: "computeStatus documented_meta (\<lambda>_. 7) example_cr (app_pods example_pods example_cr) [] ''''
      (Some (store_reader example_verified)) = Some st"
    by (simp add: computeStatus_eq)
  let ?cr = "example_cr\<lparr>ra_Status := st\<rparr>"
  let ?s = "\<lparr>sy_apps = [?cr], sy_pods = example_pods, sy_store = example_verified,
             sy_chan = verification_events, sy_work = [], sy_owned = Map.empty, sy_watch = []\<rparr>"
  let ?env = "(example_env example_pods (Inr 200))\<lparr>re_readFile := (\<lambda>_. Inl (errors_new ''no such file''))\<rparr>"
  have settled: "settled documented_meta ?s ?cr"
    using computeStatus_fixpoint [OF documented.condition_meta_axioms st]
    by (simp add: settled_def computeStatus_ignores_status)
  obtain err where lost: "loadTrustBundle (re_readFile ?env) (re_appendCerts ?env)
      (vc_TrustBundleFile (withDefaults example_config)) = Inl err"
    by (simp add: loadTrustBundle_def example_config_def withDefaults_eq Let_def)
  have "Result example_verified (ra_key ?cr) =
      go_get (example_result ResultVerified UpstreamReachable) (NamespacedName ''mcp'' ''kube'')"
    by (simp add: example_verified_def Result_Replace) (simp add: example_cr_def)
  then obtain o' where o: "Result example_verified (ra_key ?cr) = Some o'" "v_Result o' = ResultVerified"
    by (simp add: example_result_def)
  have idle: "\<not> pending ?s (ra_key ?cr)" by (simp add: pending_def verification_events_def)
  have "Enabled (sy_store ?s)" by (simp add: example_verified_def Enabled_def NewVerificationStore_def)
  from bundle_loss_unnoticed [OF documented.condition_meta_axioms lost this settled idle] o settled
  show ?thesis by (intro exI [of _ st]) (simp add: Let_def)
qed

end
