(* ===== verification/Regex.thy ===== *)
theory Regex
  imports Prelude
begin

text \<open>
  Regular expressions as \<open>regexp\<close> matches them, for the anchored patterns of \<open>main.go\<close>:
  character classes, sequence, alternative, repetition. The matcher works by derivatives;
  the lemma \<open>rx_match_lang\<close> relates it to the language of the expression.
\<close>

datatype regex =
    Empty
  | Eps
  | Class "char \<Rightarrow> bool"
  | Seq regex regex
  | Alt regex regex
  | Rep regex

definition Opt :: "regex \<Rightarrow> regex" where "Opt r = Alt r Eps"

definition Plus :: "regex \<Rightarrow> regex" where "Plus r = Seq r (Rep r)"

fun nullable :: "regex \<Rightarrow> bool" where
  "nullable Empty = False"
| "nullable Eps = True"
| "nullable (Class _) = False"
| "nullable (Seq r s) = (nullable r \<and> nullable s)"
| "nullable (Alt r s) = (nullable r \<or> nullable s)"
| "nullable (Rep _) = True"

fun deriv :: "char \<Rightarrow> regex \<Rightarrow> regex" where
  "deriv c Empty = Empty"
| "deriv c Eps = Empty"
| "deriv c (Class P) = (if P c then Eps else Empty)"
| "deriv c (Seq r s) =
     (if nullable r then Alt (Seq (deriv c r) s) (deriv c s) else Seq (deriv c r) s)"
| "deriv c (Alt r s) = Alt (deriv c r) (deriv c s)"
| "deriv c (Rep r) = Seq (deriv c r) (Rep r)"

fun rx_match :: "regex \<Rightarrow> string \<Rightarrow> bool" where
  "rx_match r [] = nullable r"
| "rx_match r (c # cs) = rx_match (deriv c r) cs"

text \<open>The language, with repetition as concatenation of non-empty members.\<close>

inductive in_rx :: "regex \<Rightarrow> string \<Rightarrow> bool" where
  eps: "in_rx Eps []"
| cls: "P c \<Longrightarrow> in_rx (Class P) [c]"
| seq: "in_rx r xs \<Longrightarrow> in_rx s ys \<Longrightarrow> in_rx (Seq r s) (xs @ ys)"
| alt1: "in_rx r xs \<Longrightarrow> in_rx (Alt r s) xs"
| alt2: "in_rx s xs \<Longrightarrow> in_rx (Alt r s) xs"
| rep0: "in_rx (Rep r) []"
| rep1: "in_rx r xs \<Longrightarrow> in_rx (Rep r) ys \<Longrightarrow> in_rx (Rep r) (xs @ ys)"

inductive_simps in_rx_simps [simp]:
  "in_rx Empty xs" "in_rx Eps xs" "in_rx (Class P) xs" "in_rx (Seq r s) xs" "in_rx (Alt r s) xs"

inductive_cases in_RepE: "in_rx (Rep r) xs"

lemma nullable_in: "nullable r \<longleftrightarrow> in_rx r []"
  by (induction r) (auto intro: rep0)

lemma in_Rep_Cons:
  "in_rx (Rep r) (c # cs) \<Longrightarrow> \<exists>xs ys. cs = xs @ ys \<and> in_rx r (c # xs) \<and> in_rx (Rep r) ys"
proof (induction "Rep r" "c # cs" rule: in_rx.induct)
  case (rep1 xs ys)
  then show ?case by (cases xs) auto
qed

lemma deriv_in: "in_rx (deriv c r) cs \<longleftrightarrow> in_rx r (c # cs)"
proof (induction r arbitrary: cs)
  case (Seq r s)
  have "in_rx (Seq r s) (c # cs) \<longleftrightarrow>
      (\<exists>xs ys. cs = xs @ ys \<and> in_rx r (c # xs) \<and> in_rx s ys) \<or> in_rx r [] \<and> in_rx s (c # cs)"
    by (auto simp: Cons_eq_append_conv)
  with Seq show ?case by (auto simp: nullable_in)
next
  case (Rep r)
  then show ?case
    by (auto dest: in_Rep_Cons) (metis append_Cons rep1)
qed auto

lemma rx_match_lang: "rx_match r xs \<longleftrightarrow> in_rx r xs"
  by (induction xs arbitrary: r) (simp_all add: nullable_in deriv_in)

lemma in_Opt [simp]: "in_rx (Opt r) xs \<longleftrightarrow> in_rx r xs \<or> xs = []"
  by (auto simp: Opt_def)

lemma in_Rep_iff: "in_rx (Rep r) xs \<longleftrightarrow> (\<exists>ys. list_all (in_rx r) ys \<and> xs = concat ys)"
proof
  assume "in_rx (Rep r) xs"
  then show "\<exists>ys. list_all (in_rx r) ys \<and> xs = concat ys"
  proof (induction "Rep r" xs rule: in_rx.induct)
    case rep0
    show ?case by (rule exI [of _ "[]"]) simp
  next
    case (rep1 xs ys)
    then obtain zs where "list_all (in_rx r) zs" "ys = concat zs" by blast
    with rep1 show ?case by (intro exI [of _ "xs # zs"]) simp
  qed
next
  assume "\<exists>ys. list_all (in_rx r) ys \<and> xs = concat ys"
  then obtain ys where "list_all (in_rx r) ys" "xs = concat ys" by blast
  then show "in_rx (Rep r) xs"
    by (induction ys arbitrary: xs) (auto intro: rep0 rep1)
qed

lemma in_Rep_Class: "in_rx (Rep (Class P)) xs \<longleftrightarrow> list_all P xs"
proof -
  have "\<exists>ys. list_all (in_rx (Class P)) ys \<and> xs = concat ys" if "list_all P xs"
    using that by (intro exI [of _ "map (\<lambda>c. [c]) xs"]) (simp add: list_all_iff)
  moreover have "list_all P (concat ys)" if "list_all (in_rx (Class P)) ys" for ys
    using that by (induction ys) auto
  ultimately show ?thesis unfolding in_Rep_iff by blast
qed

end
