(* ===== verification/Startup.thy ===== *)
theory Startup
  imports Round Controller Regex "HOL-Library.Word"
begin

text \<open>
  \<open>main.go\<close>: the flags, their validation, and the wiring of the manager.

  A function of the source that logs and calls \<open>os.Exit(1)\<close> returns \<open>Inl\<close> with the
  message it logs; calls happen in the order of the source, so the message is that of the
  first check that fails. Quantities (\<open>resource.ParseQuantity\<close>, \<open>Cmp\<close>, \<open>String\<close>) and
  the manager of controller-runtime are parameters. The flags are here as the record they
  are parsed into, with its defaults; the command line is in theory \<open>Flags\<close>.
\<close>

section \<open>Flags\<close>

record flags =
  f_metricsAddr :: string
  f_metricsCertPath :: string
  f_metricsCertName :: string
  f_metricsCertKey :: string
  f_webhookCertPath :: string
  f_webhookCertName :: string
  f_webhookCertKey :: string
  f_probeAddr :: string
  f_enableLeaderElection :: bool
  f_secureMetrics :: bool
  f_enableHTTP2 :: bool
  f_tbotImage :: string
  f_tbotCPURequest :: string
  f_tbotMemRequest :: string
  f_tbotCPULimit :: string
  f_tbotMemLimit :: string
  f_tbotInsecure :: bool
  f_teleportClusterName :: string
  f_teleportProxyAddr :: string
  f_ghostunnelImage :: string
  f_ghostunnelReloadInterval :: string
  f_ghostunnelListenPort :: int
  f_ghostunnelCPURequest :: string
  f_ghostunnelMemRequest :: string
  f_ghostunnelCPULimit :: string
  f_ghostunnelMemLimit :: string
  f_verifyTunnels :: bool
  f_verifyInterval :: duration
  f_verifyTimeout :: duration
  f_verifyJitter :: duration
  f_verifyConcurrency :: int
  f_verifyUpstream :: bool
  f_verifyUpstreamTimeout :: duration
  f_verifyTrustBundleFile :: string
  f_clusterDomain :: string

text \<open>The values \<open>parseFlags\<close> returns for an empty command line.\<close>

definition default_flags :: flags where
  "default_flags =
     \<lparr>f_metricsAddr = ''0'', f_metricsCertPath = '''', f_metricsCertName = ''tls.crt'',
      f_metricsCertKey = ''tls.key'', f_webhookCertPath = '''', f_webhookCertName = ''tls.crt'',
      f_webhookCertKey = ''tls.key'', f_probeAddr = '':8081'', f_enableLeaderElection = False,
      f_secureMetrics = True, f_enableHTTP2 = False,
      f_tbotImage = ''public.ecr.aws/gravitational/teleport-distroless:16'',
      f_tbotCPURequest = ''50m'', f_tbotMemRequest = ''64Mi'', f_tbotCPULimit = ''200m'',
      f_tbotMemLimit = ''256Mi'', f_tbotInsecure = False, f_teleportClusterName = '''',
      f_teleportProxyAddr = '''', f_ghostunnelImage = ''ghostunnel/ghostunnel:v1.7.3'',
      f_ghostunnelReloadInterval = ''5m'', f_ghostunnelListenPort = 8443,
      f_ghostunnelCPURequest = ''10m'', f_ghostunnelMemRequest = ''32Mi'',
      f_ghostunnelCPULimit = ''200m'', f_ghostunnelMemLimit = ''256Mi'', f_verifyTunnels = True,
      f_verifyInterval = DefaultVerifyInterval, f_verifyTimeout = DefaultVerifyTimeout,
      f_verifyJitter = DefaultVerifyJitter, f_verifyConcurrency = DefaultVerifyConcurrency,
      f_verifyUpstream = True, f_verifyUpstreamTimeout = DefaultUpstreamProbeTimeout,
      f_verifyTrustBundleFile = '''', f_clusterDomain = DefaultClusterDomain\<rparr>"


section \<open>Checks\<close>

type_synonym 'a or_exit = "string + 'a"

definition bind_exit :: "'a or_exit \<Rightarrow> ('a \<Rightarrow> 'b or_exit) \<Rightarrow> 'b or_exit" where
  "bind_exit m f = (case m of Inl e \<Rightarrow> Inl e | Inr x \<Rightarrow> f x)"

lemma bind_exit_simps [simp]: "bind_exit (Inl e) f = Inl e" "bind_exit (Inr x) f = f x"
  by (simp_all add: bind_exit_def)

lemma bind_exit_assoc: "bind_exit (bind_exit m f) g = bind_exit m (\<lambda>x. bind_exit (f x) g)"
  by (cases m) simp_all

lemma bind_exit_Inr: "bind_exit m f = Inr y \<longleftrightarrow> (\<exists>x. m = Inr x \<and> f x = Inr y)"
  by (cases m) auto

definition leaderElectionNamespaceOrExit :: "string \<Rightarrow> string or_exit" where
  "leaderElectionNamespaceOrExit podNamespace =
     (if podNamespace = '''' then Inl ''POD_NAMESPACE is empty'' else Inr podNamespace)"

record quantity_ops =
  q_Parse :: "string \<Rightarrow> go_error + api_value"
  q_Cmp :: "api_value \<Rightarrow> api_value \<Rightarrow> int"
  q_String :: "api_value \<Rightarrow> string"
  q_zero :: api_value

definition parseQuantityOrExit :: "quantity_ops \<Rightarrow> string \<Rightarrow> string \<Rightarrow> api_value or_exit" where
  "parseQuantityOrExit q name val =
     (case q_Parse q val of Inl err \<Rightarrow> Inl ''invalid quantity flag'' | Inr x \<Rightarrow> Inr x)"

definition ResourceCPU :: string where "ResourceCPU = ''cpu''"
definition ResourceMemory :: string where "ResourceMemory = ''memory''"

definition quantity_at :: "quantity_ops \<Rightarrow> (string, api_value) go_map \<Rightarrow> string \<Rightarrow> api_value" where
  "quantity_at q m name = (case go_get m name of Some x \<Rightarrow> x | None \<Rightarrow> q_zero q)"

definition requestsWithinLimits ::
  "quantity_ops \<Rightarrow> string \<Rightarrow> resource_requirements \<Rightarrow> go_error option" where
  "requestsWithinLimits q container r =
     first_some
       (\<lambda>name.
          let request = quantity_at q (rr_Requests r) name; limit = quantity_at q (rr_Limits r) name
          in if q_Cmp q request limit > 0
             then Some (errors_new (''--'' @ container @ ''-'' @ name @ ''-request '' @ q_String q request @
                    '' is above --'' @ container @ ''-'' @ name @ ''-limit '' @ q_String q limit))
             else None)
       [ResourceCPU, ResourceMemory]"

definition resourcesOrExit ::
  "quantity_ops \<Rightarrow> string \<Rightarrow> string \<Rightarrow> string \<Rightarrow> string \<Rightarrow> string \<Rightarrow> resource_requirements or_exit" where
  "resourcesOrExit q container cpuRequest memRequest cpuLimit memLimit =
     bind_exit (parseQuantityOrExit q (container @ ''-cpu-request'') cpuRequest) (\<lambda>cpuR.
     bind_exit (parseQuantityOrExit q (container @ ''-memory-request'') memRequest) (\<lambda>memR.
     bind_exit (parseQuantityOrExit q (container @ ''-cpu-limit'') cpuLimit) (\<lambda>cpuL.
     bind_exit (parseQuantityOrExit q (container @ ''-memory-limit'') memLimit) (\<lambda>memL.
       let r = \<lparr>rr_Requests = [(ResourceCPU, cpuR), (ResourceMemory, memR)],
                rr_Limits = [(ResourceCPU, cpuL), (ResourceMemory, memL)]\<rparr>
       in case requestsWithinLimits q container r of
            Some err \<Rightarrow> Inl ''resource request above its limit''
          | None \<Rightarrow> Inr r))))"

definition alnum :: "char \<Rightarrow> bool" where
  "alnum c \<longleftrightarrow> CHR ''a'' \<le> c \<and> c \<le> CHR ''z'' \<or> CHR ''0'' \<le> c \<and> c \<le> CHR ''9''"

definition digit :: "char \<Rightarrow> bool" where
  "digit c \<longleftrightarrow> CHR ''0'' \<le> c \<and> c \<le> CHR ''9''"

text \<open>\<open>[a-z0-9](X*[a-z0-9])?\<close> for a class \<open>X\<close>, the building block of both patterns.\<close>

definition label_rx :: "(char \<Rightarrow> bool) \<Rightarrow> regex" where
  "label_rx inner = Seq (Class alnum) (Opt (Seq (Rep (Class inner)) (Class alnum)))"

definition teleportClusterNamePattern :: regex where
  "teleportClusterNamePattern =
     (let label = label_rx (\<lambda>c. c = CHR ''-'' \<or> alnum c)
      in Seq label (Rep (Seq (Class (\<lambda>c. c = CHR ''.'')) label)))"

definition teleportProxyAddrPattern :: regex where
  "teleportProxyAddrPattern =
     (let label = label_rx (\<lambda>c. c = CHR ''-'' \<or> alnum c \<or> c = CHR ''.'')
      in Seq (Seq label (Rep (Seq (Class (\<lambda>c. c = CHR ''.'')) label)))
             (Seq (Class (\<lambda>c. c = CHR '':'')) (Plus (Class digit))))"

definition requireOrExit :: "string \<Rightarrow> string \<Rightarrow> regex \<Rightarrow> string or_exit" where
  "requireOrExit name val pattern =
     (if val = '''' then Inl ''required flag is empty''
      else if \<not> rx_match pattern val then Inl ''required flag has invalid format''
      else Inr val)"

text \<open>The narrowing conversion \<open>int32(x)\<close>.\<close>

definition to_int32 :: "int \<Rightarrow> int" where
  "to_int32 x = sint (word_of_int x :: 32 word)"

definition ghostunnelListenPortOrExit :: "flags \<Rightarrow> int or_exit" where
  "ghostunnelListenPortOrExit f =
     (if f_ghostunnelListenPort f < 1 \<or> f_ghostunnelListenPort f > 65535
      then Inl ''invalid --ghostunnel-listen-port (must be 1-65535)''
      else Inr (to_int32 (f_ghostunnelListenPort f)))"

definition buildReconcilerConfig :: "quantity_ops \<Rightarrow> flags \<Rightarrow> pod_defaults or_exit" where
  "buildReconcilerConfig q f =
     bind_exit (resourcesOrExit q ''tbot'' (f_tbotCPURequest f) (f_tbotMemRequest f)
                  (f_tbotCPULimit f) (f_tbotMemLimit f)) (\<lambda>resources.
     bind_exit (requireOrExit ''teleport-cluster-name'' (f_teleportClusterName f)
                  teleportClusterNamePattern) (\<lambda>clusterName.
     bind_exit (requireOrExit ''teleport-proxy-addr'' (f_teleportProxyAddr f)
                  teleportProxyAddrPattern) (\<lambda>proxyAddr.
     bind_exit (ghostunnelListenPortOrExit f) (\<lambda>listenPort.
     bind_exit (resourcesOrExit q ''ghostunnel'' (f_ghostunnelCPURequest f) (f_ghostunnelMemRequest f)
                  (f_ghostunnelCPULimit f) (f_ghostunnelMemLimit f)) (\<lambda>ghostunnelResources.
       Inr \<lparr>pd_TbotImage = f_tbotImage f, pd_Resources = resources,
            pd_Insecure = f_tbotInsecure f, pd_TeleportClusterName = clusterName,
            pd_TeleportProxyAddr = proxyAddr, pd_GhostunnelImage = f_ghostunnelImage f,
            pd_GhostunnelReloadInterval = f_ghostunnelReloadInterval f,
            pd_GhostunnelListenPort = listenPort,
            pd_GhostunnelResources = ghostunnelResources\<rparr>)))))"

definition buildVerifyConfig :: "flags \<Rightarrow> verify_config or_exit" where
  "buildVerifyConfig f =
     (if f_verifyConcurrency f < 1 then Inl ''invalid --verify-concurrency (must be >= 1)''
      else bind_exit (ghostunnelListenPortOrExit f) (\<lambda>tlsPort.
        Inr \<lparr>vc_Enabled = (f_verifyTunnels f \<and> f_verifyTrustBundleFile f \<noteq> ''''),
             vc_Interval = f_verifyInterval f, vc_Timeout = f_verifyTimeout f,
             vc_Jitter = f_verifyJitter f, vc_Concurrency = f_verifyConcurrency f,
             vc_UpstreamProbe = f_verifyUpstream f, vc_UpstreamTimeout = f_verifyUpstreamTimeout f,
             vc_TrustBundleFile = f_verifyTrustBundleFile f, vc_ClusterDomain = f_clusterDomain f,
             vc_TLSPort = tlsPort\<rparr>))"


section \<open>Wiring\<close>

text \<open>The outcomes of the manager calls of \<open>main\<close>, \<open>None\<close> for success; \<open>GetConfigOrDie\<close> ends the
  process itself, with a message of its own.\<close>

record main_env =
  me_podNamespace :: string
  me_quantities :: quantity_ops
  me_GetConfigOrDie :: "string option"
  me_NewManager :: "go_error option"
  me_register :: "verification_store \<Rightarrow> string option"
  me_mgrAdd :: "go_error option"
  me_SetupWithManager :: "go_error option"
  me_AddHealthz :: "go_error option"
  me_AddReadyz :: "go_error option"
  me_Start :: "go_error option"

record server_options =
  so_BindAddress :: string
  so_Secure :: bool
  so_DisableHTTP2 :: bool
  so_Auth :: bool
  so_Cert :: "(string \<times> string \<times> string) option"

record webhook_options =
  wo_DisableHTTP2 :: bool
  wo_Cert :: "(string \<times> string \<times> string) option"

record wiring =
  wi_PodDefaults :: pod_defaults
  wi_VerifyConfig :: verify_config
  wi_Store :: verification_store
  wi_Verifier :: bool
  wi_Events :: "event_chan option"
  wi_Watches :: "watch list"
  wi_PodCacheSelector :: "(string, string) go_map"
  wi_LeaderElection :: "bool \<times> string \<times> string"
  wi_Metrics :: server_options
  wi_Webhook :: webhook_options
  wi_ProbeAddr :: string

definition fail_with :: "'e option \<Rightarrow> string \<Rightarrow> unit or_exit" where
  "fail_with err msg = (case err of Some _ \<Rightarrow> Inl msg | None \<Rightarrow> Inr ())"

text \<open>\<open>SetupVerifier\<close>: the channel, or the error of \<open>mgr.Add\<close>.\<close>

definition SetupVerifier :: "go_error option \<Rightarrow> go_error + event_chan" where
  "SetupVerifier mgrAdd =
     (case mgrAdd of
        Some err \<Rightarrow> Inl (wrap_error ''add TLS verifier runnable'' err)
      | None \<Rightarrow> Inr verification_events)"

text \<open>The options and the components \<open>main\<close> hands to the manager.\<close>

definition mk_wiring ::
  "flags \<Rightarrow> pod_defaults \<Rightarrow> verify_config \<Rightarrow> string \<Rightarrow> verification_store \<Rightarrow> event_chan option \<Rightarrow> wiring" where
  "mk_wiring f podDefaults verifyCfg ns store events =
     \<lparr>wi_PodDefaults = podDefaults, wi_VerifyConfig = verifyCfg, wi_Store = store,
      wi_Verifier = vc_Enabled verifyCfg, wi_Events = events,
      wi_Watches = SetupWithManager (events \<noteq> None),
      wi_PodCacheSelector = [(''tunnelport.giantswarm.io/role'', ''tbot'')],
      wi_LeaderElection = (f_enableLeaderElection f, ''21e2b113.giantswarm.io'', ns),
      wi_Metrics =
        \<lparr>so_BindAddress = f_metricsAddr f, so_Secure = f_secureMetrics f,
         so_DisableHTTP2 = (\<not> f_enableHTTP2 f), so_Auth = f_secureMetrics f,
         so_Cert = (if f_metricsCertPath f \<noteq> ''''
           then Some (f_metricsCertPath f, f_metricsCertName f, f_metricsCertKey f) else None)\<rparr>,
      wi_Webhook =
        \<lparr>wo_DisableHTTP2 = (\<not> f_enableHTTP2 f),
         wo_Cert = (if f_webhookCertPath f \<noteq> ''''
           then Some (f_webhookCertPath f, f_webhookCertName f, f_webhookCertKey f) else None)\<rparr>,
      wi_ProbeAddr = f_probeAddr f\<rparr>"

text \<open>The end of \<open>main\<close>: the controller, the two checks, and the manager's run.\<close>

definition run_manager :: "main_env \<Rightarrow> wiring \<Rightarrow> wiring or_exit" where
  "run_manager env w =
     bind_exit (fail_with (me_SetupWithManager env) ''Failed to set up RemoteApp controller'') (\<lambda>_.
     bind_exit (fail_with (me_AddHealthz env) ''Failed to set up health check'') (\<lambda>_.
     bind_exit (fail_with (me_AddReadyz env) ''Failed to set up ready check'') (\<lambda>_.
     bind_exit (fail_with (me_Start env) ''Failed to run manager'') (\<lambda>_. Inr w))))"

definition main_program :: "main_env \<Rightarrow> flags \<Rightarrow> wiring or_exit" where
  "main_program env f =
     bind_exit (buildReconcilerConfig (me_quantities env) f) (\<lambda>podDefaults.
     bind_exit (buildVerifyConfig f) (\<lambda>verifyCfg.
     bind_exit (case me_GetConfigOrDie env of Some msg \<Rightarrow> Inl msg | None \<Rightarrow> Inr ()) (\<lambda>_.
     bind_exit (leaderElectionNamespaceOrExit (me_podNamespace env)) (\<lambda>ns.
     bind_exit (fail_with (me_NewManager env) ''Failed to start manager'') (\<lambda>_.
     let store = NewVerificationStore (vc_Enabled verifyCfg) (vc_UpstreamProbe verifyCfg) in
     bind_exit (fail_with (Register store (me_register env)) ''Failed to register TLS verification metrics'') (\<lambda>_.
     bind_exit (if vc_Enabled verifyCfg
                then (case SetupVerifier (me_mgrAdd env) of
                        Inl err \<Rightarrow> Inl ''Failed to set up TLS tunnel verification''
                      | Inr ch \<Rightarrow> Inr (Some ch))
                else Inr None) (\<lambda>events.
     run_manager env (mk_wiring f podDefaults verifyCfg ns store events))))))))"


section \<open>Lemmas: patterns\<close>

definition name_ok :: "(char \<Rightarrow> bool) \<Rightarrow> string \<Rightarrow> bool" where
  "name_ok inner xs \<longleftrightarrow> xs \<noteq> [] \<and> alnum (hd xs) \<and> alnum (last xs) \<and> list_all inner xs"

lemma in_Seq_Class: "in_rx (Seq (Class P) r) xs \<longleftrightarrow> (\<exists>c ys. xs = c # ys \<and> P c \<and> in_rx r ys)"
  unfolding in_rx_simps(3,4) by (metis append_Cons append_Nil)

lemma in_Seq_snoc: "in_rx (Seq r (Class P)) xs \<longleftrightarrow> (\<exists>ys c. xs = ys @ [c] \<and> in_rx r ys \<and> P c)"
  unfolding in_rx_simps(3,4) by blast

lemma in_label_rx:
  assumes "\<And>c. alnum c \<Longrightarrow> inner c"
  shows "in_rx (label_rx inner) xs \<longleftrightarrow> name_ok inner xs"
proof -
  have "in_rx (label_rx inner) xs \<longleftrightarrow>
      (\<exists>c rest. xs = c # rest \<and> alnum c \<and>
         (rest = [] \<or> (\<exists>ys d. rest = ys @ [d] \<and> list_all inner ys \<and> alnum d)))"
    unfolding label_rx_def in_Seq_Class in_Opt in_Seq_snoc in_Rep_Class by blast
  also have "\<dots> \<longleftrightarrow> name_ok inner xs"
  proof (cases xs)
    case (Cons c rest)
    then show ?thesis
      using assms by (cases rest rule: rev_cases) (auto simp: name_ok_def)
  qed (simp add: name_ok_def)
  finally show ?thesis .
qed

lemma strings_join_Cons: "strings_join (x # xs) ''.'' = x @ concat (map ((#) CHR ''.'') xs)"
  by (induction xs arbitrary: x) auto

lemma in_dotted_tail:
  assumes "\<And>xs. in_rx label xs \<longleftrightarrow> P xs"
  shows "in_rx (Rep (Seq (Class (\<lambda>c. c = CHR ''.'')) label)) s \<longleftrightarrow>
    (\<exists>ls. list_all P ls \<and> s = concat (map ((#) CHR ''.'') ls))"
proof -
  let ?r = "Seq (Class (\<lambda>c. c = CHR ''.'')) label"
  have one: "in_rx ?r y \<longleftrightarrow> (\<exists>l. y = CHR ''.'' # l \<and> P l)" for y
    unfolding in_Seq_Class assms by blast
  have all: "list_all (in_rx ?r) ys \<longleftrightarrow> (\<exists>ls. list_all P ls \<and> ys = map ((#) CHR ''.'') ls)" for ys
  proof (induction ys)
    case (Cons y ys)
    have "list_all (in_rx ?r) (y # ys) \<longleftrightarrow>
        (\<exists>l ls. y = CHR ''.'' # l \<and> P l \<and> list_all P ls \<and> ys = map ((#) CHR ''.'') ls)"
      by (simp only: list.pred_inject Cons.IH one) blast
    also have "\<dots> \<longleftrightarrow> (\<exists>ls. list_all P ls \<and> y # ys = map ((#) CHR ''.'') ls)"
      by (auto simp: Cons_eq_map_conv)
    finally show ?case .
  qed simp
  show ?thesis by (simp only: in_Rep_iff all) blast
qed

lemma in_dotted:
  assumes "\<And>xs. in_rx label xs \<longleftrightarrow> P xs"
  shows "in_rx (Seq label (Rep (Seq (Class (\<lambda>c. c = CHR ''.'')) label))) s \<longleftrightarrow>
    (\<exists>ls. ls \<noteq> [] \<and> list_all P ls \<and> s = strings_join ls ''.'')"
proof -
  have "in_rx (Seq label (Rep (Seq (Class (\<lambda>c. c = CHR ''.'')) label))) s \<longleftrightarrow>
      (\<exists>x ls. P x \<and> list_all P ls \<and> s = strings_join (x # ls) ''.'')"
    unfolding in_rx_simps(4) in_dotted_tail [OF assms] assms strings_join_Cons by blast
  also have "\<dots> \<longleftrightarrow> (\<exists>ls. ls \<noteq> [] \<and> list_all P ls \<and> s = strings_join ls ''.'')"
    by (metis list.distinct(1) list.pred_inject(2) neq_Nil_conv)
  finally show ?thesis .
qed

lemma name_ok_join:
  assumes "inner CHR ''.''" and "ls \<noteq> []" and "list_all (name_ok inner) ls"
  shows "name_ok inner (strings_join ls ''.'')"
  using assms(2,3)
proof (induction ls)
  case (Cons x ls)
  show ?case
  proof (cases ls)
    case Nil
    with Cons show ?thesis by simp
  next
    case (Cons y ys)
    with Cons.IH Cons.prems have "name_ok inner (strings_join ls ''.'')" by simp
    moreover have "strings_join (x # ls) ''.'' = x @ ''.'' @ strings_join ls ''.''"
      by (simp add: Cons)
    ultimately show ?thesis using Cons.prems assms(1) by (auto simp: name_ok_def)
  qed
qed simp

lemma to_int32_id: "to_int32 x = x \<longleftrightarrow> - (2 ^ 31) \<le> x \<and> x < 2 ^ 31"
proof
  assume "to_int32 x = x"
  then show "- (2 ^ 31) \<le> x \<and> x < 2 ^ 31"
    using sint_greater_eq [of "word_of_int x :: 32 word"] sint_less [of "word_of_int x :: 32 word"]
    by (simp add: to_int32_def)
next
  assume "- (2 ^ 31) \<le> x \<and> x < 2 ^ 31"
  then show "to_int32 x = x"
    by (simp add: to_int32_def sint_sbintrunc' signed_take_bit_int_eq_self)
qed

lemma listenPort_Inr:
  "ghostunnelListenPortOrExit f = Inr p \<longleftrightarrow> p = f_ghostunnelListenPort f \<and> 1 \<le> p \<and> p \<le> 65535"
  using to_int32_id [of "f_ghostunnelListenPort f"]
  by (auto simp: ghostunnelListenPortOrExit_def)


lemma bind_exit_InrE:
  "bind_exit m f = Inr y \<Longrightarrow> (\<And>x. m = Inr x \<Longrightarrow> f x = Inr y \<Longrightarrow> R) \<Longrightarrow> R"
  by (cases m) auto

lemma mk_wiring_simps [simp]:
  "wi_PodDefaults (mk_wiring f pd vcfg ns store events) = pd"
  "wi_VerifyConfig (mk_wiring f pd vcfg ns store events) = vcfg"
  "wi_Store (mk_wiring f pd vcfg ns store events) = store"
  "wi_Verifier (mk_wiring f pd vcfg ns store events) = vc_Enabled vcfg"
  "wi_Events (mk_wiring f pd vcfg ns store events) = events"
  "wi_Watches (mk_wiring f pd vcfg ns store events) = SetupWithManager (events \<noteq> None)"
  by (simp_all add: mk_wiring_def)

lemma main_program_Inr:
  assumes "main_program env f = Inr w"
  obtains pd vcfg ns events where
    "buildReconcilerConfig (me_quantities env) f = Inr pd" "buildVerifyConfig f = Inr vcfg"
    "w = mk_wiring f pd vcfg ns (NewVerificationStore (vc_Enabled vcfg) (vc_UpstreamProbe vcfg)) events"
    "events \<noteq> None \<longleftrightarrow> vc_Enabled vcfg"
proof -
  have enabled: "events \<noteq> None \<longleftrightarrow> b"
    if "(if b then (case SetupVerifier a of
           Inl err \<Rightarrow> Inl ''Failed to set up TLS tunnel verification'' | Inr ch \<Rightarrow> Inr (Some ch))
         else Inr None) = Inr events" for b a and events :: "event_chan option"
    using that by (cases b; cases "SetupVerifier a") auto
  from assms show thesis
    unfolding main_program_def run_manager_def Let_def
    by (elim bind_exit_InrE) (drule Inr_inject, rule that, assumption, assumption, erule sym, erule enabled)
qed


section \<open>Properties\<close>

text \<open>C40. The Teleport cluster name is accepted exactly when it is a DNS-1123 subdomain: labels
  joined by dots, each non-empty, of lower-case letters, digits and hyphens, beginning and
  ending with a letter or digit.\<close>

theorem cluster_name_accepted:
  "requireOrExit name val teleportClusterNamePattern = Inr val \<longleftrightarrow>
     (\<exists>ls. ls \<noteq> [] \<and>
        list_all (\<lambda>l. l \<noteq> '''' \<and> alnum (hd l) \<and> alnum (last l) \<and>
                       list_all (\<lambda>c. c = CHR ''-'' \<or> alnum c) l) ls \<and>
        val = strings_join ls ''.'')"
proof -
  let ?inner = "\<lambda>c. c = CHR ''-'' \<or> alnum c"
  have label: "in_rx (label_rx ?inner) xs \<longleftrightarrow> name_ok ?inner xs" for xs
    by (rule in_label_rx) simp
  have "rx_match teleportClusterNamePattern val \<longleftrightarrow>
      (\<exists>ls. ls \<noteq> [] \<and> list_all (name_ok ?inner) ls \<and> val = strings_join ls ''.'')"
    unfolding rx_match_lang teleportClusterNamePattern_def Let_def by (rule in_dotted [OF label])
  moreover have "val \<noteq> ''''" if "ls \<noteq> []" "list_all (name_ok ?inner) ls" "val = strings_join ls ''.''" for ls
    using that by (cases ls) (auto simp: strings_join_Cons name_ok_def)
  ultimately show ?thesis
    unfolding name_ok_def requireOrExit_def by (smt (verit) sum.simps(4) Inr_inject)
qed

text \<open>The proxy address is accepted exactly when it is a host, a colon and digits, where the
  host is of lower-case letters, digits, hyphens and dots and begins and ends with a letter
  or digit; unlike the cluster name it may hold empty labels, and the number may be no
  port.\<close>

theorem proxy_addr_accepted:
  "requireOrExit name val teleportProxyAddrPattern = Inr val \<longleftrightarrow>
     (\<exists>host port. val = host @ '':'' @ port \<and>
        host \<noteq> '''' \<and> alnum (hd host) \<and> alnum (last host) \<and>
        list_all (\<lambda>c. c = CHR ''-'' \<or> alnum c \<or> c = CHR ''.'') host \<and>
        port \<noteq> '''' \<and> list_all digit port)"
proof -
  let ?inner = "\<lambda>c. c = CHR ''-'' \<or> alnum c \<or> c = CHR ''.''"
  let ?dotted = "Seq (label_rx ?inner) (Rep (Seq (Class (\<lambda>c. c = CHR ''.'')) (label_rx ?inner)))"
  have label: "in_rx (label_rx ?inner) xs \<longleftrightarrow> name_ok ?inner xs" for xs
    by (rule in_label_rx) simp
  have host: "in_rx ?dotted xs \<longleftrightarrow> name_ok ?inner xs" for xs
  proof
    show "in_rx ?dotted xs \<Longrightarrow> name_ok ?inner xs"
      unfolding in_dotted [OF label] using name_ok_join [of ?inner] by blast
    show "name_ok ?inner xs \<Longrightarrow> in_rx ?dotted xs"
      unfolding in_dotted [OF label] by (intro exI [of _ "[xs]"]) simp
  qed
  have plus: "in_rx (Plus (Class digit)) p \<longleftrightarrow> p \<noteq> '''' \<and> list_all digit p" for p
    by (cases p) (auto simp: Plus_def in_Seq_Class in_Rep_Class simp del: in_rx_simps)
  have "rx_match teleportProxyAddrPattern val \<longleftrightarrow>
      (\<exists>host port. val = host @ '':'' @ port \<and> name_ok ?inner host \<and> port \<noteq> '''' \<and> list_all digit port)"
    unfolding rx_match_lang teleportProxyAddrPattern_def Let_def in_rx_simps(4) [of ?dotted] host
    by (auto simp: plus)
  then show ?thesis
    by (auto simp: requireOrExit_def name_ok_def)
qed

text \<open>The proxy check lets through what its comment rules out: a host with an empty label and
  a number that is no port.\<close>

theorem proxy_addr_gap:
  "requireOrExit ''teleport-proxy-addr'' ''a..b:99999'' teleportProxyAddrPattern = Inr ''a..b:99999'' \<and>
   requireOrExit ''teleport-cluster-name'' ''a..b'' teleportClusterNamePattern =
     Inl ''required flag has invalid format''"
  by code_simp

text \<open>Resources that pass have every request within its limit, as the quantities compare; the
  first request above its limit is reported.\<close>

theorem resources_within_limits:
  assumes "resourcesOrExit q container cpuRequest memRequest cpuLimit memLimit = Inr r"
  shows "\<exists>cpuR memR cpuL memL.
    q_Parse q cpuRequest = Inr cpuR \<and> q_Parse q memRequest = Inr memR \<and>
    q_Parse q cpuLimit = Inr cpuL \<and> q_Parse q memLimit = Inr memL \<and>
    go_get (rr_Requests r) ResourceCPU = Some cpuR \<and> go_get (rr_Limits r) ResourceCPU = Some cpuL \<and>
    go_get (rr_Requests r) ResourceMemory = Some memR \<and> go_get (rr_Limits r) ResourceMemory = Some memL \<and>
    q_Cmp q cpuR cpuL \<le> 0 \<and> q_Cmp q memR memL \<le> 0"
  using assms
  by (auto simp: resourcesOrExit_def bind_exit_Inr parseQuantityOrExit_def requestsWithinLimits_def
      quantity_at_def Let_def ResourceCPU_def ResourceMemory_def split: sum.splits option.splits if_splits)

definition example_quantities :: quantity_ops where
  "example_quantities =
     \<lparr>q_Parse = (\<lambda>s. Inr (NumValue (int (length s)))),
      q_Cmp = (\<lambda>a b. case (a, b) of (NumValue x, NumValue y) \<Rightarrow> sgn (x - y) | _ \<Rightarrow> 0),
      q_String = (\<lambda>_. ''''), q_zero = NumValue 0\<rparr>"

theorem resources_within_limits_witness:
  "\<exists>r. resourcesOrExit example_quantities ''tbot'' ''50m'' ''64Mi'' ''200m'' ''256Mi'' = Inr r \<and>
     (\<exists>cpuR cpuL. go_get (rr_Requests r) ResourceCPU = Some cpuR \<and> go_get (rr_Limits r) ResourceCPU = Some cpuL \<and>
        q_Cmp example_quantities cpuR cpuL \<le> 0)"
proof -
  have "\<exists>r. resourcesOrExit example_quantities ''tbot'' ''50m'' ''64Mi'' ''200m'' ''256Mi'' = Inr r"
    by (simp add: resourcesOrExit_def parseQuantityOrExit_def example_quantities_def
        requestsWithinLimits_def quantity_at_def ResourceCPU_def ResourceMemory_def Let_def)
  then obtain r where r: "resourcesOrExit example_quantities ''tbot'' ''50m'' ''64Mi'' ''200m'' ''256Mi'' = Inr r"
    by blast
  from resources_within_limits [OF r] r show ?thesis by blast
qed

text \<open>C39. A process that starts has one port for three components: the port is the flag's, in
  range and unchanged by the narrowing to 32 bits; the rendered Service exposes it as its
  \<open>tls\<close> port and targets it; the one ghostunnel container of the rendered Deployment listens on
  it and declares it; and the verifier dials the name of that Service at that port.\<close>

theorem main_one_port:
  assumes "main_program env f = Inr w" and "p = f_ghostunnelListenPort f" and "cfg = wi_PodDefaults w"
  shows "1 \<le> p \<and> p \<le> 65535 \<and>
    (\<exists>svc. ob_Body (renderService cr cfg) = ServiceBody svc \<and>
       filter (\<lambda>sp. sp_Name sp = servicePortNameTLS) (ss_Ports svc) =
         [\<lparr>sp_Name = servicePortNameTLS, sp_Port = p, sp_TargetPort = FromInt p, sp_Protocol = ''TCP''\<rparr>]) \<and>
    (\<forall>ops d ds. renderDeployment ops cr cfg = Some d \<and> deployment_of d = Some ds \<longrightarrow>
       (\<exists>g. tpl_Containers (ds_Template ds) = [g] \<and>
          args_with ''--listen='' g = [''--listen=0.0.0.0:'' @ itoa p] \<and>
          map (\<lambda>cp. (cp_Name cp, cp_ContainerPort cp)) (ct_Ports g) = [(servicePortNameTLS, p)])) \<and>
    vc_TLSPort (withDefaults (wi_VerifyConfig w)) = p \<and>
    pt_addr (app_target (withDefaults (wi_VerifyConfig w)) cr) =
      join_host_port (serviceFQDN (om_Namespace (ob_Meta (renderService cr cfg)))
        (om_Name (ob_Meta (renderService cr cfg)))
        (vc_ClusterDomain (withDefaults (wi_VerifyConfig w)))) (itoa p)"
proof -
  obtain defaults vcfg where d: "buildReconcilerConfig (me_quantities env) f = Inr defaults"
      "buildVerifyConfig f = Inr vcfg" "cfg = defaults" "wi_VerifyConfig w = vcfg"
    unfolding assms(3) using assms(1) by (rule main_program_Inr) simp
  have port: "pd_GhostunnelListenPort cfg = p" "1 \<le> p" "p \<le> 65535"
    using d(1) by (auto simp: assms(2) d(3) buildReconcilerConfig_def bind_exit_Inr listenPort_Inr)
  then have ports: "listen_port cfg = p" "service_tls_port cfg = p"
    by (simp_all add: listen_port_def service_tls_port_def)
  have "vc_TLSPort vcfg = p"
    using d(2) by (auto simp: assms(2) buildVerifyConfig_def bind_exit_Inr listenPort_Inr split: if_splits)
  with port have dial: "vc_TLSPort (withDefaults (wi_VerifyConfig w)) = p"
    "pt_addr (app_target (withDefaults (wi_VerifyConfig w)) cr) =
      join_host_port (serviceFQDN (om_Namespace (ob_Meta (renderService cr cfg)))
        (om_Name (ob_Meta (renderService cr cfg)))
        (vc_ClusterDomain (withDefaults (wi_VerifyConfig w)))) (itoa p)"
    by (simp_all add: d(4) withDefaults_eq app_target_def Let_def renderService_def owned_meta_def)
  have listens: "args_with ''--listen='' (ghostunnelContainer cr cfg) = [''--listen=0.0.0.0:'' @ itoa p]"
    "map (\<lambda>cp. (cp_Name cp, cp_ContainerPort cp)) (ct_Ports (ghostunnelContainer cr cfg)) = [(servicePortNameTLS, p)]"
    using ghostunnel_args(3) [of cr cfg] by (simp_all add: ports) (simp add: ghostunnelContainer_def ports)
  have "\<exists>g. tpl_Containers (ds_Template ds) = [g] \<and>
        args_with ''--listen='' g = [''--listen=0.0.0.0:'' @ itoa p] \<and>
        map (\<lambda>cp. (cp_Name cp, cp_ContainerPort cp)) (ct_Ports g) = [(servicePortNameTLS, p)]"
    if "renderDeployment ops cr cfg = Some d \<and> deployment_of d = Some ds" for ops d ds
    using renderDeployment_ghostunnel [of ops cr cfg d ds] that listens by metis
  with port dial renderService_tls [of cr cfg, unfolded ports(2)] show ?thesis by simp
qed

text \<open>Switching verification on and off: in a process that starts, the verifier runs exactly
  when the flag is set and a bundle file is configured, and then, and only then, the store
  is enabled and the reconciler watches the event channel; the store expects upstream outcomes exactly when the verifier probes them.\<close>

theorem main_verification_switch:
  assumes "main_program env f = Inr w"
  shows "(wi_Verifier w \<longleftrightarrow> f_verifyTunnels f \<and> f_verifyTrustBundleFile f \<noteq> '''') \<and>
    (Enabled (wi_Store w) \<longleftrightarrow> wi_Verifier w) \<and>
    (wi_Events w \<noteq> None \<longleftrightarrow> wi_Verifier w) \<and>
    (WatchesChannel \<in> set (wi_Watches w) \<longleftrightarrow> wi_Verifier w) \<and>
    (wi_Verifier w \<longrightarrow>
       (UpstreamProbeEnabled (wi_Store w) \<longleftrightarrow> vc_UpstreamProbe (withDefaults (wi_VerifyConfig w))))"
proof -
  obtain vcfg where cfg: "buildVerifyConfig f = Inr vcfg" "wi_VerifyConfig w = vcfg"
      "wi_Store w = NewVerificationStore (vc_Enabled vcfg) (vc_UpstreamProbe vcfg)"
      "wi_Verifier w = vc_Enabled vcfg" "wi_Events w \<noteq> None \<longleftrightarrow> vc_Enabled vcfg"
      "wi_Watches w = SetupWithManager (wi_Events w \<noteq> None)"
    using assms by (rule main_program_Inr) simp
  moreover have "vc_Enabled vcfg \<longleftrightarrow> f_verifyTunnels f \<and> f_verifyTrustBundleFile f \<noteq> ''''"
    using cfg(1) by (auto simp: buildVerifyConfig_def bind_exit_Inr split: if_splits)
  moreover have "WatchesChannel \<in> set (SetupWithManager b) \<longleftrightarrow> b" for b
    by (simp add: SetupWithManager_def)
  ultimately show ?thesis by simp
qed

definition example_main_env :: main_env where
  "example_main_env =
     \<lparr>me_podNamespace = ''tunnelport'', me_quantities = example_quantities, me_GetConfigOrDie = None,
      me_NewManager = None, me_register = (\<lambda>_. None), me_mgrAdd = None, me_SetupWithManager = None, me_AddHealthz = None,
      me_AddReadyz = None, me_Start = None\<rparr>"

definition example_flags :: flags where
  "example_flags = default_flags\<lparr>f_teleportClusterName := ''teleport.example'',
     f_teleportProxyAddr := ''teleport.example:443'', f_verifyTrustBundleFile := ''/ca.pem''\<rparr>"

lemma example_starts: "\<exists>w. main_program example_main_env example_flags = Inr w"
proof -
  have quantities: "\<exists>r. resourcesOrExit example_quantities c (f_tbotCPURequest example_flags)
      (f_tbotMemRequest example_flags) (f_tbotCPULimit example_flags) (f_tbotMemLimit example_flags) = Inr r"
    "\<exists>r. resourcesOrExit example_quantities c (f_ghostunnelCPURequest example_flags)
      (f_ghostunnelMemRequest example_flags) (f_ghostunnelCPULimit example_flags)
      (f_ghostunnelMemLimit example_flags) = Inr r" for c
    by (simp_all add: resourcesOrExit_def parseQuantityOrExit_def example_quantities_def example_flags_def
        default_flags_def requestsWithinLimits_def quantity_at_def ResourceCPU_def ResourceMemory_def Let_def)
  have "requireOrExit n ''teleport.example'' teleportClusterNamePattern = Inr ''teleport.example''"
    "requireOrExit n ''teleport.example:443'' teleportProxyAddrPattern = Inr ''teleport.example:443''" for n
    unfolding requireOrExit_def by code_simp+
  then have names: "requireOrExit n (f_teleportClusterName example_flags) teleportClusterNamePattern =
      Inr ''teleport.example''"
    "requireOrExit n (f_teleportProxyAddr example_flags) teleportProxyAddrPattern =
      Inr ''teleport.example:443''" for n
    by (simp_all add: example_flags_def)
  have port: "ghostunnelListenPortOrExit example_flags = Inr 8443"
    by (simp add: listenPort_Inr example_flags_def default_flags_def)
  have conc: "\<not> f_verifyConcurrency example_flags < 1"
    by (simp add: example_flags_def default_flags_def DefaultVerifyConcurrency_def)
  have "\<exists>d. buildReconcilerConfig (me_quantities example_main_env) example_flags = Inr d"
    using quantities [of "''tbot''"] quantities [of "''ghostunnel''"]
    by (auto simp: buildReconcilerConfig_def names port example_main_env_def)
  moreover have "\<exists>v. buildVerifyConfig example_flags = Inr v"
    by (simp add: buildVerifyConfig_def port conc)
  ultimately show ?thesis
    by (auto simp: main_program_def run_manager_def Let_def leaderElectionNamespaceOrExit_def fail_with_def
        example_main_env_def Register_def SetupVerifier_def)
qed

text \<open>The reload interval is not checked: any text starts the operator that would start with another,
  and is what every ghostunnel container gets.\<close>

theorem reload_interval_unchecked:
  "main_program env (f\<lparr>f_ghostunnelReloadInterval := t\<rparr>) =
     bind_exit (main_program env f) (\<lambda>w.
       Inr (w\<lparr>wi_PodDefaults := (wi_PodDefaults w)\<lparr>pd_GhostunnelReloadInterval := t\<rparr>\<rparr>))"
proof -
  have "buildReconcilerConfig q (f\<lparr>f_ghostunnelReloadInterval := t\<rparr>) =
      bind_exit (buildReconcilerConfig q f) (\<lambda>d. Inr (d\<lparr>pd_GhostunnelReloadInterval := t\<rparr>))" for q
    by (simp add: buildReconcilerConfig_def ghostunnelListenPortOrExit_def bind_exit_assoc)
  moreover have "buildVerifyConfig (f\<lparr>f_ghostunnelReloadInterval := t\<rparr>) = buildVerifyConfig f"
    by (simp add: buildVerifyConfig_def ghostunnelListenPortOrExit_def)
  ultimately show ?thesis
    by (simp add: main_program_def run_manager_def mk_wiring_def Let_def bind_exit_assoc)
qed

theorem main_one_port_witness:
  "\<exists>w svc. main_program example_main_env example_flags = Inr w \<and>
     ob_Body (renderService example_cr (wi_PodDefaults w)) = ServiceBody svc \<and>
     map sp_Port (filter (\<lambda>sp. sp_Name sp = servicePortNameTLS) (ss_Ports svc)) = [8443]"
proof -
  obtain w where w: "main_program example_main_env example_flags = Inr w"
    using example_starts by blast
  have "f_ghostunnelListenPort example_flags = 8443" by (simp add: example_flags_def default_flags_def)
  with main_one_port [OF w refl refl, of example_cr] w show ?thesis by fastforce
qed

theorem main_verification_switch_witness:
  "\<exists>w. main_program example_main_env example_flags = Inr w \<and> Enabled (wi_Store w)"
proof -
  obtain w where w: "main_program example_main_env example_flags = Inr w"
    using example_starts by blast
  from main_verification_switch [OF w] w show ?thesis
    by (auto simp: example_flags_def default_flags_def)
qed

end
