(* ===== verification/GoFlag.thy ===== *)
theory GoFlag
  imports GoText "HOL-Library.Log_Nat"
begin

text \<open>
  The parts of Go's standard library a command line goes through: \<open>strconv.ParseBool\<close> and
  \<open>strconv.ParseInt\<close> with base 0, \<open>time.ParseDuration\<close>, and the parser of package \<open>flag\<close>.

  A fraction of a duration is scaled in floating point, so \<open>float64\<close> rounds a rational to
  the nearest double, ties to even. Exponents are not bounded: a scale that would overflow
  belongs to a fraction of less than a nanosecond, which is cut off either way.

  The lemmas are the round trips with \<open>itoa\<close> and \<open>duration_string\<close>, and the effect of a list
  of settings on the variables bound to the flags.
\<close>

section \<open>Booleans and integers\<close>

datatype num_error = SyntaxError | RangeError

definition parse_bool :: "string \<Rightarrow> num_error + bool" where
  "parse_bool s =
     (if s \<in> {''1'', ''t'', ''T'', ''true'', ''TRUE'', ''True''} then Inr True
      else if s \<in> {''0'', ''f'', ''F'', ''false'', ''FALSE'', ''False''} then Inr False
      else Inl SyntaxError)"

text \<open>The value of a digit of any base up to 36.\<close>

definition digit_of :: "char \<Rightarrow> int option" where
  "digit_of c =
     (let n = of_char c :: int
      in if 48 \<le> n \<and> n \<le> 57 then Some (n - 48)
         else if 97 \<le> n \<and> n \<le> 122 then Some (n - 87)
         else if 65 \<le> n \<and> n \<le> 90 then Some (n - 55)
         else None)"

text \<open>The loop of \<open>ParseUint\<close>: whether an underscore was seen, and the number so far.\<close>

fun uint_loop :: "int \<Rightarrow> string \<Rightarrow> bool \<Rightarrow> int \<Rightarrow> num_error + bool \<times> int" where
  "uint_loop base [] underscores n = Inr (underscores, n)"
| "uint_loop base (c # cs) underscores n =
     (if c = CHR ''_'' then uint_loop base cs True n
      else case digit_of c of
          None \<Rightarrow> Inl SyntaxError
        | Some d \<Rightarrow>
            if base \<le> d then Inl SyntaxError
            else if 2 ^ 64 \<le> n * base + d then Inl RangeError
            else uint_loop base cs underscores (n * base + d))"

datatype seen = AtStart | AfterDigit | AfterUnderscore | AfterOther

fun underscore_loop :: "bool \<Rightarrow> seen \<Rightarrow> string \<Rightarrow> bool" where
  "underscore_loop hex i [] \<longleftrightarrow> i \<noteq> AfterUnderscore"
| "underscore_loop hex i (c # cs) \<longleftrightarrow>
     (if is_digit c \<or> hex \<and> c \<in> set ''abcdefABCDEF'' then underscore_loop hex AfterDigit cs
      else if c = CHR ''_'' then i = AfterDigit \<and> underscore_loop hex AfterUnderscore cs
      else i \<noteq> AfterUnderscore \<and> underscore_loop hex AfterOther cs)"

definition underscore_ok :: "string \<Rightarrow> bool" where
  "underscore_ok s0 =
     (let s = (case s0 of c # cs \<Rightarrow> if c \<in> set ''+-'' then cs else s0 | [] \<Rightarrow> s0)
      in case s of
           z # b # cs \<Rightarrow>
             if z = CHR ''0'' \<and> b \<in> set ''bBoOxX''
             then underscore_loop (b \<in> set ''xX'') AfterDigit cs
             else underscore_loop False AtStart s
         | _ \<Rightarrow> underscore_loop False AtStart s)"

text \<open>The base a prefix selects, and the digits after the prefix.\<close>

definition base_prefix :: "string \<Rightarrow> int \<times> string" where
  "base_prefix s =
     (if hd s \<noteq> CHR ''0'' then (10, s)
      else if 3 \<le> length s \<and> s ! 1 \<in> set ''bB'' then (2, drop 2 s)
      else if 3 \<le> length s \<and> s ! 1 \<in> set ''oO'' then (8, drop 2 s)
      else if 3 \<le> length s \<and> s ! 1 \<in> set ''xX'' then (16, drop 2 s)
      else (8, drop 1 s))"

definition parse_uint :: "string \<Rightarrow> num_error + int" where
  "parse_uint s =
     (if s = [] then Inl SyntaxError
      else case base_prefix s of
          (base, ds) \<Rightarrow>
            (case uint_loop base ds False 0 of
               Inl e \<Rightarrow> Inl e
             | Inr (underscores, n) \<Rightarrow>
                 if underscores \<and> \<not> underscore_ok s then Inl SyntaxError else Inr n))"

definition parse_int :: "string \<Rightarrow> num_error + int" where
  "parse_int s =
     (case s of
        [] \<Rightarrow> Inl SyntaxError
      | c # cs \<Rightarrow>
          (let neg = (c = CHR ''-'')
           in case parse_uint (if c \<in> set ''+-'' then cs else s) of
                Inl e \<Rightarrow> Inl e
              | Inr un \<Rightarrow>
                  if \<not> neg \<and> 2 ^ 63 \<le> un then Inl RangeError
                  else if neg \<and> 2 ^ 63 < un then Inl RangeError
                  else Inr (if neg then - un else un)))"


section \<open>Durations\<close>

text \<open>\<open>leadingInt\<close>: the digits at the front, up to \<open>2 ^ 63\<close>.\<close>

fun leading_int :: "int \<Rightarrow> string \<Rightarrow> (int \<times> string) option" where
  "leading_int x [] = Some (x, [])"
| "leading_int x (c # cs) =
     (if \<not> is_digit c then Some (x, c # cs)
      else if 2 ^ 63 div 10 < x then None
      else if 2 ^ 63 < x * 10 + digit_val c then None
      else leading_int (x * 10 + digit_val c) cs)"

text \<open>The nearest double to a rational that is not negative.\<close>

definition round_half_even :: "rat \<Rightarrow> int" where
  "round_half_even x =
     (let q = \<lfloor>x\<rfloor>; r = x - of_int q
      in if r < 1 / 2 \<or> r = 1 / 2 \<and> even q then q else q + 1)"

definition scale2 :: "int \<Rightarrow> rat \<Rightarrow> rat" where
  "scale2 e x = (if 0 \<le> e then x * 2 ^ nat e else x / 2 ^ nat (- e))"

definition float64 :: "rat \<Rightarrow> rat" where
  "float64 x =
     (if x = 0 then 0
      else let (a, b) = quotient_of x;
               k = bitlen a - bitlen b;
               lg = (if x < scale2 k 1 then k - 1 else k);
               e = lg - 52
           in scale2 e (of_int (round_half_even (scale2 (- e) x))))"

text \<open>\<open>leadingFraction\<close>: digits that no longer fit are read and dropped.\<close>

fun leading_fraction :: "int \<Rightarrow> rat \<Rightarrow> bool \<Rightarrow> string \<Rightarrow> int \<times> rat \<times> string" where
  "leading_fraction x scale overflow [] = (x, scale, [])"
| "leading_fraction x scale overflow (c # cs) =
     (if \<not> is_digit c then (x, scale, c # cs)
      else if overflow then leading_fraction x scale True cs
      else if (2 ^ 63 - 1) div 10 < x then leading_fraction x scale True cs
      else if 2 ^ 63 < x * 10 + digit_val c then leading_fraction x scale True cs
      else leading_fraction (x * 10 + digit_val c) (float64 (scale * 10)) False cs)"

definition unit_map :: "(string \<times> int) list" where
  "unit_map =
     [(''ns'', 1), (''us'', 1000), ([char_of (194::int), char_of (181::int), CHR ''s''], 1000),
      ([char_of (206::int), char_of (188::int), CHR ''s''], 1000), (''ms'', 1000000),
      (''s'', 1000000000), (''m'', 60000000000), (''h'', 3600000000000)]"

definition number_char :: "char \<Rightarrow> bool" where
  "number_char c \<longleftrightarrow> c = CHR ''.'' \<or> is_digit c"

text \<open>
  One component of a duration: its nanoseconds and the rest of the text. The integer part
  times the unit is at most \<open>2 ^ 63\<close>, and so is the sum with the fraction.
\<close>

definition duration_part :: "string \<Rightarrow> (int \<times> string) option" where
  "duration_part s =
     (if \<not> number_char (hd s) then None
      else case leading_int 0 s of
          None \<Rightarrow> None
        | Some (v, s1) \<Rightarrow>
            (let point = s1 \<noteq> [] \<and> hd s1 = CHR ''.'';
                 (f, scale, s2) = (if point then leading_fraction 0 1 False (tl s1) else (0, 1, s1));
                 pre = length s1 \<noteq> length s;
                 post = point \<and> length s2 \<noteq> length (tl s1);
                 u = takeWhile (\<lambda>c. \<not> number_char c) s2;
                 rest = dropWhile (\<lambda>c. \<not> number_char c) s2
             in if \<not> pre \<and> \<not> post then None
                else if u = [] then None
                else case map_of unit_map u of
                    None \<Rightarrow> None
                  | Some unit' \<Rightarrow>
                      if 2 ^ 63 div unit' < v then None
                      else let v' = v * unit' +
                             (if 0 < f then \<lfloor>float64 (float64 (of_int f) * float64 (of_int unit' / scale))\<rfloor> else 0)
                           in if 2 ^ 63 < v' then None else Some (v', rest)))"

lemma leading_int_length: "leading_int x s = Some (y, r) \<Longrightarrow> length r \<le> length s"
  by (induction x s rule: leading_int.induct) (auto split: if_splits)

lemma leading_fraction_length: "leading_fraction x sc ov s = (y, sc', r) \<Longrightarrow> length r \<le> length s"
  by (induction x sc ov s rule: leading_fraction.induct) (auto split: if_splits)

lemma duration_part_shorter:
  assumes "duration_part s = Some (v, rest)"
  shows "length rest < length s"
proof -
  obtain w s1 where s1: "leading_int 0 s = Some (w, s1)"
    using assms by (auto simp: duration_part_def split: if_splits option.splits)
  let ?point = "s1 \<noteq> [] \<and> hd s1 = CHR ''.''"
  obtain f scale s2 where s2: "(if ?point then leading_fraction 0 1 False (tl s1) else (0, 1, s1)) = (f, scale, s2)"
    by (metis prod_cases3)
  have "takeWhile (\<lambda>c. \<not> number_char c) s2 \<noteq> []" "rest = dropWhile (\<lambda>c. \<not> number_char c) s2"
    using assms by (auto simp: duration_part_def s1 s2 Let_def split: if_splits option.splits)
  then have "length rest < length s2"
    by (metis append_self_conv2 length_dropWhile_le le_neq_implies_less takeWhile_dropWhile_id
        append_eq_append_conv self_append_conv2)
  moreover have "length s2 \<le> length s1"
    using s2 leading_fraction_length [of 0 1 False "tl s1"] by (auto split: if_splits)
  moreover have "length s1 \<le> length s" by (rule leading_int_length [OF s1])
  ultimately show ?thesis by simp
qed

text \<open>
  The sum of the components in 64 bits: two components of \<open>2 ^ 63\<close> wrap to 0.
\<close>

function duration_loop :: "int \<Rightarrow> string \<Rightarrow> int option" where
  "duration_loop d s =
     (if s = [] then Some d
      else case duration_part s of
          None \<Rightarrow> None
        | Some (v, rest) \<Rightarrow>
            (let d' = (d + v) mod 2 ^ 64 in if 2 ^ 63 < d' then None else duration_loop d' rest))"
  by pat_completeness auto
termination
  by (relation "measure (length \<circ> snd)") (auto simp: duration_part_shorter)

declare duration_loop.simps [simp del]

definition parse_duration :: "string \<Rightarrow> int option" where
  "parse_duration orig =
     (let neg = (orig \<noteq> [] \<and> hd orig = CHR ''-'');
          s = (if orig \<noteq> [] \<and> hd orig \<in> set ''+-'' then tl orig else orig)
      in if s = ''0'' then Some 0
         else if s = [] then None
         else case duration_loop 0 s of
             None \<Rightarrow> None
           | Some d \<Rightarrow> if neg then Some (- d) else if 2 ^ 63 - 1 < d then None else Some d)"


section \<open>Package flag\<close>

text \<open>
  A flag as the \<open>flag\<close> package keeps it: whether it is boolean (\<open>IsBoolFlag\<close>), and \<open>Set\<close>,
  which changes the variable it is bound to, a part of the state \<open>'f\<close>, or fails.
\<close>

record 'f formal_flag =
  fl_bool :: bool
  fl_Set :: "string \<Rightarrow> 'f \<Rightarrow> num_error + 'f"

definition map_error :: "('a \<Rightarrow> 'b) \<Rightarrow> 'e + 'a \<Rightarrow> 'e + 'b" where
  "map_error g r = (case r of Inl e \<Rightarrow> Inl e | Inr x \<Rightarrow> Inr (g x))"

definition StringVar :: "((string \<Rightarrow> string) \<Rightarrow> 'f \<Rightarrow> 'f) \<Rightarrow> 'f formal_flag" where
  "StringVar upd = \<lparr>fl_bool = False, fl_Set = (\<lambda>s f. Inr (upd (\<lambda>_. s) f))\<rparr>"

definition BoolVar :: "((bool \<Rightarrow> bool) \<Rightarrow> 'f \<Rightarrow> 'f) \<Rightarrow> 'f formal_flag" where
  "BoolVar upd = \<lparr>fl_bool = True, fl_Set = (\<lambda>s f. map_error (\<lambda>b. upd (\<lambda>_. b) f) (parse_bool s))\<rparr>"

definition IntVar :: "((int \<Rightarrow> int) \<Rightarrow> 'f \<Rightarrow> 'f) \<Rightarrow> 'f formal_flag" where
  "IntVar upd = \<lparr>fl_bool = False, fl_Set = (\<lambda>s f. map_error (\<lambda>n. upd (\<lambda>_. n) f) (parse_int s))\<rparr>"

definition DurationVar :: "((duration \<Rightarrow> duration) \<Rightarrow> 'f \<Rightarrow> 'f) \<Rightarrow> 'f formal_flag" where
  "DurationVar upd =
     \<lparr>fl_bool = False,
      fl_Set = (\<lambda>s f. case parse_duration s of
                  None \<Rightarrow> Inl SyntaxError | Some d \<Rightarrow> Inr (upd (\<lambda>_. d) f))\<rparr>"

text \<open>How \<open>parseOne\<close> takes an argument apart.\<close>

datatype arg = Operand | Terminator | BadSyntax | FlagArg string "string option"

definition split_equals :: "string \<Rightarrow> string \<times> string option" where
  "split_equals name =
     (let before = takeWhile (\<lambda>c. c \<noteq> CHR ''='') (tl name);
          after = dropWhile (\<lambda>c. c \<noteq> CHR ''='') (tl name)
      in (hd name # before, if after = [] then None else Some (tl after)))"

definition parse_arg :: "string \<Rightarrow> arg" where
  "parse_arg s =
     (if length s < 2 \<or> hd s \<noteq> CHR ''-'' then Operand
      else if s = ''--'' then Terminator
      else let name = (if s ! 1 = CHR ''-'' then drop 2 s else drop 1 s)
           in if name = [] \<or> hd name = CHR ''-'' \<or> hd name = CHR ''='' then BadSyntax
              else case split_equals name of (n, v) \<Rightarrow> FlagArg n v)"

text \<open>
  What the process does with a command line: it goes on with the variables and the remaining
  arguments, or prints usage and exits, with code 0 for \<open>-h\<close> and \<open>-help\<close> and 2 otherwise,
  since \<open>flag.CommandLine\<close> has \<open>ExitOnError\<close>.
\<close>

datatype usage_error =
  Malformed string | NotDefined string | NeedsArgument string | InvalidValue string string num_error

datatype 'f parsed = Parsed 'f "string list" | ExitHelp | ExitUsage usage_error

fun parse_args :: "(string \<times> 'f formal_flag) list \<Rightarrow> string list \<Rightarrow> 'f \<Rightarrow> 'f parsed" where
  "parse_args formal [] f = Parsed f []"
| "parse_args formal (s # args) f =
     (case parse_arg s of
        Operand \<Rightarrow> Parsed f (s # args)
      | Terminator \<Rightarrow> Parsed f args
      | BadSyntax \<Rightarrow> ExitUsage (Malformed s)
      | FlagArg name val \<Rightarrow>
          (case map_of formal name of
             None \<Rightarrow>
               if name = ''help'' \<or> name = ''h'' then ExitHelp else ExitUsage (NotDefined name)
           | Some fl \<Rightarrow>
               if fl_bool fl \<or> val \<noteq> None
               then let v = (case val of Some v \<Rightarrow> v | None \<Rightarrow> ''true'')
                    in case fl_Set fl v f of
                         Inl e \<Rightarrow> ExitUsage (InvalidValue name v e)
                       | Inr f' \<Rightarrow> parse_args formal args f'
               else case args of
                   [] \<Rightarrow> ExitUsage (NeedsArgument name)
                 | v # args' \<Rightarrow>
                     (case fl_Set fl v f of
                        Inl e \<Rightarrow> ExitUsage (InvalidValue name v e)
                      | Inr f' \<Rightarrow> parse_args formal args' f')))"


section \<open>Lemmas: numbers\<close>

lemma digit_of_digit: "is_digit c \<Longrightarrow> digit_of c = Some (digit_val c)"
  by (simp add: is_digit_def digit_of_def digit_val_def)

lemma digit_val_bounds: "is_digit c \<Longrightarrow> 0 \<le> digit_val c \<and> digit_val c < 10"
  by (simp add: is_digit_def digit_val_def)

text \<open>Reading digits on, as \<open>atoi_pos\<close> does from 0.\<close>

definition read_on :: "int \<Rightarrow> string \<Rightarrow> int" where
  "read_on x s = foldl (\<lambda>acc c. 10 * acc + digit_val c) x s"

lemma read_on_simps [simp]:
  "read_on x [] = x" "read_on x (c # cs) = read_on (10 * x + digit_val c) cs"
  by (simp_all add: read_on_def)

lemma read_on_zero: "read_on 0 s = atoi_pos s"
  by (simp add: read_on_def atoi_pos_def)

lemma read_on_ge: "0 \<le> x \<Longrightarrow> list_all is_digit s \<Longrightarrow> x \<le> read_on x s"
proof (induction s arbitrary: x)
  case (Cons c cs)
  then have "10 * x + digit_val c \<le> read_on (10 * x + digit_val c) cs"
    using digit_val_bounds [of c] by (intro Cons.IH) auto
  with Cons(2,3) digit_val_bounds [of c] show ?case by simp
qed simp

lemma uint_loop_digits:
  assumes "0 \<le> x" and "list_all is_digit s" and "read_on x s < 2 ^ 64"
  shows "uint_loop 10 s False x = Inr (False, read_on x s)"
  using assms
proof (induction s arbitrary: x)
  case (Cons c cs)
  have d: "is_digit c" "0 \<le> digit_val c" "digit_val c < 10" "list_all is_digit cs"
    using Cons(3) digit_val_bounds [of c] by auto
  have "10 * x + digit_val c \<le> read_on (10 * x + digit_val c) cs"
    using d Cons(2) by (intro read_on_ge) auto
  then have "10 * x + digit_val c < 2 ^ 64" using Cons(4) by simp
  moreover have "c \<noteq> CHR ''_''" using d(1) by (auto simp: is_digit_def)
  ultimately show ?case
    using Cons.IH [of "10 * x + digit_val c"] Cons(2,4) d by (simp add: digit_of_digit mult.commute)
qed simp

lemma itoa_pos_all_digits: "0 \<le> n \<Longrightarrow> list_all is_digit (itoa_pos n)"
  by (simp add: list_all_iff itoa_pos_digits)

lemma hd_itoa_pos: "0 < n \<Longrightarrow> hd (itoa_pos n) \<noteq> CHR ''0''"
proof (induction n rule: itoa_pos.induct)
  case (1 n)
  show ?case
  proof (cases "n < 10")
    case True
    then have "of_char (digit_char n) \<noteq> (48 :: int)" using 1(2) by simp
    moreover have "of_char (CHR ''0'') = (48 :: int)" by simp
    ultimately have "digit_char n \<noteq> CHR ''0''" by metis
    with True show ?thesis by (simp add: itoa_pos.simps [of n])
  next
    case False
    with 1 show ?thesis by (simp add: itoa_pos.simps [of n] hd_append)
  qed
qed

lemma itoa_pos_zero: "itoa_pos 0 = ''0''"
  by (simp add: itoa_pos.simps [of 0] digit_char_simps)

lemma parse_uint_itoa_pos:
  assumes "0 \<le> n" and "n < 2 ^ 64"
  shows "parse_uint (itoa_pos n) = Inr n"
proof (cases "n = 0")
  case True
  then show ?thesis by (simp add: itoa_pos_zero parse_uint_def base_prefix_def)
next
  case False
  have "uint_loop 10 (itoa_pos n) False 0 = Inr (False, n)"
    using uint_loop_digits [of 0 "itoa_pos n"] itoa_pos_all_digits [OF assms(1)] assms
    by (simp add: read_on_zero)
  with False assms(1) show ?thesis
    by (simp add: parse_uint_def base_prefix_def hd_itoa_pos)
qed

lemma parse_int_itoa:
  assumes "- (2 ^ 63) \<le> v" and "v < 2 ^ 63"
  shows "parse_int (itoa v) = Inr v"
proof (cases "v < 0")
  case True
  then show ?thesis using assms parse_uint_itoa_pos [of "- v"] by (simp add: parse_int_def itoa_def)
next
  case False
  obtain c cs where c: "itoa_pos v = c # cs" by (meson itoa_pos_nonempty neq_Nil_conv)
  have "is_digit c" using itoa_pos_digits [of v c] c False by simp
  then have "c \<noteq> CHR ''-''" "c \<notin> set ''+-''" by (auto simp: is_digit_def)
  with False assms parse_uint_itoa_pos [of v] show ?thesis by (simp add: parse_int_def itoa_def c)
qed


section \<open>Lemmas: durations\<close>

lemma round_half_even_int [simp]: "round_half_even (of_int n) = n"
  by (simp add: round_half_even_def)

lemma scale2_up: "e \<le> 0 \<Longrightarrow> scale2 (- e) (of_int n) = of_int (n * 2 ^ nat (- e))"
  by (simp add: scale2_def)

lemma scale2_down: "e \<le> 0 \<Longrightarrow> scale2 e (of_int (n * 2 ^ nat (- e))) = of_int n"
  by (simp add: scale2_def)

text \<open>Integers below \<open>2 ^ 53\<close> are doubles.\<close>

lemma float64_int:
  assumes "0 \<le> n" and "n < 2 ^ 53"
  shows "float64 (of_int n) = of_int n"
proof (cases "n = 0")
  case False
  let ?k = "bitlen n - bitlen 1"
  let ?e = "(if of_int n < scale2 ?k 1 then ?k - 1 else ?k) - 52"
  have "bitlen n \<le> 53" using bitlen_le_iff_power [of n 53] assms by simp
  moreover have "bitlen 1 = 1" by (simp add: bitlen_alt_def)
  ultimately have e: "?e \<le> 0" by simp
  have "float64 (of_int n) = scale2 ?e (of_int (round_half_even (scale2 (- ?e) (of_int n))))"
    using False by (simp add: float64_def quotient_of_int Let_def)
  also have "\<dots> = of_int n"
    unfolding scale2_up [OF e] round_half_even_int by (rule scale2_down [OF e])
  finally show ?thesis .
qed (simp add: float64_def)

lemma leading_int_digits:
  assumes "0 \<le> x" and "list_all is_digit ds" and "read_on x ds \<le> 2 ^ 63"
    and "rest = [] \<or> \<not> is_digit (hd rest)"
  shows "leading_int x (ds @ rest) = Some (read_on x ds, rest)"
  using assms
proof (induction ds arbitrary: x)
  case Nil
  then show ?case by (cases rest) simp_all
next
  case (Cons c cs)
  have d: "is_digit c" "0 \<le> digit_val c" "list_all is_digit cs"
    using Cons(3) digit_val_bounds [of c] by auto
  have "10 * x + digit_val c \<le> read_on (10 * x + digit_val c) cs"
    using d Cons(2) by (intro read_on_ge) auto
  then have "10 * x + digit_val c \<le> 2 ^ 63" using Cons(4) by simp
  with Cons.IH [of "10 * x + digit_val c"] Cons(2,4,5) d show ?case by (simp add: mult.commute)
qed

lemma leading_fraction_digits:
  assumes "0 \<le> x" and "0 < sc" and "list_all is_digit ds" and "read_on x ds < 2 ^ 53"
    and "sc * 10 ^ length ds < 2 ^ 53" and "rest = [] \<or> \<not> is_digit (hd rest)"
  shows "leading_fraction x (of_int sc) False (ds @ rest) = (read_on x ds, of_int (sc * 10 ^ length ds), rest)"
  using assms
proof (induction ds arbitrary: x sc)
  case Nil
  then show ?case by (cases rest) simp_all
next
  case (Cons c cs)
  have d: "is_digit c" "0 \<le> digit_val c" "list_all is_digit cs"
    using Cons(4) digit_val_bounds [of c] by auto
  have "10 * x + digit_val c \<le> read_on (10 * x + digit_val c) cs"
    using d Cons(2) by (intro read_on_ge) auto
  then have small: "10 * x + digit_val c < 2 ^ 53" using Cons(5) by simp
  have sc: "(sc * 10) * 10 ^ length cs < 2 ^ 53" using Cons(6) by (simp add: mult.assoc)
  have "sc * 10 \<le> (sc * 10) * 10 ^ length cs" using Cons(3) by simp
  then have "sc * 10 < 2 ^ 53" using sc by linarith
  then have "float64 (of_int sc * 10) = of_int (sc * 10)"
    using float64_int [of "sc * 10"] Cons(3) by simp
  with Cons.IH [OF _ _ d(3) _ sc Cons(7), of "10 * x + digit_val c"] Cons(2,3,5) d small
  show ?case by (simp add: mult.commute mult.left_commute)
qed

text \<open>A unit at the end of the text or before the number of the next component.\<close>

definition unit_before :: "string \<Rightarrow> int \<Rightarrow> string \<Rightarrow> bool" where
  "unit_before u unit' rest \<longleftrightarrow>
     u \<noteq> [] \<and> list_all (\<lambda>c. \<not> number_char c) u \<and> map_of unit_map u = Some unit' \<and> 0 < unit' \<and>
     (rest = [] \<or> number_char (hd rest))"

lemma unit_before_split:
  assumes "unit_before u unit' rest"
  shows "takeWhile (\<lambda>c. \<not> number_char c) (u @ rest) = u" "dropWhile (\<lambda>c. \<not> number_char c) (u @ rest) = rest"
    "\<not> is_digit (hd (u @ rest))" "hd (u @ rest) \<noteq> CHR ''.''"
proof -
  have all: "\<And>c. c \<in> set u \<Longrightarrow> \<not> number_char c" and "u \<noteq> []" and follows: "rest = [] \<or> number_char (hd rest)"
    using assms by (auto simp: unit_before_def list_all_iff)
  show "takeWhile (\<lambda>c. \<not> number_char c) (u @ rest) = u"
    using all follows by (cases rest) (simp_all add: takeWhile_append)
  show "dropWhile (\<lambda>c. \<not> number_char c) (u @ rest) = rest"
    using all follows by (cases rest) (simp_all add: dropWhile_append)
  have "\<not> number_char (hd (u @ rest))" using all \<open>u \<noteq> []\<close> by (cases u) simp_all
  then show "\<not> is_digit (hd (u @ rest))" "hd (u @ rest) \<noteq> CHR ''.''" by (simp_all add: number_char_def)
qed

lemma hd_itoa_digit: "0 \<le> v \<Longrightarrow> is_digit (hd (itoa_pos v @ s))"
  using itoa_pos_digits [of v "hd (itoa_pos v)"] by simp

lemma leading_int_itoa:
  assumes "0 \<le> v" and "v \<le> 2 ^ 63" and "rest = [] \<or> \<not> is_digit (hd rest)"
  shows "leading_int 0 (itoa_pos v @ rest) = Some (v, rest)"
  using leading_int_digits [OF _ itoa_pos_all_digits [OF assms(1)] _ assms(3), of 0] assms
  by (simp add: read_on_zero)

lemma duration_part_whole:
  assumes "0 \<le> v" and "v * unit' \<le> 2 ^ 63" and "unit_before u unit' rest"
  shows "duration_part (itoa_pos v @ u @ rest) = Some (v * unit', rest)"
proof -
  note split = unit_before_split [OF assms(3)]
  have unit: "u \<noteq> []" "map_of unit_map u = Some unit'" "0 < unit'" using assms(3) by (auto simp: unit_before_def)
  have "v \<le> v * unit'" using assms(1) unit(3) by (simp add: mult_le_cancel_left1)
  then have "leading_int 0 (itoa_pos v @ u @ rest) = Some (v, u @ rest)"
    using assms(1,2) split(3) by (intro leading_int_itoa) auto
  moreover have "v \<le> 2 ^ 63 div unit'"
    using zdiv_mono1 [OF assms(2) unit(3)] unit(3) by simp
  moreover have "number_char (hd (itoa_pos v @ u @ rest))"
    using hd_itoa_digit [OF assms(1)] by (simp add: number_char_def)
  ultimately show ?thesis
    using unit split assms(2) by (simp add: duration_part_def Let_def)
qed

lemma atoi_pos_bounds:
  assumes "list_all is_digit ds"
  shows "0 \<le> atoi_pos ds \<and> atoi_pos ds < 10 ^ length ds"
  using assms
proof (induction ds rule: rev_induct)
  case (snoc c cs)
  then show ?case using digit_val_bounds [of c] by (auto simp: atoi_pos_def)
qed (simp add: atoi_pos_def)

text \<open>The fraction of at most nine digits is exact.\<close>

lemma float64_fraction:
  assumes "0 \<le> f" and "f < 10 ^ k" and "p \<le> 9" and "k \<le> p"
  shows "float64 (float64 (of_int f) * float64 (of_int (10 ^ p) / of_int (10 ^ k))) = of_int (f * 10 ^ (p - k))"
proof -
  have p: "(10::int) ^ p \<le> 10 ^ 9" using assms(3) by (intro power_increasing) auto
  have q: "(10::int) ^ p = 10 ^ (p - k) * 10 ^ k" using assms(4) by (simp flip: power_add)
  have "f * 10 ^ (p - k) \<le> 10 ^ k * 10 ^ (p - k)" using assms(2) by (intro mult_right_mono) auto
  also have "\<dots> = 10 ^ p" unfolding q by (rule mult.commute)
  finally have prod: "f * 10 ^ (p - k) \<le> 10 ^ 9" using p by (rule order_trans)
  have "(10::int) ^ k \<le> 10 ^ 9" "(10::int) ^ (p - k) \<le> 10 ^ 9"
    using assms(3,4) by (intro power_increasing; simp)+
  then have fl: "float64 (of_int f) = of_int f" "float64 (of_int (10 ^ (p - k))) = of_int (10 ^ (p - k))"
    using float64_int [of f] float64_int [of "10 ^ (p - k)"] assms(1,2) by auto
  have "(of_int (10 ^ p) / of_int (10 ^ k) :: rat) = of_int (10 ^ (p - k))" unfolding q by simp
  then have "float64 (of_int f) * float64 (of_int (10 ^ p) / of_int (10 ^ k)) = of_int (f * 10 ^ (p - k))"
    by (simp only: fl of_int_mult)
  then show ?thesis
    using float64_int [of "f * 10 ^ (p - k)"] prod assms(1) by (simp only:) simp
qed

lemma duration_part_fraction:
  assumes "0 \<le> v" and "v * 10 ^ p + 10 ^ p \<le> 2 ^ 63" and "p \<le> 9" and "unit_before u (10 ^ p) rest"
    and ds: "ds \<noteq> []" "list_all is_digit ds" "length ds \<le> p"
  shows "duration_part (itoa_pos v @ CHR ''.'' # ds @ u @ rest) =
    Some (v * 10 ^ p + atoi_pos ds * 10 ^ (p - length ds), rest)"
proof -
  note split = unit_before_split [OF assms(4)]
  have unit: "u \<noteq> []" "map_of unit_map u = Some (10 ^ p)" using assms(4) by (auto simp: unit_before_def)
  have f: "0 \<le> atoi_pos ds" "atoi_pos ds < 10 ^ length ds" using atoi_pos_bounds [OF ds(2)] by auto
  have le9: "(10::int) ^ length ds \<le> 10 ^ 9" "(10::int) ^ (p - length ds) \<le> 10 ^ 9"
    using assms(3) ds(3) by (intro power_increasing; simp)+
  have "(0::int) < 10 ^ p" by simp
  with assms(2) have whole: "v * 10 ^ p \<le> 2 ^ 63" by linarith
  have "v \<le> v * 10 ^ p" using assms(1) by (simp add: mult_le_cancel_left1)
  then have "v \<le> 2 ^ 63" using whole by (rule order_trans)
  then have "leading_int 0 (itoa_pos v @ CHR ''.'' # ds @ u @ rest) = Some (v, CHR ''.'' # ds @ u @ rest)"
    using assms(1) by (intro leading_int_itoa) (auto simp: is_digit_def)
  moreover have "leading_fraction 0 1 False (ds @ u @ rest) = (atoi_pos ds, of_int (10 ^ length ds), u @ rest)"
    using leading_fraction_digits [of 0 1 ds "u @ rest"] ds(2) f le9 split(3) by (simp add: read_on_zero)
  moreover have "v \<le> 2 ^ 63 div 10 ^ p"
    using zdiv_mono1 [OF whole, of "10 ^ p"] by simp
  moreover have "number_char (hd (itoa_pos v @ CHR ''.'' # ds @ u @ rest))"
    using hd_itoa_digit [OF assms(1)] by (simp add: number_char_def)
  moreover have "\<lfloor>float64 (float64 (of_int (atoi_pos ds)) * float64 (of_int (10 ^ p) / of_int (10 ^ length ds)))\<rfloor> =
      atoi_pos ds * 10 ^ (p - length ds)"
    by (simp only: float64_fraction [OF f assms(3) ds(3)] floor_of_int)
  moreover have "atoi_pos ds * 10 ^ (p - length ds) \<le> 10 ^ p"
    using mult_right_mono [of "atoi_pos ds" "10 ^ length ds" "10 ^ (p - length ds)"] f ds(3)
    by (simp flip: power_add)
  with assms(2) have "v * 10 ^ p + atoi_pos ds * 10 ^ (p - length ds) \<le> 2 ^ 63" by linarith
  ultimately show ?thesis
    using unit split whole ds(1) f
    by (cases "atoi_pos ds = 0") (simp_all add: duration_part_def Let_def)
qed

text \<open>The text of a fraction, read back.\<close>

lemma drop_zeros_rev: "\<exists>j. s = rev (drop_zeros (rev s)) @ replicate j (CHR ''0'')"
proof (induction s rule: rev_induct)
  case (snoc c cs)
  show ?case
  proof (cases "c = CHR ''0''")
    case True
    from snoc obtain j where j: "cs = rev (drop_zeros (rev cs)) @ replicate j (CHR ''0'')" by blast
    have "cs @ [c] = rev (drop_zeros (rev cs)) @ replicate (Suc j) (CHR ''0'')"
      using j by (metis True append.assoc replicate_append_same replicate_Suc)
    moreover have "drop_zeros (rev (cs @ [c])) = drop_zeros (rev cs)" using True by simp
    ultimately show ?thesis by metis
  qed (auto intro: exI [of _ 0])
qed simp

lemma atoi_pos_append_zeros: "atoi_pos (s @ replicate j (CHR ''0'')) = atoi_pos s * 10 ^ j"
proof (induction j)
  case (Suc j)
  have "atoi_pos ((s @ replicate j (CHR ''0'')) @ [CHR ''0'']) = 10 * atoi_pos (s @ replicate j (CHR ''0''))"
    by (simp add: atoi_pos_def digit_val_def)
  with Suc show ?case by (simp add: replicate_append_same)
qed simp

lemma fmt_frac_cases:
  assumes "0 < p"
  obtains (none) "fmt_frac v p = []" "v mod 10 ^ p = 0"
  | (some) ds where "fmt_frac v p = CHR ''.'' # ds" "ds \<noteq> []" "list_all is_digit ds" "length ds \<le> p"
      "atoi_pos ds * 10 ^ (p - length ds) = v mod 10 ^ p"
proof -
  let ?s = "append_int (v mod 10 ^ p) p"
  let ?ds = "rev (drop_zeros (rev ?s))"
  have field: "length ?s = p" "atoi ?s = v mod 10 ^ p" "list_all is_digit ?s"
    using append_int_field [of "v mod 10 ^ p" p] assms by auto
  obtain j where j: "?s = ?ds @ replicate j (CHR ''0'')" using drop_zeros_rev by blast
  have len: "j = p - length ?ds" "length ?ds \<le> p" using arg_cong [OF j, of length] field(1) by auto
  have digits: "list_all is_digit ?ds" using field(3) j by (metis list_all_append)
  have "atoi_pos ?ds * 10 ^ (p - length ?ds) = atoi_pos ?s"
    by (subst (3) j) (simp only: atoi_pos_append_zeros len(1))
  then have val: "atoi_pos ?ds * 10 ^ (p - length ?ds) = v mod 10 ^ p"
    using atoi_digits [OF field(3)] field(2) by simp
  show ?thesis
  proof (cases "?ds = []")
    case True
    with val show ?thesis by (intro none) (simp_all add: fmt_frac_def atoi_pos_def)
  next
    case False
    with digits len(2) val show ?thesis by (intro some [of ?ds]) (simp_all add: fmt_frac_def Let_def)
  qed
qed

lemma duration_part_fmt:
  assumes "0 \<le> v" and "v * 10 ^ p + 10 ^ p \<le> 2 ^ 63" and "0 < p" and "p \<le> 9" and "unit_before u (10 ^ p) rest"
  shows "duration_part (itoa_pos v @ fmt_frac x p @ u @ rest) = Some (v * 10 ^ p + x mod 10 ^ p, rest)"
  using assms(3)
proof (cases rule: fmt_frac_cases [of p x])
  case none
  have "(0::int) < 10 ^ p" by simp
  with assms(2) have "v * 10 ^ p \<le> 2 ^ 63" by linarith
  with none show ?thesis using duration_part_whole [OF assms(1) _ assms(5)] by simp
next
  case (some ds)
  with duration_part_fraction [OF assms(1,2,4,5) some(2-4)] show ?thesis by simp
qed

text \<open>A component read at the front of the text adds to the sum.\<close>

lemma duration_loop_part:
  assumes "duration_part s = Some (v, rest)" and "s \<noteq> []" and "0 \<le> d" and "0 \<le> v" and "d + v \<le> 2 ^ 63"
  shows "duration_loop d s = duration_loop (d + v) rest"
  using assms by (subst duration_loop.simps) simp

lemma duration_loop_end [simp]: "duration_loop d [] = Some d"
  by (simp add: duration_loop.simps)

lemma number_char_itoa: "0 \<le> v \<Longrightarrow> number_char (hd (itoa_pos v @ s))"
  using hd_itoa_digit [of v s] by (simp add: number_char_def)

lemma micro_sign: "char_of (194::int) = CHR 0xC2" "char_of (181::int) = CHR 0xB5"
  by code_simp+

lemma unit_befores:
  assumes "rest = [] \<or> number_char (hd rest)"
  shows "unit_before ''ns'' 1 rest" "unit_before ''s'' (10 ^ 9) rest" "unit_before ''ms'' (10 ^ 6) rest"
    "unit_before [char_of (194::int), char_of (181::int), CHR ''s''] (10 ^ 3) rest"
    "unit_before ''m'' 60000000000 rest" "unit_before ''h'' 3600000000000 rest"
  using assms by (simp_all add: unit_before_def unit_map_def number_char_def is_digit_def micro_sign)

lemma loop_whole:
  assumes "0 \<le> v" and "0 \<le> d" and "d + v * unit' \<le> 2 ^ 63" and "unit_before u unit' rest"
  shows "duration_loop d (itoa_pos v @ u @ rest) = duration_loop (d + v * unit') rest"
proof (rule duration_loop_part)
  have "0 < unit'" using assms(4) by (simp add: unit_before_def)
  then show "0 \<le> v * unit'" using assms(1) by simp
  show "duration_part (itoa_pos v @ u @ rest) = Some (v * unit', rest)"
    using assms by (intro duration_part_whole) auto
qed (use assms in auto)

lemma loop_fmt:
  assumes "0 \<le> v" and "0 \<le> d" and "d + v * 10 ^ p + x mod 10 ^ p \<le> 2 ^ 63" and "v * 10 ^ p + 10 ^ p \<le> 2 ^ 63"
    and "0 < p" and "p \<le> 9" and "unit_before u (10 ^ p) rest"
  shows "duration_loop d (itoa_pos v @ fmt_frac x p @ u @ rest) =
    duration_loop (d + (v * 10 ^ p + x mod 10 ^ p)) rest"
  using assms by (intro duration_loop_part duration_part_fmt) auto

text \<open>The sum of the hours, minutes, seconds and nanoseconds.\<close>

lemma duration_fields:
  fixes u :: int
  shows "u div 1000000000 div 60 div 60 * 3600000000000 + u div 1000000000 div 60 mod 60 * 60000000000 +
    (u div 1000000000 mod 60 * 10 ^ 9 + u mod 10 ^ 9) = u"
proof -
  define S where "S = u div 1000000000"
  define M where "M = S div 60"
  have "u = S * 1000000000 + u mod 1000000000" unfolding S_def by simp
  moreover have "S = M * 60 + S mod 60" unfolding M_def by simp
  moreover have "M = M div 60 * 60 + M mod 60" by simp
  ultimately have "M div 60 * 3600000000000 + M mod 60 * 60000000000 +
      (S mod 60 * 1000000000 + u mod 1000000000) = u" by linarith
  then show ?thesis unfolding M_def S_def by simp
qed

lemma itoa_nonneg: "0 \<le> n \<Longrightarrow> itoa n = itoa_pos n"
  by (simp add: itoa_def)

lemma loop_seconds:
  assumes "0 \<le> d" and "0 \<le> s" and "s < 60" and "d + (s * 10 ^ 9 + x mod 10 ^ 9) \<le> 2 ^ 63"
  shows "duration_loop d (itoa_pos s @ fmt_frac x 9 @ ''s'') = Some (d + (s * 10 ^ 9 + x mod 10 ^ 9))"
  using loop_fmt [OF assms(2,1) _ _ _ _ unit_befores(2), of x "[]"] assms by (simp add: add.assoc)

lemma loop_minutes:
  assumes "0 \<le> d" and "0 \<le> m" and "0 \<le> s" and "s < 60"
    and "d + m * 60000000000 + (s * 10 ^ 9 + x mod 10 ^ 9) \<le> 2 ^ 63"
  shows "duration_loop d (itoa_pos m @ ''m'' @ itoa_pos s @ fmt_frac x 9 @ ''s'') =
    Some (d + m * 60000000000 + (s * 10 ^ 9 + x mod 10 ^ 9))"
proof -
  have "0 \<le> s * 10 ^ 9 + x mod 10 ^ 9" using assms(3) by simp
  with assms(5) have le: "d + m * 60000000000 \<le> 2 ^ 63" by linarith
  have "number_char (hd (itoa_pos s @ fmt_frac x 9 @ ''s''))" by (rule number_char_itoa [OF assms(3)])
  then have "duration_loop d (itoa_pos m @ ''m'' @ itoa_pos s @ fmt_frac x 9 @ ''s'') =
      duration_loop (d + m * 60000000000) (itoa_pos s @ fmt_frac x 9 @ ''s'')"
    by (intro loop_whole [OF assms(2,1) le] unit_befores) (rule disjI2)
  with loop_seconds [OF _ assms(3-5)] assms(1,2) show ?thesis by simp
qed

lemma loop_hours:
  assumes "0 \<le> h" and "0 \<le> m" and "0 \<le> s" and "s < 60"
    and "h * 3600000000000 + m * 60000000000 + (s * 10 ^ 9 + x mod 10 ^ 9) \<le> 2 ^ 63"
  shows "duration_loop 0 (itoa_pos h @ ''h'' @ itoa_pos m @ ''m'' @ itoa_pos s @ fmt_frac x 9 @ ''s'') =
    Some (h * 3600000000000 + m * 60000000000 + (s * 10 ^ 9 + x mod 10 ^ 9))"
proof -
  have "0 \<le> m * 60000000000 + (s * 10 ^ 9 + x mod 10 ^ 9)" using assms(2,3) by simp
  with assms(5) have le: "0 + h * 3600000000000 \<le> 2 ^ 63" by linarith
  have "number_char (hd (itoa_pos m @ ''m'' @ itoa_pos s @ fmt_frac x 9 @ ''s''))"
    by (rule number_char_itoa [OF assms(2)])
  then have "duration_loop 0 (itoa_pos h @ ''h'' @ itoa_pos m @ ''m'' @ itoa_pos s @ fmt_frac x 9 @ ''s'') =
      duration_loop (0 + h * 3600000000000) (itoa_pos m @ ''m'' @ itoa_pos s @ fmt_frac x 9 @ ''s'')"
    by (intro loop_whole [OF assms(1) _ le] unit_befores) simp_all
  with loop_minutes [OF _ assms(2-5)] assms(1) show ?thesis by simp
qed

lemma loop_duration_clock:
  assumes "1000000000 \<le> u" and "u \<le> 2 ^ 63"
  shows "duration_loop 0 (duration_string u) = Some u"
proof -
  define S where "S = u div 1000000000"
  define M where "M = S div 60"
  have nonneg: "0 \<le> S" "0 \<le> M" "0 \<le> M div 60"
    unfolding M_def S_def using assms(1) by (simp_all add: pos_imp_zdiv_nonneg_iff)
  have sum: "M div 60 * 3600000000000 + M mod 60 * 60000000000 + (S mod 60 * 10 ^ 9 + u mod 10 ^ 9) = u"
    unfolding M_def S_def by (rule duration_fields)
  have shape: "duration_string u = (if M div 60 > 0 then itoa (M div 60) @ ''h'' else '''') @
      (if M > 0 then itoa (M mod 60) @ ''m'' else '''') @ itoa (S mod 60) @ fmt_frac u 9 @ ''s''"
    unfolding M_def S_def using assms(1) by (simp add: duration_string_def Let_def)
  note itoas = itoa_nonneg [OF nonneg(3)] itoa_nonneg [of "M mod 60"] itoa_nonneg [of "S mod 60"]
  consider "0 < M div 60" "0 < M" | "M div 60 = 0" "0 < M" | "M div 60 = 0" "M = 0"
    using nonneg(2,3) by fastforce
  then show ?thesis
  proof cases
    case 1
    then show ?thesis
      using loop_hours [of "M div 60" "M mod 60" "S mod 60" u] nonneg(3) assms(2) unfolding sum
      by (simp add: shape itoas)
  next
    case 2
    then show ?thesis
      using loop_minutes [of 0 "M mod 60" "S mod 60" u] assms(2) sum by (simp add: shape itoas itoa_nonneg)
  next
    case 3
    then show ?thesis
      using loop_seconds [of 0 "S mod 60" u] assms(2) sum by (simp add: shape itoas)
  qed
qed

lemma loop_duration_string:
  assumes "0 < u" and "u \<le> 2 ^ 63"
  shows "duration_loop 0 (duration_string u) = Some u"
proof -
  consider "u < 1000" | "1000 \<le> u" "u < 1000000" | "1000000 \<le> u" "u < 1000000000" | "1000000000 \<le> u"
    by linarith
  then show ?thesis
  proof cases
    case 1
    then show ?thesis
      using loop_whole [OF _ _ _ unit_befores(1), of u 0 "[]"] assms by (simp add: duration_string_def itoa_nonneg)
  next
    case 2
    then have "0 \<le> u div 1000" by simp
    with 2 show ?thesis
      using loop_fmt [OF _ _ _ _ _ _ unit_befores(4), of "u div 1000" 0 u "[]"] assms
      by (simp add: duration_string_def itoa_nonneg)
  next
    case 3
    then have "0 \<le> u div 1000000" by simp
    with 3 show ?thesis
      using loop_fmt [OF _ _ _ _ _ _ unit_befores(3), of "u div 1000000" 0 u "[]"] assms
      by (simp add: duration_string_def itoa_nonneg)
  next
    case 4
    then show ?thesis using assms(2) by (rule loop_duration_clock)
  qed
qed

lemma duration_string_neg:
  assumes "d < 0"
  shows "duration_string d = CHR ''-'' # duration_string \<bar>d\<bar>"
  using assms by (simp add: duration_string_def Let_def)

lemma duration_loop_front:
  assumes "duration_loop 0 s = Some u" and "0 < u"
  shows "s \<noteq> [] \<and> number_char (hd s) \<and> s \<noteq> ''0''"
proof -
  have "s \<noteq> []" using assms by auto
  then obtain v rest where part: "duration_part s = Some (v, rest)"
    using assms(1) by (subst (asm) duration_loop.simps) (auto split: option.splits)
  have "duration_part ''0'' = None"
    by (simp add: duration_part_def is_digit_def number_char_def digit_val_def)
  with part \<open>s \<noteq> []\<close> show ?thesis by (auto simp: duration_part_def split: if_splits)
qed

lemma parse_duration_string:
  assumes "- (2 ^ 63) \<le> d" and "d < 2 ^ 63"
  shows "parse_duration (duration_string d) = Some d"
proof (cases "d = 0")
  case True
  have "duration_loop 0 ''0s'' = Some 0"
    using loop_whole [OF _ _ _ unit_befores(2), of 0 0 "[]"] by (simp add: itoa_pos_zero)
  with True show ?thesis by (simp add: parse_duration_def duration_string_def)
next
  case False
  have loop: "duration_loop 0 (duration_string \<bar>d\<bar>) = Some \<bar>d\<bar>"
    using False assms by (intro loop_duration_string) auto
  have digit: "number_char (hd (duration_string \<bar>d\<bar>))" "duration_string \<bar>d\<bar> \<noteq> []" "duration_string \<bar>d\<bar> \<noteq> ''0''"
    using duration_loop_front [OF loop] False by auto
  then have sign: "hd (duration_string \<bar>d\<bar>) \<noteq> CHR ''-''" "hd (duration_string \<bar>d\<bar>) \<noteq> CHR ''+''"
    by (auto simp: number_char_def is_digit_def)
  show ?thesis
  proof (cases "d < 0")
    case True
    then have "duration_string d = CHR ''-'' # duration_string \<bar>d\<bar>" by (rule duration_string_neg)
    with True loop digit show ?thesis by (simp add: parse_duration_def)
  next
    case False
    then have "\<bar>d\<bar> = d" by simp
    with False loop digit sign assms(2) show ?thesis by (simp add: parse_duration_def)
  qed
qed

text \<open>Values are 64-bit integers.\<close>

lemma uint_loop_nonneg:
  "uint_loop base s us n = Inr (us', m) \<Longrightarrow> 0 \<le> base \<Longrightarrow> 0 \<le> n \<Longrightarrow> 0 \<le> m"
proof (induction base s us n rule: uint_loop.induct)
  case (2 base c cs us n)
  have "0 \<le> d" if "digit_of c = Some d" for d
    using that by (auto simp: digit_of_def Let_def split: if_splits)
  with 2 show ?case by (auto split: if_splits option.splits)
qed simp

lemma parse_uint_nonneg: "parse_uint s = Inr n \<Longrightarrow> 0 \<le> n"
  by (auto simp: parse_uint_def base_prefix_def dest!: uint_loop_nonneg split: if_splits sum.splits prod.splits)

lemma parse_int_range: "parse_int s = Inr n \<Longrightarrow> - (2 ^ 63) \<le> n \<and> n < 2 ^ 63"
  by (auto simp: parse_int_def Let_def dest: parse_uint_nonneg split: list.splits sum.splits if_splits)

lemma duration_loop_range: "duration_loop d s = Some u \<Longrightarrow> 0 \<le> d \<Longrightarrow> d \<le> 2 ^ 63 \<Longrightarrow> 0 \<le> u \<and> u \<le> 2 ^ 63"
proof (induction d s rule: duration_loop.induct)
  case (1 d s)
  show ?case
  proof (cases "s = []")
    case False
    then obtain v rest where part: "duration_part s = Some (v, rest)" "\<not> 2 ^ 63 < (d + v) mod 2 ^ 64"
        "duration_loop ((d + v) mod 2 ^ 64) rest = Some u"
      using 1(2) by (subst (asm) duration_loop.simps) (auto simp: Let_def split: option.splits if_splits)
    then show ?thesis using 1(1) [OF False part(1) refl refl] by simp
  qed (use 1 in simp)
qed

lemma parse_duration_range: "parse_duration s = Some d \<Longrightarrow> - (2 ^ 63) \<le> d \<and> d < 2 ^ 63"
  by (auto simp: parse_duration_def Let_def dest!: duration_loop_range split: if_splits option.splits)


section \<open>Lemmas: command lines\<close>

text \<open>An argument \<open>--name=value\<close>, for a name as flags have.\<close>

definition setting :: "string \<times> string \<Rightarrow> string" where
  "setting nv = ''--'' @ fst nv @ ''='' @ snd nv"

definition flag_name :: "string \<Rightarrow> bool" where
  "flag_name n \<longleftrightarrow> n \<noteq> [] \<and> hd n \<noteq> CHR ''-'' \<and> CHR ''='' \<notin> set n"

lemma parse_arg_setting: "flag_name n \<Longrightarrow> parse_arg (setting (n, v)) = FlagArg n (Some v)"
  by (cases n) (auto simp: flag_name_def setting_def parse_arg_def split_equals_def takeWhile_append dropWhile_append
      takeWhile_eq_all_conv dropWhile_eq_Nil_conv)

text \<open>The variables after a list of settings, each of a flag that is defined.\<close>

fun apply_settings :: "(string \<times> 'f formal_flag) list \<Rightarrow> (string \<times> string) list \<Rightarrow> 'f \<Rightarrow> num_error + 'f" where
  "apply_settings formal [] f = Inr f"
| "apply_settings formal ((n, v) # nvs) f =
     (case map_of formal n of
        None \<Rightarrow> Inl SyntaxError
      | Some fl \<Rightarrow> (case fl_Set fl v f of Inl e \<Rightarrow> Inl e | Inr f' \<Rightarrow> apply_settings formal nvs f'))"

lemma parse_args_settings:
  assumes "apply_settings formal nvs f = Inr f'" and "list_all (flag_name \<circ> fst) nvs"
  shows "parse_args formal (map setting nvs @ args) f = parse_args formal args f'"
  using assms
  by (induction formal nvs f rule: apply_settings.induct)
    (auto simp: parse_arg_setting split: option.splits sum.splits)

lemma apply_settings_append:
  "apply_settings formal (xs @ ys) f =
     (case apply_settings formal xs f of Inl e \<Rightarrow> Inl e | Inr f' \<Rightarrow> apply_settings formal ys f')"
  by (induction formal xs f rule: apply_settings.induct) (auto split: option.splits sum.splits)

text \<open>Setting a variable to a printed value.\<close>

lemma parse_bool_text [simp]: "parse_bool (if b then ''true'' else ''false'') = Inr b"
  by (simp add: parse_bool_def)

end
