(* ===== verification/Flags.thy ===== *)
theory Flags
  imports Startup GoFlag
begin

text \<open>
  \<open>parseFlags\<close> of \<open>main.go\<close>: the table of flags in the order of the source, and the command
  line read by package \<open>flag\<close> into the variables they are bound to.

  Flags that are not the program's own, those of \<open>zap.Options.BindFlags\<close> and those that
  imported packages put into \<open>flag.CommandLine\<close>, are a parameter: a list of flags over a state
  of their own. A name that is defined twice is a panic of \<open>flag.Var\<close>. \<open>run_main\<close> is the
  process: \<open>parseFlags\<close>, then the checks and the wiring of \<open>main\<close>.
\<close>

section \<open>The flags\<close>

definition own_flags :: "(string \<times> flags formal_flag) list" where
  "own_flags =
     [(''tbot-image'', StringVar f_tbotImage_update),
      (''tbot-cpu-request'', StringVar f_tbotCPURequest_update),
      (''tbot-memory-request'', StringVar f_tbotMemRequest_update),
      (''tbot-cpu-limit'', StringVar f_tbotCPULimit_update),
      (''tbot-memory-limit'', StringVar f_tbotMemLimit_update),
      (''tbot-insecure'', BoolVar f_tbotInsecure_update),
      (''teleport-cluster-name'', StringVar f_teleportClusterName_update),
      (''teleport-proxy-addr'', StringVar f_teleportProxyAddr_update),
      (''ghostunnel-image'', StringVar f_ghostunnelImage_update),
      (''ghostunnel-reload-interval'', StringVar f_ghostunnelReloadInterval_update),
      (''ghostunnel-listen-port'', IntVar f_ghostunnelListenPort_update),
      (''ghostunnel-cpu-request'', StringVar f_ghostunnelCPURequest_update),
      (''ghostunnel-memory-request'', StringVar f_ghostunnelMemRequest_update),
      (''ghostunnel-cpu-limit'', StringVar f_ghostunnelCPULimit_update),
      (''ghostunnel-memory-limit'', StringVar f_ghostunnelMemLimit_update),
      (''verify-tunnels'', BoolVar f_verifyTunnels_update),
      (''verify-interval'', DurationVar f_verifyInterval_update),
      (''verify-timeout'', DurationVar f_verifyTimeout_update),
      (''verify-jitter'', DurationVar f_verifyJitter_update),
      (''verify-concurrency'', IntVar f_verifyConcurrency_update),
      (''verify-upstream'', BoolVar f_verifyUpstream_update),
      (''verify-upstream-timeout'', DurationVar f_verifyUpstreamTimeout_update),
      (''verify-trust-bundle-file'', StringVar f_verifyTrustBundleFile_update),
      (''cluster-domain'', StringVar f_clusterDomain_update),
      (''metrics-bind-address'', StringVar f_metricsAddr_update),
      (''health-probe-bind-address'', StringVar f_probeAddr_update),
      (''leader-elect'', BoolVar f_enableLeaderElection_update),
      (''metrics-secure'', BoolVar f_secureMetrics_update),
      (''webhook-cert-path'', StringVar f_webhookCertPath_update),
      (''webhook-cert-name'', StringVar f_webhookCertName_update),
      (''webhook-cert-key'', StringVar f_webhookCertKey_update),
      (''metrics-cert-path'', StringVar f_metricsCertPath_update),
      (''metrics-cert-name'', StringVar f_metricsCertName_update),
      (''metrics-cert-key'', StringVar f_metricsCertKey_update),
      (''enable-http2'', BoolVar f_enableHTTP2_update)]"

definition on_fst :: "'a formal_flag \<Rightarrow> ('a \<times> 'b) formal_flag" where
  "on_fst fl = \<lparr>fl_bool = fl_bool fl, fl_Set = (\<lambda>v (a, b). map_error (\<lambda>a'. (a', b)) (fl_Set fl v a))\<rparr>"

definition on_snd :: "'b formal_flag \<Rightarrow> ('a \<times> 'b) formal_flag" where
  "on_snd fl = \<lparr>fl_bool = fl_bool fl, fl_Set = (\<lambda>v (a, b). map_error (\<lambda>b'. (a, b')) (fl_Set fl v b))\<rparr>"

definition command_line :: "(string \<times> 'l formal_flag) list \<Rightarrow> (string \<times> (flags \<times> 'l) formal_flag) list" where
  "command_line libs = map (\<lambda>(n, fl). (n, on_fst fl)) own_flags @ map (\<lambda>(n, fl). (n, on_snd fl)) libs"

text \<open>\<open>None\<close> is the panic.\<close>

definition parseFlags ::
  "(string \<times> 'l formal_flag) list \<Rightarrow> 'l \<Rightarrow> string list \<Rightarrow> (flags \<times> 'l) parsed option" where
  "parseFlags libs l args =
     (if distinct (map fst (command_line libs))
      then Some (parse_args (command_line libs) args (default_flags, l)) else None)"

datatype process = Panics | Exits int | Finished wiring

definition run_main :: "main_env \<Rightarrow> (string \<times> 'l formal_flag) list \<Rightarrow> 'l \<Rightarrow> string list \<Rightarrow> process" where
  "run_main env libs l args =
     (case parseFlags libs l args of
        None \<Rightarrow> Panics
      | Some ExitHelp \<Rightarrow> Exits 0
      | Some (ExitUsage e) \<Rightarrow> Exits 2
      | Some (Parsed (f, _) _) \<Rightarrow>
          (case main_program env f of Inl msg \<Rightarrow> Exits 1 | Inr w \<Rightarrow> Finished w))"


section \<open>What the flags mean\<close>

text \<open>
  The specification: each flag has a kind, each kind a set of texts and for each text a
  value, given by the text the value is printed as. \<open>flag_values\<close> are the values of all flags.
\<close>

datatype kind = StringKind | BoolKind | IntKind | DurationKind

definition flag_kinds :: "(string \<times> kind) list" where
  "flag_kinds =
     [(''tbot-image'', StringKind),
      (''tbot-cpu-request'', StringKind),
      (''tbot-memory-request'', StringKind),
      (''tbot-cpu-limit'', StringKind),
      (''tbot-memory-limit'', StringKind),
      (''tbot-insecure'', BoolKind),
      (''teleport-cluster-name'', StringKind),
      (''teleport-proxy-addr'', StringKind),
      (''ghostunnel-image'', StringKind),
      (''ghostunnel-reload-interval'', StringKind),
      (''ghostunnel-listen-port'', IntKind),
      (''ghostunnel-cpu-request'', StringKind),
      (''ghostunnel-memory-request'', StringKind),
      (''ghostunnel-cpu-limit'', StringKind),
      (''ghostunnel-memory-limit'', StringKind),
      (''verify-tunnels'', BoolKind),
      (''verify-interval'', DurationKind),
      (''verify-timeout'', DurationKind),
      (''verify-jitter'', DurationKind),
      (''verify-concurrency'', IntKind),
      (''verify-upstream'', BoolKind),
      (''verify-upstream-timeout'', DurationKind),
      (''verify-trust-bundle-file'', StringKind),
      (''cluster-domain'', StringKind),
      (''metrics-bind-address'', StringKind),
      (''health-probe-bind-address'', StringKind),
      (''leader-elect'', BoolKind),
      (''metrics-secure'', BoolKind),
      (''webhook-cert-path'', StringKind),
      (''webhook-cert-name'', StringKind),
      (''webhook-cert-key'', StringKind),
      (''metrics-cert-path'', StringKind),
      (''metrics-cert-name'', StringKind),
      (''metrics-cert-key'', StringKind),
      (''enable-http2'', BoolKind)]"

definition bool_text :: "bool \<Rightarrow> string" where
  "bool_text b = (if b then ''true'' else ''false'')"

definition canonical :: "kind \<Rightarrow> string \<Rightarrow> string option" where
  "canonical k v =
     (case k of
        StringKind \<Rightarrow> Some v
      | BoolKind \<Rightarrow> (case parse_bool v of Inr b \<Rightarrow> Some (bool_text b) | Inl _ \<Rightarrow> None)
      | IntKind \<Rightarrow> (case parse_int v of Inr n \<Rightarrow> Some (itoa n) | Inl _ \<Rightarrow> None)
      | DurationKind \<Rightarrow> map_option duration_string (parse_duration v))"

definition flag_values :: "flags \<Rightarrow> (string \<times> string) list" where
  "flag_values f =
     [(''tbot-image'', f_tbotImage f),
      (''tbot-cpu-request'', f_tbotCPURequest f),
      (''tbot-memory-request'', f_tbotMemRequest f),
      (''tbot-cpu-limit'', f_tbotCPULimit f),
      (''tbot-memory-limit'', f_tbotMemLimit f),
      (''tbot-insecure'', bool_text (f_tbotInsecure f)),
      (''teleport-cluster-name'', f_teleportClusterName f),
      (''teleport-proxy-addr'', f_teleportProxyAddr f),
      (''ghostunnel-image'', f_ghostunnelImage f),
      (''ghostunnel-reload-interval'', f_ghostunnelReloadInterval f),
      (''ghostunnel-listen-port'', itoa (f_ghostunnelListenPort f)),
      (''ghostunnel-cpu-request'', f_ghostunnelCPURequest f),
      (''ghostunnel-memory-request'', f_ghostunnelMemRequest f),
      (''ghostunnel-cpu-limit'', f_ghostunnelCPULimit f),
      (''ghostunnel-memory-limit'', f_ghostunnelMemLimit f),
      (''verify-tunnels'', bool_text (f_verifyTunnels f)),
      (''verify-interval'', duration_string (f_verifyInterval f)),
      (''verify-timeout'', duration_string (f_verifyTimeout f)),
      (''verify-jitter'', duration_string (f_verifyJitter f)),
      (''verify-concurrency'', itoa (f_verifyConcurrency f)),
      (''verify-upstream'', bool_text (f_verifyUpstream f)),
      (''verify-upstream-timeout'', duration_string (f_verifyUpstreamTimeout f)),
      (''verify-trust-bundle-file'', f_verifyTrustBundleFile f),
      (''cluster-domain'', f_clusterDomain f),
      (''metrics-bind-address'', f_metricsAddr f),
      (''health-probe-bind-address'', f_probeAddr f),
      (''leader-elect'', bool_text (f_enableLeaderElection f)),
      (''metrics-secure'', bool_text (f_secureMetrics f)),
      (''webhook-cert-path'', f_webhookCertPath f),
      (''webhook-cert-name'', f_webhookCertName f),
      (''webhook-cert-key'', f_webhookCertKey f),
      (''metrics-cert-path'', f_metricsCertPath f),
      (''metrics-cert-name'', f_metricsCertName f),
      (''metrics-cert-key'', f_metricsCertKey f),
      (''enable-http2'', bool_text (f_enableHTTP2 f))]"

definition int64 :: "int \<Rightarrow> bool" where
  "int64 n \<longleftrightarrow> - (2 ^ 63) \<le> n \<and> n < 2 ^ 63"

definition flags_in_range :: "flags \<Rightarrow> bool" where
  "flags_in_range f \<longleftrightarrow>
     int64 (f_ghostunnelListenPort f) \<and>
     int64 (f_verifyInterval f) \<and>
     int64 (f_verifyTimeout f) \<and>
     int64 (f_verifyJitter f) \<and>
     int64 (f_verifyConcurrency f) \<and>
     int64 (f_verifyUpstreamTimeout f)"


section \<open>Lemmas: the table\<close>

definition put_value :: "string \<Rightarrow> string \<Rightarrow> (string \<times> string) list \<Rightarrow> (string \<times> string) list" where
  "put_value n w = map (\<lambda>(m, x). (m, if m = n then w else x))"

lemma own_names: "map fst own_flags = map fst flag_kinds"
  by (simp add: own_flags_def flag_kinds_def)

lemma value_names: "map fst (flag_values f) = map fst flag_kinds"
  by (simp add: flag_values_def flag_kinds_def)

lemma distinct_names: "distinct (map fst flag_kinds)"
  by code_simp

lemma good_names: "n \<in> set (map fst flag_kinds) \<Longrightarrow> flag_name n"
proof -
  have "list_all flag_name (map fst flag_kinds)"
    by (simp add: flag_kinds_def flag_name_def)
  then show "n \<in> set (map fst flag_kinds) \<Longrightarrow> flag_name n" by (simp only: list_all_iff)
qed

lemma flag_values_update:
  "flag_values (f_tbotImage_update (\<lambda>_. v) g) = put_value ''tbot-image'' v (flag_values g)"
  "flag_values (f_tbotCPURequest_update (\<lambda>_. v) g) = put_value ''tbot-cpu-request'' v (flag_values g)"
  "flag_values (f_tbotMemRequest_update (\<lambda>_. v) g) = put_value ''tbot-memory-request'' v (flag_values g)"
  "flag_values (f_tbotCPULimit_update (\<lambda>_. v) g) = put_value ''tbot-cpu-limit'' v (flag_values g)"
  "flag_values (f_tbotMemLimit_update (\<lambda>_. v) g) = put_value ''tbot-memory-limit'' v (flag_values g)"
  "flag_values (f_tbotInsecure_update (\<lambda>_. b) g) = put_value ''tbot-insecure'' (bool_text b) (flag_values g)"
  "flag_values (f_teleportClusterName_update (\<lambda>_. v) g) = put_value ''teleport-cluster-name'' v (flag_values g)"
  "flag_values (f_teleportProxyAddr_update (\<lambda>_. v) g) = put_value ''teleport-proxy-addr'' v (flag_values g)"
  "flag_values (f_ghostunnelImage_update (\<lambda>_. v) g) = put_value ''ghostunnel-image'' v (flag_values g)"
  "flag_values (f_ghostunnelReloadInterval_update (\<lambda>_. v) g) = put_value ''ghostunnel-reload-interval'' v (flag_values g)"
  "flag_values (f_ghostunnelListenPort_update (\<lambda>_. i) g) = put_value ''ghostunnel-listen-port'' (itoa i) (flag_values g)"
  "flag_values (f_ghostunnelCPURequest_update (\<lambda>_. v) g) = put_value ''ghostunnel-cpu-request'' v (flag_values g)"
  "flag_values (f_ghostunnelMemRequest_update (\<lambda>_. v) g) = put_value ''ghostunnel-memory-request'' v (flag_values g)"
  "flag_values (f_ghostunnelCPULimit_update (\<lambda>_. v) g) = put_value ''ghostunnel-cpu-limit'' v (flag_values g)"
  "flag_values (f_ghostunnelMemLimit_update (\<lambda>_. v) g) = put_value ''ghostunnel-memory-limit'' v (flag_values g)"
  "flag_values (f_verifyTunnels_update (\<lambda>_. b) g) = put_value ''verify-tunnels'' (bool_text b) (flag_values g)"
  "flag_values (f_verifyInterval_update (\<lambda>_. d) g) = put_value ''verify-interval'' (duration_string d) (flag_values g)"
  "flag_values (f_verifyTimeout_update (\<lambda>_. d) g) = put_value ''verify-timeout'' (duration_string d) (flag_values g)"
  "flag_values (f_verifyJitter_update (\<lambda>_. d) g) = put_value ''verify-jitter'' (duration_string d) (flag_values g)"
  "flag_values (f_verifyConcurrency_update (\<lambda>_. i) g) = put_value ''verify-concurrency'' (itoa i) (flag_values g)"
  "flag_values (f_verifyUpstream_update (\<lambda>_. b) g) = put_value ''verify-upstream'' (bool_text b) (flag_values g)"
  "flag_values (f_verifyUpstreamTimeout_update (\<lambda>_. d) g) = put_value ''verify-upstream-timeout'' (duration_string d) (flag_values g)"
  "flag_values (f_verifyTrustBundleFile_update (\<lambda>_. v) g) = put_value ''verify-trust-bundle-file'' v (flag_values g)"
  "flag_values (f_clusterDomain_update (\<lambda>_. v) g) = put_value ''cluster-domain'' v (flag_values g)"
  "flag_values (f_metricsAddr_update (\<lambda>_. v) g) = put_value ''metrics-bind-address'' v (flag_values g)"
  "flag_values (f_probeAddr_update (\<lambda>_. v) g) = put_value ''health-probe-bind-address'' v (flag_values g)"
  "flag_values (f_enableLeaderElection_update (\<lambda>_. b) g) = put_value ''leader-elect'' (bool_text b) (flag_values g)"
  "flag_values (f_secureMetrics_update (\<lambda>_. b) g) = put_value ''metrics-secure'' (bool_text b) (flag_values g)"
  "flag_values (f_webhookCertPath_update (\<lambda>_. v) g) = put_value ''webhook-cert-path'' v (flag_values g)"
  "flag_values (f_webhookCertName_update (\<lambda>_. v) g) = put_value ''webhook-cert-name'' v (flag_values g)"
  "flag_values (f_webhookCertKey_update (\<lambda>_. v) g) = put_value ''webhook-cert-key'' v (flag_values g)"
  "flag_values (f_metricsCertPath_update (\<lambda>_. v) g) = put_value ''metrics-cert-path'' v (flag_values g)"
  "flag_values (f_metricsCertName_update (\<lambda>_. v) g) = put_value ''metrics-cert-name'' v (flag_values g)"
  "flag_values (f_metricsCertKey_update (\<lambda>_. v) g) = put_value ''metrics-cert-key'' v (flag_values g)"
  "flag_values (f_enableHTTP2_update (\<lambda>_. b) g) = put_value ''enable-http2'' (bool_text b) (flag_values g)"
  by (simp_all add: flag_values_def put_value_def)

lemma flags_in_range_update:
  "flags_in_range g \<Longrightarrow> flags_in_range (f_tbotImage_update (\<lambda>_. v) g)"
  "flags_in_range g \<Longrightarrow> flags_in_range (f_tbotCPURequest_update (\<lambda>_. v) g)"
  "flags_in_range g \<Longrightarrow> flags_in_range (f_tbotMemRequest_update (\<lambda>_. v) g)"
  "flags_in_range g \<Longrightarrow> flags_in_range (f_tbotCPULimit_update (\<lambda>_. v) g)"
  "flags_in_range g \<Longrightarrow> flags_in_range (f_tbotMemLimit_update (\<lambda>_. v) g)"
  "flags_in_range g \<Longrightarrow> flags_in_range (f_tbotInsecure_update (\<lambda>_. b) g)"
  "flags_in_range g \<Longrightarrow> flags_in_range (f_teleportClusterName_update (\<lambda>_. v) g)"
  "flags_in_range g \<Longrightarrow> flags_in_range (f_teleportProxyAddr_update (\<lambda>_. v) g)"
  "flags_in_range g \<Longrightarrow> flags_in_range (f_ghostunnelImage_update (\<lambda>_. v) g)"
  "flags_in_range g \<Longrightarrow> flags_in_range (f_ghostunnelReloadInterval_update (\<lambda>_. v) g)"
  "flags_in_range g \<Longrightarrow> int64 i \<Longrightarrow> flags_in_range (f_ghostunnelListenPort_update (\<lambda>_. i) g)"
  "flags_in_range g \<Longrightarrow> flags_in_range (f_ghostunnelCPURequest_update (\<lambda>_. v) g)"
  "flags_in_range g \<Longrightarrow> flags_in_range (f_ghostunnelMemRequest_update (\<lambda>_. v) g)"
  "flags_in_range g \<Longrightarrow> flags_in_range (f_ghostunnelCPULimit_update (\<lambda>_. v) g)"
  "flags_in_range g \<Longrightarrow> flags_in_range (f_ghostunnelMemLimit_update (\<lambda>_. v) g)"
  "flags_in_range g \<Longrightarrow> flags_in_range (f_verifyTunnels_update (\<lambda>_. b) g)"
  "flags_in_range g \<Longrightarrow> int64 i \<Longrightarrow> flags_in_range (f_verifyInterval_update (\<lambda>_. i) g)"
  "flags_in_range g \<Longrightarrow> int64 i \<Longrightarrow> flags_in_range (f_verifyTimeout_update (\<lambda>_. i) g)"
  "flags_in_range g \<Longrightarrow> int64 i \<Longrightarrow> flags_in_range (f_verifyJitter_update (\<lambda>_. i) g)"
  "flags_in_range g \<Longrightarrow> int64 i \<Longrightarrow> flags_in_range (f_verifyConcurrency_update (\<lambda>_. i) g)"
  "flags_in_range g \<Longrightarrow> flags_in_range (f_verifyUpstream_update (\<lambda>_. b) g)"
  "flags_in_range g \<Longrightarrow> int64 i \<Longrightarrow> flags_in_range (f_verifyUpstreamTimeout_update (\<lambda>_. i) g)"
  "flags_in_range g \<Longrightarrow> flags_in_range (f_verifyTrustBundleFile_update (\<lambda>_. v) g)"
  "flags_in_range g \<Longrightarrow> flags_in_range (f_clusterDomain_update (\<lambda>_. v) g)"
  "flags_in_range g \<Longrightarrow> flags_in_range (f_metricsAddr_update (\<lambda>_. v) g)"
  "flags_in_range g \<Longrightarrow> flags_in_range (f_probeAddr_update (\<lambda>_. v) g)"
  "flags_in_range g \<Longrightarrow> flags_in_range (f_enableLeaderElection_update (\<lambda>_. b) g)"
  "flags_in_range g \<Longrightarrow> flags_in_range (f_secureMetrics_update (\<lambda>_. b) g)"
  "flags_in_range g \<Longrightarrow> flags_in_range (f_webhookCertPath_update (\<lambda>_. v) g)"
  "flags_in_range g \<Longrightarrow> flags_in_range (f_webhookCertName_update (\<lambda>_. v) g)"
  "flags_in_range g \<Longrightarrow> flags_in_range (f_webhookCertKey_update (\<lambda>_. v) g)"
  "flags_in_range g \<Longrightarrow> flags_in_range (f_metricsCertPath_update (\<lambda>_. v) g)"
  "flags_in_range g \<Longrightarrow> flags_in_range (f_metricsCertName_update (\<lambda>_. v) g)"
  "flags_in_range g \<Longrightarrow> flags_in_range (f_metricsCertKey_update (\<lambda>_. v) g)"
  "flags_in_range g \<Longrightarrow> flags_in_range (f_enableHTTP2_update (\<lambda>_. b) g)"
  by (simp_all add: flags_in_range_def)

text \<open>\<open>Set\<close> does what the kind of its flag says.\<close>

definition set_ok :: "string \<Rightarrow> flags formal_flag \<Rightarrow> kind \<Rightarrow> bool" where
  "set_ok n fl k \<longleftrightarrow>
     (\<forall>v g. case canonical k v of
        None \<Rightarrow> \<exists>e. fl_Set fl v g = Inl e
      | Some w \<Rightarrow> \<exists>h. fl_Set fl v g = Inr h \<and> flag_values h = put_value n w (flag_values g) \<and>
          (flags_in_range g \<longrightarrow> flags_in_range h))"

lemma set_ok_Some:
  assumes "set_ok n fl k" and "canonical k v = Some w"
  shows "\<exists>h. fl_Set fl v g = Inr h \<and> flag_values h = put_value n w (flag_values g) \<and>
    (flags_in_range g \<longrightarrow> flags_in_range h)"
  using assms(1) [unfolded set_ok_def, THEN spec, THEN spec, of v g] by (simp add: assms(2))

lemma set_ok_None:
  assumes "set_ok n fl k" and "canonical k v = None"
  shows "\<exists>e. fl_Set fl v g = Inl e"
  using assms(1) [unfolded set_ok_def, THEN spec, THEN spec, of v g] by (simp add: assms(2))

lemma set_ok_vars:
  "(\<And>v g. flag_values (su (\<lambda>_. v) g) = put_value n v (flag_values g)) \<Longrightarrow>
     (\<And>v g. flags_in_range g \<Longrightarrow> flags_in_range (su (\<lambda>_. v) g)) \<Longrightarrow> set_ok n (StringVar su) StringKind"
  "(\<And>b g. flag_values (bu (\<lambda>_. b) g) = put_value n (bool_text b) (flag_values g)) \<Longrightarrow>
     (\<And>v g. flags_in_range g \<Longrightarrow> flags_in_range (bu (\<lambda>_. v) g)) \<Longrightarrow> set_ok n (BoolVar bu) BoolKind"
  "(\<And>i g. flag_values (iu (\<lambda>_. i) g) = put_value n (itoa i) (flag_values g)) \<Longrightarrow>
     (\<And>v g. flags_in_range g \<Longrightarrow> int64 v \<Longrightarrow> flags_in_range (iu (\<lambda>_. v) g)) \<Longrightarrow> set_ok n (IntVar iu) IntKind"
  "(\<And>d g. flag_values (du (\<lambda>_. d) g) = put_value n (duration_string d) (flag_values g)) \<Longrightarrow>
     (\<And>v g. flags_in_range g \<Longrightarrow> int64 v \<Longrightarrow> flags_in_range (du (\<lambda>_. v) g)) \<Longrightarrow>
     set_ok n (DurationVar du) DurationKind"
  by (auto simp: set_ok_def canonical_def StringVar_def BoolVar_def IntVar_def DurationVar_def map_error_def
      int64_def dest: parse_int_range parse_duration_range split: sum.split option.split)

lemma own_flags_ok: "list_all2 (\<lambda>(n, fl) (m, k). n = m \<and> set_ok n fl k) own_flags flag_kinds"
  unfolding own_flags_def flag_kinds_def by (simp add: set_ok_vars flag_values_update flags_in_range_update)

lemma own_Set:
  assumes "map_of flag_kinds n = Some k"
  obtains fl where "map_of own_flags n = Some fl" "set_ok n fl k"
proof -
  have rel: "list_all2 (\<lambda>(n, fl) (m, k). n = m \<and> set_ok n fl k) xs ys \<Longrightarrow> map_of ys n = Some k \<Longrightarrow>
      \<exists>fl. map_of xs n = Some fl \<and> set_ok n fl k" for xs ys
    by (induction rule: list_all2_induct) (auto split: if_splits)
  from rel [OF own_flags_ok assms] show ?thesis using that by blast
qed


section \<open>Lemmas: settings\<close>

text \<open>The value a setting gives its flag: none when the flag or the value is not one of the program's.\<close>

definition setting_value :: "string \<times> string \<Rightarrow> string option" where
  "setting_value nv = Option.bind (map_of flag_kinds (fst nv)) (\<lambda>k. canonical k (snd nv))"

definition registered :: "(string \<times> 'l formal_flag) list \<Rightarrow> bool" where
  "registered libs \<longleftrightarrow> distinct (map fst (command_line libs))"

lemma command_line_own:
  fixes libs :: "(string \<times> 'l formal_flag) list"
  assumes "map_of flag_kinds n = Some k"
  obtains fl where "map_of (command_line libs) n = Some (on_fst fl)" "set_ok n fl k"
proof -
  obtain fl where fl: "map_of own_flags n = Some fl" "set_ok n fl k" using own_Set [OF assms] .
  have "map_of (map (\<lambda>(n, fl). (n, on_fst fl)) own_flags) n =
      Some (on_fst fl :: (flags \<times> 'l) formal_flag)"
    using fl(1) by (simp add: map_of_map)
  then have "map_of (command_line libs) n = Some (on_fst fl)"
    by (simp add: command_line_def map_add_Some_iff)
  with fl(2) show ?thesis by (rule that [rotated])
qed

lemma setting_name: "setting_value nv \<noteq> None \<Longrightarrow> flag_name (fst nv)"
proof -
  assume "setting_value nv \<noteq> None"
  then obtain k where "map_of flag_kinds (fst nv) = Some k" by (auto simp: setting_value_def bind_eq_Some_conv)
  then have "fst nv \<in> set (map fst flag_kinds)" by (force dest: map_of_SomeD)
  then show "flag_name (fst nv)" by (rule good_names)
qed

lemma apply_own:
  assumes "list_all (\<lambda>nv. setting_value nv \<noteq> None) nvs"
  shows "\<exists>h. apply_settings (command_line libs) nvs (g, l) = Inr (h, l) \<and>
    flag_values h = fold (\<lambda>nv. put_value (fst nv) (the (setting_value nv))) nvs (flag_values g) \<and>
    (flags_in_range g \<longrightarrow> flags_in_range h)"
  using assms
proof (induction nvs arbitrary: g)
  case (Cons nv nvs)
  obtain n v where nv: "nv = (n, v)" by (cases nv)
  obtain k w where k: "map_of flag_kinds n = Some k" "canonical k v = Some w"
    using Cons(2) by (auto simp: nv setting_value_def bind_eq_Some_conv)
  obtain fl where fl: "map_of (command_line libs) n = Some (on_fst fl)" "set_ok n fl k"
    using command_line_own [OF k(1)] .
  obtain g' where g': "fl_Set fl v g = Inr g'" "flag_values g' = put_value n w (flag_values g)"
      "flags_in_range g \<longrightarrow> flags_in_range g'"
    using set_ok_Some [OF fl(2) k(2), of g] by (elim exE conjE)
  have "setting_value nv = Some w" using k by (simp add: nv setting_value_def)
  then have "apply_settings (command_line libs) (nv # nvs) (g, l) =
      apply_settings (command_line libs) nvs (g', l)"
    "fold (\<lambda>nv. put_value (fst nv) (the (setting_value nv))) (nv # nvs) (flag_values g) =
      fold (\<lambda>nv. put_value (fst nv) (the (setting_value nv))) nvs (flag_values g')"
    using fl(1) g'(1,2) by (simp_all add: nv on_fst_def map_error_def)
  moreover have "list_all (\<lambda>nv. setting_value nv \<noteq> None) nvs" using Cons(2) by simp
  ultimately show ?case using Cons.IH [of g'] g'(3) by metis
qed simp

lemma parse_own:
  assumes "list_all (\<lambda>nv. setting_value nv \<noteq> None) nvs"
  shows "\<exists>h. (\<forall>args. parse_args (command_line libs) (map setting nvs @ args) (g, l) =
      parse_args (command_line libs) args (h, l)) \<and>
    flag_values h = fold (\<lambda>nv. put_value (fst nv) (the (setting_value nv))) nvs (flag_values g) \<and>
    (flags_in_range g \<longrightarrow> flags_in_range h)"
proof -
  obtain h where h: "apply_settings (command_line libs) nvs (g, l) = Inr (h, l)"
      "flag_values h = fold (\<lambda>nv. put_value (fst nv) (the (setting_value nv))) nvs (flag_values g)"
      "flags_in_range g \<longrightarrow> flags_in_range h"
    using apply_own [OF assms, of libs g l] by (elim exE conjE)
  have "list_all (flag_name \<circ> fst) nvs"
    using assms setting_name by (auto simp: list_all_iff)
  then have "parse_args (command_line libs) (map setting nvs @ args) (g, l) =
      parse_args (command_line libs) args (h, l)" for args
    by (rule parse_args_settings [OF h(1)])
  with h(2,3) show ?thesis by blast
qed

lemma map_of_put_value:
  "map_of (put_value m w xs) n = (if n = m then map_option (\<lambda>_. w) (map_of xs n) else map_of xs n)"
  by (induction xs) (auto simp: put_value_def)

lemma put_value_names [simp]: "map fst (put_value m w xs) = map fst xs"
  by (induction xs) (auto simp: put_value_def)

lemma map_of_fold_put:
  assumes "map_of xs n \<noteq> None" and "list_all (\<lambda>nv. setting_value nv \<noteq> None) nvs"
  shows "map_of (fold (\<lambda>nv. put_value (fst nv) (the (setting_value nv))) nvs xs) n =
    (case map_of (rev nvs) n of Some v \<Rightarrow> setting_value (n, v) | None \<Rightarrow> map_of xs n)"
  using assms
proof (induction nvs arbitrary: xs)
  case (Cons nv nvs)
  let ?xs = "put_value (fst nv) (the (setting_value nv)) xs"
  obtain x where x: "map_of xs n = Some x" using Cons(2) by blast
  have now: "map_of ?xs n = (if n = fst nv then setting_value nv else Some x)"
    using Cons(3) x by (auto simp: map_of_put_value)
  then have "map_of ?xs n \<noteq> None" using Cons(3) by auto
  from Cons.IH [OF this] Cons(3) now x show ?case
    by (cases nv) (auto simp: map_add_def split: option.split)
qed simp

text \<open>Settings of a flags value, read back.\<close>

lemma canonical_text:
  "canonical StringKind v = Some v" "canonical BoolKind (bool_text b) = Some (bool_text b)"
  "int64 i \<Longrightarrow> canonical IntKind (itoa i) = Some (itoa i)"
  "int64 d \<Longrightarrow> canonical DurationKind (duration_string d) = Some (duration_string d)"
  by (simp_all add: canonical_def bool_text_def int64_def parse_int_itoa parse_duration_string parse_bool_def)

lemma flag_values_canonical:
  assumes "flags_in_range f"
  shows "list_all2 (\<lambda>(n, x) (m, k). n = m \<and> canonical k x = Some x) (flag_values f) flag_kinds"
  unfolding flag_values_def flag_kinds_def
  using assms by (simp add: canonical_text flags_in_range_def)

lemma flag_values_settings:
  assumes "flags_in_range f" and "nv \<in> set (flag_values f)"
  shows "setting_value nv = Some (snd nv)"
proof -
  have rel: "list_all2 (\<lambda>(n, x) (m, k). n = m \<and> canonical k x = Some x) xs ys \<Longrightarrow> distinct (map fst ys) \<Longrightarrow>
      (n, x) \<in> set xs \<Longrightarrow> \<exists>k. map_of ys n = Some k \<and> canonical k x = Some x" for xs ys n x
    by (induction rule: list_all2_induct) (auto simp: rev_image_eqI dest: map_of_SomeD)
  from rel [OF flag_values_canonical [OF assms(1)] distinct_names, of "fst nv" "snd nv"] assms(2)
  show ?thesis by (auto simp: setting_value_def)
qed

lemma flag_values_inj:
  assumes "flag_values f = flag_values g" and "flags_in_range f" and "flags_in_range g"
  shows "f = g"
proof -
  have "duration_string d = duration_string d' \<Longrightarrow> int64 d \<Longrightarrow> int64 d' \<Longrightarrow> d = d'" for d d'
    unfolding int64_def by (metis parse_duration_string option.inject)
  moreover have "bool_text b = bool_text b' \<Longrightarrow> b = b'" for b b' by (simp add: bool_text_def split: if_splits)
  ultimately show ?thesis
    using assms by (cases f; cases g) (simp add: flag_values_def flags_in_range_def)
qed

lemma assoc_list_eqI:
  assumes "map fst xs = map fst ys" and "distinct (map fst xs)"
    and "\<And>n. n \<in> set (map fst xs) \<Longrightarrow> map_of xs n = map_of ys n"
  shows "xs = ys"
  using assms
proof (induction xs arbitrary: ys)
  case (Cons x xs)
  obtain y ys' where ys: "ys = y # ys'" "fst y = fst x" "map fst xs = map fst ys'" using Cons(2) by (cases ys) auto
  have "x = y" using Cons(4) [of "fst x"] ys by (cases x; cases y) simp
  moreover have "map_of xs n = map_of ys' n" if "n \<in> set (map fst xs)" for n
  proof -
    have "n \<noteq> fst x" using that Cons(3) by force
    with Cons(4) [of n] that ys show ?thesis by (cases x; cases y) simp
  qed
  ultimately show ?case using Cons.IH [OF ys(3)] Cons(3) ys(1) by simp
qed simp


section \<open>Properties\<close>

lemma value_of_flag:
  "map_of (flag_values f) n \<noteq> None \<longleftrightarrow> n \<in> set (map fst flag_kinds)"
  using arg_cong [OF value_names [of f], of set] by (simp add: map_of_eq_None_iff)

lemma defaults_in_range: "flags_in_range default_flags"
  by (simp add: flags_in_range_def default_flags_def int64_def DefaultVerifyInterval_def DefaultVerifyTimeout_def
      DefaultVerifyJitter_def DefaultVerifyConcurrency_def DefaultUpstreamProbeTimeout_def second_def minute_def)

lemma last_setting:
  assumes "registered libs" and "list_all (\<lambda>nv. setting_value nv \<noteq> None) nvs"
  shows "\<exists>h. parseFlags libs l (map setting nvs) = Some (Parsed (h, l) []) \<and> flags_in_range h \<and>
    (\<forall>n. n \<in> set (map fst flag_kinds) \<longrightarrow> map_of (flag_values h) n =
      (case map_of (rev nvs) n of
         Some v \<Rightarrow> setting_value (n, v) | None \<Rightarrow> map_of (flag_values default_flags) n))"
proof -
  obtain h where h: "\<forall>args. parse_args (command_line libs) (map setting nvs @ args) (default_flags, l) =
      parse_args (command_line libs) args (h, l)"
    "flag_values h = fold (\<lambda>nv. put_value (fst nv) (the (setting_value nv))) nvs (flag_values default_flags)"
    "flags_in_range default_flags \<longrightarrow> flags_in_range h"
    using parse_own [OF assms(2), of libs default_flags l] by (elim exE conjE)
  have "parseFlags libs l (map setting nvs) = Some (Parsed (h, l) [])"
    using assms(1) h(1) [rule_format, of "[]"] by (simp add: parseFlags_def registered_def)
  moreover have "map_of (flag_values h) n = (case map_of (rev nvs) n of
      Some v \<Rightarrow> setting_value (n, v) | None \<Rightarrow> map_of (flag_values default_flags) n)"
    if "n \<in> set (map fst flag_kinds)" for n
    unfolding h(2) using that by (intro map_of_fold_put [OF _ assms(2)]) (simp only: value_of_flag)
  ultimately show ?thesis using h(3) defaults_in_range by blast
qed

text \<open>What the command line says is what the program gets: when every argument is a setting
  \<open>--name=value\<close> of one of the program's flags with a value of its kind, parsing succeeds,
  and each flag has the value of its last setting, or its default when it has none.\<close>

theorem parseFlags_last_setting:
  assumes "registered libs" and "list_all (\<lambda>nv. setting_value nv \<noteq> None) nvs"
  shows "\<exists>h. parseFlags libs l (map setting nvs) = Some (Parsed (h, l) []) \<and> flags_in_range h \<and>
    (\<forall>n. n \<in> set (map fst flag_kinds) \<longrightarrow> map_of (flag_values h) n =
      (case map_of (rev nvs) n of
         Some v \<Rightarrow> setting_value (n, v) | None \<Rightarrow> map_of (flag_values default_flags) n))"
  by (rule last_setting [OF assms])

text \<open>C35. Flags survive the command line: the settings of all flags of a value, in any order and
  after any earlier settings, parse to that value.\<close>

theorem parseFlags_roundtrip:
  assumes "registered libs" and "flags_in_range f" and "mset nvs = mset (flag_values f)"
    and "list_all (\<lambda>nv. setting_value nv \<noteq> None) earlier"
  shows "parseFlags libs l (map setting (earlier @ nvs)) = Some (Parsed (f, l) [])"
proof -
  have set: "set nvs = set (flag_values f)" using assms(3) by (rule mset_eq_setD)
  have valid: "list_all (\<lambda>nv. setting_value nv \<noteq> None) (earlier @ nvs)"
    using assms(4) flag_values_settings [OF assms(2)] by (auto simp: list_all_iff set)
  obtain h where h: "parseFlags libs l (map setting (earlier @ nvs)) = Some (Parsed (h, l) [])" "flags_in_range h"
    "\<And>n. n \<in> set (map fst flag_kinds) \<Longrightarrow> map_of (flag_values h) n =
      (case map_of (rev (earlier @ nvs)) n of
         Some v \<Rightarrow> setting_value (n, v) | None \<Rightarrow> map_of (flag_values default_flags) n)"
    using last_setting [OF assms(1) valid, of l] by (elim exE conjE) blast
  have dist: "distinct (map fst (flag_values f))" by (simp only: value_names distinct_names)
  have "mset (map fst (rev nvs)) = mset (map fst (flag_values f))" using assms(3) by simp
  then have "distinct (map fst (rev nvs))" using dist by (metis mset_eq_imp_distinct_iff)
  then have rev: "map_of (rev nvs) = map_of (flag_values f)"
    using dist set by (subst map_of_inject_set) simp_all
  have "map_of (flag_values h) n = map_of (flag_values f) n" if n: "n \<in> set (map fst flag_kinds)" for n
  proof -
    obtain v where v: "map_of (flag_values f) n = Some v" using value_of_flag [of f n] n by blast
    then have "setting_value (n, v) = Some v" using flag_values_settings [OF assms(2) map_of_SomeD [OF v]] by simp
    with v h(3) [OF n] show ?thesis by (simp add: map_add_def rev)
  qed
  then have "flag_values h = flag_values f"
    by (intro assoc_list_eqI) (simp_all only: value_names distinct_names)
  then have "h = f" by (rule flag_values_inj [OF _ h(2) assms(2)])
  with h(1) show ?thesis by simp
qed

text \<open>C36. A command line that is wrong does not start the operator: after settings that are right, an
  argument that is malformed, names a flag nobody defined, or sets one of the program's flags
  to a text that is not a value of its kind ends the process with code 2 before anything is
  checked or wired, whatever follows. An argument that is not a flag, however, such as the
  value after a boolean flag written with a space, ends the parsing without an error: the
  arguments after it are ignored.\<close>

theorem run_main_rejects:
  assumes "registered libs" and "list_all (\<lambda>nv. setting_value nv \<noteq> None) nvs"
  shows "(parse_arg s = BadSyntax \<longrightarrow> run_main env libs l (map setting nvs @ s # args) = Exits 2) \<and>
    (\<forall>n val. parse_arg s = FlagArg n val \<and> n \<notin> set (map fst (command_line libs)) \<and> n \<notin> {''help'', ''h''} \<longrightarrow>
      run_main env libs l (map setting nvs @ s # args) = Exits 2) \<and>
    (\<forall>n v. n \<in> set (map fst flag_kinds) \<and> setting_value (n, v) = None \<longrightarrow>
      run_main env libs l (map setting nvs @ setting (n, v) # args) = Exits 2) \<and>
    (parse_arg s = Operand \<longrightarrow>
      run_main env libs l (map setting nvs @ s # args) = run_main env libs l (map setting nvs))"
proof -
  obtain h where h: "\<forall>args. parse_args (command_line libs) (map setting nvs @ args) (default_flags, l) =
      parse_args (command_line libs) args (h, l)"
    using parse_own [OF assms(2), of libs default_flags l] by blast
  have run: "run_main env libs l (map setting nvs @ args) =
      (case parse_args (command_line libs) args (h, l) of
         ExitHelp \<Rightarrow> Exits 0 | ExitUsage e \<Rightarrow> Exits 2
       | Parsed (f, _) _ \<Rightarrow> (case main_program env f of Inl msg \<Rightarrow> Exits 1 | Inr w \<Rightarrow> Finished w))" for args
    using assms(1) h by (simp add: run_main_def parseFlags_def registered_def)
  have "run_main env libs l (map setting nvs @ setting (n, v) # args) = Exits 2"
    if n: "n \<in> set (map fst flag_kinds)" "setting_value (n, v) = None" for n v
  proof -
    obtain k where k: "map_of flag_kinds n = Some k" using n(1) by (metis map_of_eq_None_iff list.set_map not_None_eq)
    then have none: "canonical k v = None" using n(2) by (simp add: setting_value_def)
    obtain fl where fl: "map_of (command_line libs) n = Some (on_fst fl)" "set_ok n fl k"
      using command_line_own [OF k] .
    obtain e where "fl_Set fl v h = Inl e" using set_ok_None [OF fl(2) none] by blast
    with fl(1) show ?thesis
      by (simp add: run parse_arg_setting [OF good_names [OF n(1)]] on_fst_def map_error_def)
  qed
  moreover have "run_main env libs l (map setting nvs @ s # args) = Exits 2"
    if "parse_arg s = FlagArg n val" "n \<notin> set (map fst (command_line libs))" "n \<notin> {''help'', ''h''}" for n val
  proof -
    have "map_of (command_line libs) n = None" using that(2) by (simp add: map_of_eq_None_iff)
    with that(1,3) show ?thesis by (simp add: run)
  qed
  moreover have "parse_arg s = Operand \<longrightarrow>
      run_main env libs l (map setting nvs @ s # args) = run_main env libs l (map setting nvs)"
    using run [of "s # args"] run [of "[]"] by simp
  moreover have "parse_arg s = BadSyntax \<longrightarrow> run_main env libs l (map setting nvs @ s # args) = Exits 2"
    using run [of "s # args"] by simp
  ultimately show ?thesis by blast
qed

lemma registered_alone: "registered ([] :: (string \<times> unit formal_flag) list)"
proof -
  have "map fst (command_line ([] :: (string \<times> unit formal_flag) list)) = map fst flag_kinds"
    unfolding own_names [symmetric] by (simp add: command_line_def comp_def case_prod_unfold)
  then show ?thesis by (simp only: registered_def distinct_names)
qed

theorem parseFlags_last_setting_witness:
  "\<exists>h. parseFlags ([] :: (string \<times> unit formal_flag) list) ()
       [''--leader-elect=t'', ''--verify-concurrency=0x10'', ''--leader-elect=false''] = Some (Parsed (h, ()) []) \<and>
     map_of (flag_values h) ''leader-elect'' = Some ''false'' \<and>
     map_of (flag_values h) ''verify-concurrency'' = Some ''16'' \<and>
     map_of (flag_values h) ''webhook-cert-name'' = Some ''tls.crt''"
proof -
  let ?nvs = "[(''leader-elect'', ''t''), (''verify-concurrency'', ''0x10''), (''leader-elect'', ''false'')]"
  have vals: "setting_value (''leader-elect'', ''t'') = Some ''true''"
    "setting_value (''verify-concurrency'', ''0x10'') = Some ''16''"
    "setting_value (''leader-elect'', ''false'') = Some ''false''"
    by code_simp+
  then have ok: "list_all (\<lambda>nv. setting_value nv \<noteq> None) ?nvs" by simp
  have args: "map setting ?nvs = [''--leader-elect=t'', ''--verify-concurrency=0x10'', ''--leader-elect=false'']"
    by (simp add: setting_def)
  have names: "''leader-elect'' \<in> set (map fst flag_kinds)" "''verify-concurrency'' \<in> set (map fst flag_kinds)"
    "''webhook-cert-name'' \<in> set (map fst flag_kinds)"
    by code_simp+
  have default: "map_of (flag_values default_flags) ''webhook-cert-name'' = Some ''tls.crt''"
    by (simp add: flag_values_def default_flags_def)
  obtain h where h: "parseFlags [] () (map setting ?nvs) = Some (Parsed (h, ()) [])"
    "\<forall>n. n \<in> set (map fst flag_kinds) \<longrightarrow> map_of (flag_values h) n = (case map_of (rev ?nvs) n of
       Some v \<Rightarrow> setting_value (n, v) | None \<Rightarrow> map_of (flag_values default_flags) n)"
    using parseFlags_last_setting [OF registered_alone ok, of "()"] by (elim exE conjE)
  note look = h(2) [THEN spec, THEN mp]
  from h(1) look [OF names(1)] look [OF names(2)] look [OF names(3)] show ?thesis
    unfolding args by (intro exI [of _ h]) (simp add: vals default)
qed

theorem parseFlags_roundtrip_witness:
  "parseFlags ([] :: (string \<times> unit formal_flag) list) ()
     (map setting ((''metrics-secure'', ''0'') # rev (flag_values example_flags))) =
   Some (Parsed (example_flags, ()) [])"
proof -
  have "flags_in_range example_flags"
    using defaults_in_range by (simp add: example_flags_def flags_in_range_update)
  moreover have "setting_value (''metrics-secure'', ''0'') = Some ''false''" by code_simp
  ultimately show ?thesis
    using parseFlags_roundtrip [OF registered_alone, of example_flags "rev (flag_values example_flags)"
        "[(''metrics-secure'', ''0'')]" "()"] by simp
qed

theorem run_main_rejects_witness:
  "run_main example_main_env ([] :: (string \<times> unit formal_flag) list) ()
     [''--leader-elect=true'', ''--verify-interval=1x'', ''-h''] = Exits 2 \<and>
   run_main example_main_env ([] :: (string \<times> unit formal_flag) list) ()
     [''--leader-elect=true'', ''false'', ''--verify-interval=1x''] =
   run_main example_main_env ([] :: (string \<times> unit formal_flag) list) () [''--leader-elect=true'']"
proof -
  let ?nvs = "[(''leader-elect'', ''true'')]"
  have "setting_value (''leader-elect'', ''true'') = Some ''true''" by code_simp
  then have ok: "list_all (\<lambda>nv. setting_value nv \<noteq> None) ?nvs" by simp
  have args: "map setting ?nvs = [''--leader-elect=true'']" "setting (''verify-interval'', ''1x'') = ''--verify-interval=1x''"
    by (simp_all add: setting_def)
  have bad: "''verify-interval'' \<in> set (map fst flag_kinds)" "setting_value (''verify-interval'', ''1x'') = None"
    by code_simp+
  have operand: "parse_arg ''false'' = Operand" by (simp add: parse_arg_def)
  note rejects = run_main_rejects [OF registered_alone ok, of _ example_main_env "()"]
  have "run_main example_main_env ([] :: (string \<times> unit formal_flag) list) ()
      (map setting ?nvs @ setting (''verify-interval'', ''1x'') # [''-h'']) = Exits 2"
    using rejects bad by blast
  moreover have "run_main example_main_env ([] :: (string \<times> unit formal_flag) list) ()
      (map setting ?nvs @ ''false'' # [''--verify-interval=1x'']) = run_main example_main_env [] () (map setting ?nvs)"
    using rejects operand by blast
  ultimately show ?thesis unfolding args by simp
qed

end
