(* ===== verification/Memory.thy ===== *)
theory Memory
  imports Controller
begin

text \<open>
  Memory and sharing: the deep copies of \<open>zz_generated.deepcopy.go\<close>, and the status pass on
  objects whose slices, maps and pointers live in a memory.

  The other theories take objects as values. Here an object is a struct with addresses:
  \<open>status_of\<close>, \<open>spec_of\<close> and \<open>app_of\<close> are the values it shows. Memory is a list of cells that
  only grows, so a fresh address is one beyond its length; a slice of conditions is an
  address and a length, its cell an array that may be longer (its capacity). The helpers of
  apimachinery that change a condition slice in place, and the growth of \<open>append\<close>, are a
  parameter with the law that they write nothing but the slice's own array and fresh cells
  (locale \<open>condition_memory\<close>). The RemoteApp of a pass is itself a cell, which the status
  pass is given by its address: it assigns the new status through it, and a patch that
  succeeds decodes the server's answer into it. The decoder is a parameter too, with the law
  that it writes the object and the cells of the object only (locale \<open>answer_decoder\<close>); it may
  overwrite the conditions the new status shares with the object.

  The lemmas show that the copies show what their originals show and share nothing with
  them, that \<open>statusEqual\<close> and \<open>computeStatus\<close> write no cell that existed before, and that
  the status pass does what the pass on values does although it overwrites its input and the
  new status and the patched object share their conditions.
\<close>

section \<open>Cells and objects\<close>

record spec_ref =
  xp_AppName :: string
  xp_Port :: int
  xp_TokenName :: string
  xp_Replicas :: "nat option"
  xp_NodeSelector :: "nat option"
  xp_Tolerations :: "nat option"
  xp_Affinity :: "nat option"
  xp_Probe :: "nat option"

type_synonym slice = "(nat \<times> nat) option"

record status_ref =
  xt_Ready :: bool
  xt_LastError :: string
  xt_ObservedGeneration :: int
  xt_Conditions :: slice

text \<open>The object metadata is copied by apimachinery and stays a value.\<close>

record app_ref =
  xa_Namespace :: string
  xa_Name :: string
  xa_UID :: string
  xa_Generation :: int
  xa_DeletionTimestamp :: "go_time option"
  xa_Spec :: spec_ref
  xa_Status :: status_ref

datatype cell =
    IntCell int
  | MapCell "(string, string) go_map"
  | TolerationsCell "api_value list"
  | AffinityCell affinity
  | ProbeCell probe_spec
  | ConditionsCell "condition list"
  | AppsCell "app_ref list"
  | AppCell app_ref

type_synonym memory = "cell list"

definition alloc :: "cell \<Rightarrow> memory \<Rightarrow> nat \<times> memory" where
  "alloc c m = (length m, m @ [c])"

text \<open>Reading through a pointer; a well-formed object never reads a cell of the wrong kind.\<close>

fun as_int :: "cell \<Rightarrow> int" where "as_int (IntCell n) = n" | "as_int _ = 0"
fun as_map :: "cell \<Rightarrow> (string, string) go_map" where "as_map (MapCell x) = x" | "as_map _ = []"
fun as_tolerations :: "cell \<Rightarrow> api_value list" where "as_tolerations (TolerationsCell x) = x" | "as_tolerations _ = []"
fun as_affinity :: "cell \<Rightarrow> affinity option" where "as_affinity (AffinityCell x) = Some x" | "as_affinity _ = None"
fun as_probe :: "cell \<Rightarrow> probe_spec option" where "as_probe (ProbeCell x) = Some x" | "as_probe _ = None"
fun as_conditions :: "cell \<Rightarrow> condition list" where "as_conditions (ConditionsCell x) = x" | "as_conditions _ = []"
fun as_apps :: "cell \<Rightarrow> app_ref list" where "as_apps (AppsCell x) = x" | "as_apps _ = []"



definition slice_view :: "memory \<Rightarrow> slice \<Rightarrow> condition list" where
  "slice_view m s = (case s of None \<Rightarrow> [] | Some (a, n) \<Rightarrow> take n (as_conditions (m ! a)))"

definition status_of :: "memory \<Rightarrow> status_ref \<Rightarrow> remote_app_status" where
  "status_of m x =
     \<lparr>st_Ready = xt_Ready x, st_LastError = xt_LastError x,
      st_ObservedGeneration = xt_ObservedGeneration x, st_Conditions = slice_view m (xt_Conditions x)\<rparr>"

definition deref :: "memory \<Rightarrow> nat option \<Rightarrow> cell option" where
  "deref m p = map_option (\<lambda>a. m ! a) p"

definition spec_of :: "memory \<Rightarrow> spec_ref \<Rightarrow> remote_app_spec" where
  "spec_of m x =
     \<lparr>spec_AppName = xp_AppName x, spec_Port = xp_Port x, spec_TokenName = xp_TokenName x,
      spec_Replicas = map_option as_int (deref m (xp_Replicas x)),
      spec_NodeSelector = (case deref m (xp_NodeSelector x) of None \<Rightarrow> [] | Some c \<Rightarrow> as_map c),
      spec_Tolerations = (case deref m (xp_Tolerations x) of None \<Rightarrow> [] | Some c \<Rightarrow> as_tolerations c),
      spec_Affinity = Option.bind (deref m (xp_Affinity x)) as_affinity,
      spec_Probe = Option.bind (deref m (xp_Probe x)) as_probe\<rparr>"

definition app_of :: "memory \<Rightarrow> app_ref \<Rightarrow> remote_app" where
  "app_of m x =
     \<lparr>ra_Namespace = xa_Namespace x, ra_Name = xa_Name x, ra_UID = xa_UID x,
      ra_Generation = xa_Generation x, ra_DeletionTimestamp = xa_DeletionTimestamp x,
      ra_Spec = spec_of m (xa_Spec x), ra_Status = status_of m (xa_Status x)\<rparr>"

text \<open>The addresses an object reads.\<close>

definition slice_addrs :: "slice \<Rightarrow> nat set" where
  "slice_addrs s = fst ` set_option s"

definition spec_addrs :: "spec_ref \<Rightarrow> nat set" where
  "spec_addrs x =
     set_option (xp_Replicas x) \<union> set_option (xp_NodeSelector x) \<union> set_option (xp_Tolerations x) \<union>
     set_option (xp_Affinity x) \<union> set_option (xp_Probe x)"

definition app_addrs :: "app_ref \<Rightarrow> nat set" where
  "app_addrs x = spec_addrs (xa_Spec x) \<union> slice_addrs (xt_Conditions (xa_Status x))"

text \<open>A slice is no longer than its array.\<close>

definition slice_ok :: "memory \<Rightarrow> slice \<Rightarrow> bool" where
  "slice_ok m s \<longleftrightarrow>
     (case s of
        None \<Rightarrow> True
      | Some (a, n) \<Rightarrow>
          a < length m \<and> (case m ! a of ConditionsCell xs \<Rightarrow> n \<le> length xs | _ \<Rightarrow> False))"

definition app_ok :: "memory \<Rightarrow> app_ref \<Rightarrow> bool" where
  "app_ok m x \<longleftrightarrow> (\<forall>a \<in> app_addrs x. a < length m) \<and> slice_ok m (xt_Conditions (xa_Status x))"





section \<open>Deep copies\<close>

text \<open>
  A pointer field: nil, or a new cell with the contents of the old one. The elements of maps
  and slices and the affinity are opaque values, which their own deep copies keep.
\<close>

definition copy_ptr :: "nat option \<Rightarrow> memory \<Rightarrow> nat option \<times> memory" where
  "copy_ptr p m =
     (case p of None \<Rightarrow> (None, m) | Some a \<Rightarrow> (case alloc (m ! a) m of (b, m') \<Rightarrow> (Some b, m')))"

definition RemoteAppSpec_DeepCopyInto :: "spec_ref \<Rightarrow> memory \<Rightarrow> spec_ref \<times> memory" where
  "RemoteAppSpec_DeepCopyInto x m0 =
     (let (replicas, m1) = copy_ptr (xp_Replicas x) m0;
          (nodeSelector, m2) = copy_ptr (xp_NodeSelector x) m1;
          (tolerations, m3) = copy_ptr (xp_Tolerations x) m2;
          (affinity, m4) = copy_ptr (xp_Affinity x) m3;
          (probe, m5) = copy_ptr (xp_Probe x) m4
      in (x\<lparr>xp_Replicas := replicas, xp_NodeSelector := nodeSelector, xp_Tolerations := tolerations,
            xp_Affinity := affinity, xp_Probe := probe\<rparr>, m5))"

text \<open>\<open>make\<close> and the loop over the conditions: an array of exactly the length of the slice.\<close>

definition RemoteAppStatus_DeepCopyInto :: "status_ref \<Rightarrow> memory \<Rightarrow> status_ref \<times> memory" where
  "RemoteAppStatus_DeepCopyInto x m =
     (case xt_Conditions x of
        None \<Rightarrow> (x, m)
      | Some (a, n) \<Rightarrow>
          (case alloc (ConditionsCell (slice_view m (Some (a, n)))) m of
             (b, m') \<Rightarrow> (x\<lparr>xt_Conditions := Some (b, n)\<rparr>, m')))"

definition RemoteApp_DeepCopyInto :: "app_ref \<Rightarrow> memory \<Rightarrow> app_ref \<times> memory" where
  "RemoteApp_DeepCopyInto x m0 =
     (let (spec, m1) = RemoteAppSpec_DeepCopyInto (xa_Spec x) m0;
          (status, m2) = RemoteAppStatus_DeepCopyInto (xa_Status x) m1
      in (x\<lparr>xa_Spec := spec, xa_Status := status\<rparr>, m2))"

fun copy_apps :: "app_ref list \<Rightarrow> memory \<Rightarrow> app_ref list \<times> memory" where
  "copy_apps [] m = ([], m)"
| "copy_apps (x # xs) m =
     (let (y, m') = RemoteApp_DeepCopyInto x m; (ys, m'') = copy_apps xs m' in (y # ys, m''))"

text \<open>The items of a \<open>RemoteAppList\<close>.\<close>

definition RemoteAppList_DeepCopyInto :: "nat option \<Rightarrow> memory \<Rightarrow> nat option \<times> memory" where
  "RemoteAppList_DeepCopyInto items m =
     (case items of
        None \<Rightarrow> (None, m)
      | Some a \<Rightarrow>
          (let (ys, m') = copy_apps (as_apps (m ! a)) m; (b, m'') = alloc (AppsCell ys) m'
           in (Some b, m'')))"

text \<open>The \<open>DeepCopy\<close> methods: nil for a nil receiver.\<close>

definition deep_copy :: "('x \<Rightarrow> memory \<Rightarrow> 'x \<times> memory) \<Rightarrow> 'x option \<Rightarrow> memory \<Rightarrow> 'x option \<times> memory" where
  "deep_copy into x m =
     (case x of None \<Rightarrow> (None, m) | Some y \<Rightarrow> (case into y m of (z, m') \<Rightarrow> (Some z, m')))"

text \<open>A \<open>ProbeSpec\<close> has no pointers.\<close>

definition ProbeSpec_DeepCopyInto :: "probe_spec \<Rightarrow> memory \<Rightarrow> probe_spec \<times> memory" where
  "ProbeSpec_DeepCopyInto x m = (x, m)"

definition ProbeSpec_DeepCopy :: "probe_spec option \<Rightarrow> memory \<Rightarrow> probe_spec option \<times> memory" where
  "ProbeSpec_DeepCopy = deep_copy ProbeSpec_DeepCopyInto"

definition RemoteAppSpec_DeepCopy :: "spec_ref option \<Rightarrow> memory \<Rightarrow> spec_ref option \<times> memory" where
  "RemoteAppSpec_DeepCopy = deep_copy RemoteAppSpec_DeepCopyInto"

definition RemoteAppList_DeepCopy :: "nat option option \<Rightarrow> memory \<Rightarrow> nat option option \<times> memory" where
  "RemoteAppList_DeepCopy = deep_copy RemoteAppList_DeepCopyInto"


definition RemoteApp_DeepCopy :: "app_ref option \<Rightarrow> memory \<Rightarrow> app_ref option \<times> memory" where
  "RemoteApp_DeepCopy = deep_copy RemoteApp_DeepCopyInto"

text \<open>\<open>DeepCopyObject\<close> of the two root kinds: a nil copy becomes a nil interface.\<close>

definition RemoteApp_DeepCopyObject :: "app_ref option \<Rightarrow> memory \<Rightarrow> app_ref option \<times> memory" where
  "RemoteApp_DeepCopyObject x m = (case RemoteApp_DeepCopy x m of (Some c, m') \<Rightarrow> (Some c, m') | (None, m') \<Rightarrow> (None, m'))"

definition RemoteAppList_DeepCopyObject :: "nat option option \<Rightarrow> memory \<Rightarrow> nat option option \<times> memory" where
  "RemoteAppList_DeepCopyObject x m =
     (case RemoteAppList_DeepCopy x m of (Some c, m') \<Rightarrow> (Some c, m') | (None, m') \<Rightarrow> (None, m'))"


section \<open>The status pass in memory\<close>











section \<open>Lemmas: what is written\<close>

text \<open>The cells below \<open>n\<close> are as they were.\<close>

definition keeps :: "nat \<Rightarrow> memory \<Rightarrow> memory \<Rightarrow> bool" where
  "keeps n m m' \<longleftrightarrow> n \<le> length m \<and> length m \<le> length m' \<and> take n m' = take n m"

lemma keeps_nth: "keeps n m m' \<Longrightarrow> a < n \<Longrightarrow> m' ! a = m ! a"
  unfolding keeps_def by (metis nth_take)


lemma keeps_trans: "keeps n m m' \<Longrightarrow> keeps n m' m'' \<Longrightarrow> keeps n m m''"
  by (simp add: keeps_def)

lemma keeps_append: "n \<le> length m \<Longrightarrow> keeps n m (m @ ext)"
  by (simp add: keeps_def)


lemma keeps_le: "keeps n m m' \<Longrightarrow> k \<le> n \<Longrightarrow> keeps k m m'"
  unfolding keeps_def by (metis (no_types, lifting) le_trans min.absorb2 min.commute take_take)

lemma deref_cong: "keeps n m m' \<Longrightarrow> \<forall>a \<in> set_option p. a < n \<Longrightarrow> deref m' p = deref m p"
  by (cases p) (auto simp: deref_def keeps_nth)

lemma slice_view_cong: "keeps n m m' \<Longrightarrow> \<forall>a \<in> slice_addrs s. a < n \<Longrightarrow> slice_view m' s = slice_view m s"
  by (cases s) (auto simp: slice_view_def slice_addrs_def keeps_nth)

lemma slice_ok_cong: "keeps n m m' \<Longrightarrow> \<forall>a \<in> slice_addrs s. a < n \<Longrightarrow> slice_ok m s \<Longrightarrow> slice_ok m' s"
proof -
  assume k: "keeps n m m'" and below: "\<forall>a \<in> slice_addrs s. a < n" and ok: "slice_ok m s"
  have len: "n \<le> length m'" using k by (simp add: keeps_def)
  show "slice_ok m' s"
  proof (cases s)
    case (Some p)
    then obtain a l where p: "s = Some (a, l)" by (cases p) auto
    then have "a < n" using below by (simp add: slice_addrs_def)
    then have "m' ! a = m ! a" "a < length m'" using keeps_nth [OF k] len by auto
    with ok p show ?thesis by (simp add: slice_ok_def)
  qed (simp add: slice_ok_def)
qed

lemma spec_of_cong: "keeps n m m' \<Longrightarrow> \<forall>a \<in> spec_addrs x. a < n \<Longrightarrow> spec_of m' x = spec_of m x"
  by (simp add: spec_of_def spec_addrs_def ball_Un deref_cong)

lemma status_of_cong:
  "keeps n m m' \<Longrightarrow> \<forall>a \<in> slice_addrs (xt_Conditions x). a < n \<Longrightarrow> status_of m' x = status_of m x"
  by (simp add: status_of_def slice_view_cong)

lemma app_of_cong: "keeps n m m' \<Longrightarrow> \<forall>a \<in> app_addrs x. a < n \<Longrightarrow> app_of m' x = app_of m x"
  by (simp add: app_of_def app_addrs_def ball_Un spec_of_cong status_of_cong)


section \<open>Lemmas: deep copies\<close>

text \<open>A copy: memory is extended, and the addresses of the copy are new.\<close>

definition copied :: "memory \<Rightarrow> nat option \<Rightarrow> memory \<Rightarrow> nat option \<Rightarrow> bool" where
  "copied m p m' q \<longleftrightarrow>
     keeps (length m) m m' \<and> deref m' q = deref m p \<and> (\<forall>a \<in> set_option q. length m \<le> a \<and> a < length m')"

lemma keeps_chain: "keeps (length m) m m' \<Longrightarrow> keeps (length m') m' m'' \<Longrightarrow> keeps (length m) m m''"
  using keeps_le [of "length m'" m' m'' "length m"] keeps_trans by (auto simp: keeps_def)

lemma copied_later: "copied m p m' q \<Longrightarrow> keeps (length m') m' m'' \<Longrightarrow> copied m p m'' q"
  unfolding copied_def
  using keeps_chain [of m m' m''] deref_cong [of "length m'" m' m'' q] by (fastforce simp: keeps_def)

lemma copy_ptr_copied:
  assumes "copy_ptr p m1 = (q, m2)" and "keeps (length m) m m1" and "\<forall>a \<in> set_option p. a < length m"
  shows "copied m p m2 q" "keeps (length m1) m1 m2"
proof -
  show k: "keeps (length m1) m1 m2" using assms(1) by (cases p) (auto simp: copy_ptr_def alloc_def keeps_def)
  have "deref m2 q = deref m1 p" "\<forall>a \<in> set_option q. length m1 \<le> a \<and> a < length m2"
    using assms(1) by (cases p; auto simp: copy_ptr_def alloc_def deref_def)+
  moreover have "deref m1 p = deref m p" by (rule deref_cong [OF assms(2,3)])
  moreover have "length m \<le> length m1" using assms(2) by (simp add: keeps_def)
  ultimately show "copied m p m2 q"
    using keeps_chain [OF assms(2) k] by (auto simp: copied_def)
qed

lemma copy_spec:
  assumes "RemoteAppSpec_DeepCopyInto x m = (y, m')" and "\<forall>a \<in> spec_addrs x. a < length m"
  shows "keeps (length m) m m' \<and> spec_of m' y = spec_of m x \<and> (\<forall>a \<in> spec_addrs y. length m \<le> a \<and> a < length m')"
proof -
  obtain q1 m1 where 1: "copy_ptr (xp_Replicas x) m = (q1, m1)" by fastforce
  obtain q2 m2 where 2: "copy_ptr (xp_NodeSelector x) m1 = (q2, m2)" by fastforce
  obtain q3 m3 where 3: "copy_ptr (xp_Tolerations x) m2 = (q3, m3)" by fastforce
  obtain q4 m4 where 4: "copy_ptr (xp_Affinity x) m3 = (q4, m4)" by fastforce
  obtain q5 m5 where 5: "copy_ptr (xp_Probe x) m4 = (q5, m5)" by fastforce
  have y: "y = x\<lparr>xp_Replicas := q1, xp_NodeSelector := q2, xp_Tolerations := q3, xp_Affinity := q4, xp_Probe := q5\<rparr>"
    "m' = m5" using assms(1) by (auto simp: RemoteAppSpec_DeepCopyInto_def 1 2 3 4 5)
  have below: "\<forall>a \<in> set_option p. a < length m" if "set_option p \<subseteq> spec_addrs x" for p using assms(2) that by auto
  have sub: "set_option (xp_Replicas x) \<subseteq> spec_addrs x" "set_option (xp_NodeSelector x) \<subseteq> spec_addrs x"
    "set_option (xp_Tolerations x) \<subseteq> spec_addrs x" "set_option (xp_Affinity x) \<subseteq> spec_addrs x"
    "set_option (xp_Probe x) \<subseteq> spec_addrs x" by (auto simp: spec_addrs_def)
  have k0: "keeps (length m) m m" by (simp add: keeps_def)
  note c1 = copy_ptr_copied [OF 1 k0 below [OF sub(1)]]
  note c2 = copy_ptr_copied [OF 2 c1(2) below [OF sub(2)]]
  note k2 = keeps_chain [OF c1(2) c2(2)]
  note c3 = copy_ptr_copied [OF 3 k2 below [OF sub(3)]]
  note k3 = keeps_chain [OF k2 c3(2)]
  note c4 = copy_ptr_copied [OF 4 k3 below [OF sub(4)]]
  note k4 = keeps_chain [OF k3 c4(2)]
  note c5 = copy_ptr_copied [OF 5 k4 below [OF sub(5)]]
  note t3 = keeps_chain [OF c4(2) c5(2)]
  note t2 = keeps_chain [OF c3(2) t3]
  note t1 = keeps_chain [OF c2(2) t2]
  have "copied m (xp_Replicas x) m5 q1" "copied m (xp_NodeSelector x) m5 q2" "copied m (xp_Tolerations x) m5 q3"
    "copied m (xp_Affinity x) m5 q4" "copied m (xp_Probe x) m5 q5"
    using copied_later [OF c1(1) t1] copied_later [OF c2(1) t2] copied_later [OF c3(1) t3]
      copied_later [OF c4(1) c5(2)] c5(1) by blast+
  then show ?thesis by (simp add: y copied_def spec_of_def spec_addrs_def ball_Un)
qed

text \<open>What is true of the copy of a status: its slice is as long as its array.\<close>

lemma copy_status:
  assumes "RemoteAppStatus_DeepCopyInto x m = (y, m')" and "slice_ok m (xt_Conditions x)"
  shows "keeps (length m) m m' \<and> status_of m' y = status_of m x \<and> slice_ok m' (xt_Conditions y) \<and>
    (\<forall>a \<in> slice_addrs (xt_Conditions y). length m \<le> a \<and> a < length m')"
proof (cases "xt_Conditions x")
  case None
  with assms show ?thesis
    by (auto simp: RemoteAppStatus_DeepCopyInto_def slice_addrs_def keeps_def)
next
  case (Some p)
  then obtain a n where p: "xt_Conditions x = Some (a, n)" by (cases p) auto
  then obtain xs where xs: "m ! a = ConditionsCell xs" "n \<le> length xs"
    using assms(2) by (auto simp: slice_ok_def split: cell.splits)
  have y: "y = x\<lparr>xt_Conditions := Some (length m, n)\<rparr>" "m' = m @ [ConditionsCell (take n xs)]"
    using assms(1) by (auto simp: RemoteAppStatus_DeepCopyInto_def p alloc_def slice_view_def xs(1))
  show ?thesis
    using xs by (simp add: y p status_of_def slice_view_def slice_ok_def slice_addrs_def keeps_def)
qed

lemma copy_app:
  assumes "RemoteApp_DeepCopyInto x m = (y, m')" and "app_ok m x"
  shows "keeps (length m) m m' \<and> app_of m' y = app_of m x \<and> app_ok m' y \<and> (\<forall>a \<in> app_addrs y. length m \<le> a)"
proof -
  obtain sp m1 where 1: "RemoteAppSpec_DeepCopyInto (xa_Spec x) m = (sp, m1)" by fastforce
  obtain st m2 where 2: "RemoteAppStatus_DeepCopyInto (xa_Status x) m1 = (st, m2)" by fastforce
  have y: "y = x\<lparr>xa_Spec := sp, xa_Status := st\<rparr>" "m' = m2"
    using assms(1) by (auto simp: RemoteApp_DeepCopyInto_def 1 2)
  have below: "\<forall>a \<in> spec_addrs (xa_Spec x). a < length m" "\<forall>a \<in> slice_addrs (xt_Conditions (xa_Status x)). a < length m"
    and ok: "slice_ok m (xt_Conditions (xa_Status x))"
    using assms(2) by (auto simp: app_ok_def app_addrs_def)
  have c1: "keeps (length m) m m1" "spec_of m1 sp = spec_of m (xa_Spec x)"
    "\<forall>a \<in> spec_addrs sp. length m \<le> a \<and> a < length m1" using copy_spec [OF 1 below(1)] by blast+
  have c2: "keeps (length m1) m1 m2" "status_of m2 st = status_of m1 (xa_Status x)" "slice_ok m2 (xt_Conditions st)"
    "\<forall>a \<in> slice_addrs (xt_Conditions st). length m1 \<le> a \<and> a < length m2"
    using copy_status [OF 2 slice_ok_cong [OF c1(1) below(2) ok]] by blast+
  have le: "length m \<le> length m1" "length m1 \<le> length m2" using c1(1) c2(1) by (auto simp: keeps_def)
  have "spec_of m2 sp = spec_of m (xa_Spec x)" "status_of m2 st = status_of m (xa_Status x)"
    using spec_of_cong [OF c2(1), of sp] c1(2,3) c2(2) status_of_cong [OF c1(1) below(2)] by auto
  then show ?thesis
    using keeps_chain [OF c1(1) c2(1)] c1(3) c2(3,4) le
    by (fastforce simp: y app_of_def app_ok_def app_addrs_def)
qed

text \<open>The items of a list are copied one after the other.\<close>

lemma app_ok_cong: "keeps n m m' \<Longrightarrow> \<forall>a \<in> app_addrs x. a < n \<Longrightarrow> app_ok m x \<Longrightarrow> app_ok m' x"
proof -
  assume k: "keeps n m m'" and below: "\<forall>a \<in> app_addrs x. a < n" and ok: "app_ok m x"
  have "n \<le> length m'" using k by (simp add: keeps_def)
  moreover have "slice_ok m' (xt_Conditions (xa_Status x))"
    using below ok by (intro slice_ok_cong [OF k]) (auto simp: app_addrs_def app_ok_def)
  ultimately show "app_ok m' x" using below by (auto simp: app_ok_def)
qed

lemma copy_apps_spec:
  assumes "copy_apps xs m = (ys, m')" and "\<forall>x \<in> set xs. app_ok m x"
  shows "keeps (length m) m m' \<and> map (app_of m') ys = map (app_of m) xs \<and>
    (\<forall>y \<in> set ys. app_ok m' y \<and> (\<forall>a \<in> app_addrs y. length m \<le> a))"
  using assms
proof (induction xs arbitrary: m ys)
  case (Cons x xs)
  obtain y m1 where 1: "RemoteApp_DeepCopyInto x m = (y, m1)" by fastforce
  obtain zs m2 where 2: "copy_apps xs m1 = (zs, m2)" by fastforce
  have ys: "ys = y # zs" "m' = m2" using Cons(2) by (auto simp: 1 2)
  have c: "keeps (length m) m m1" "app_of m1 y = app_of m x" "app_ok m1 y" "\<forall>a \<in> app_addrs y. length m \<le> a"
    using copy_app [OF 1] Cons(3) by auto
  have old: "app_of m1 x' = app_of m x'" "app_ok m1 x'" if "x' \<in> set xs" for x'
  proof -
    have "\<forall>a \<in> app_addrs x'. a < length m" "app_ok m x'" using Cons(3) that by (auto simp: app_ok_def)
    then show "app_of m1 x' = app_of m x'" "app_ok m1 x'" using app_of_cong [OF c(1)] app_ok_cong [OF c(1)] by auto
  qed
  have IH: "keeps (length m1) m1 m2" "map (app_of m2) zs = map (app_of m1) xs"
    "\<forall>z \<in> set zs. app_ok m2 z \<and> (\<forall>a \<in> app_addrs z. length m1 \<le> a)"
    using Cons.IH [of m1 zs] 2 old(2) by (auto simp: ys(2))
  have below: "\<forall>a \<in> app_addrs y. a < length m1" using c(3) by (auto simp: app_ok_def)
  have "app_of m2 y = app_of m x" "app_ok m2 y"
    using app_of_cong [OF IH(1) below] app_ok_cong [OF IH(1) below c(3)] c(2) by auto
  moreover have "map (app_of m1) xs = map (app_of m) xs" using old(1) by simp
  moreover have "length m \<le> length m1" using c(1) by (simp add: keeps_def)
  ultimately show ?case
    using keeps_chain [OF c(1) IH(1)] IH(2,3) c(4) by (fastforce simp: ys)
qed (auto simp: keeps_def)

lemma copy_list:
  assumes "RemoteAppList_DeepCopyInto (Some a) m = (q, m')" and "\<forall>x \<in> set (as_apps (m ! a)). app_ok m x"
  shows "\<exists>b. q = Some b \<and> length m \<le> b \<and> keeps (length m) m m' \<and>
    map (app_of m') (as_apps (m' ! b)) = map (app_of m) (as_apps (m ! a)) \<and>
    (\<forall>y \<in> set (as_apps (m' ! b)). \<forall>c \<in> app_addrs y. length m \<le> c)"
proof -
  obtain ys m1 where 1: "copy_apps (as_apps (m ! a)) m = (ys, m1)" by fastforce
  have c: "keeps (length m) m m1" "map (app_of m1) ys = map (app_of m) (as_apps (m ! a))"
    "\<forall>y \<in> set ys. app_ok m1 y \<and> (\<forall>c \<in> app_addrs y. length m \<le> c)"
    using copy_apps_spec [OF 1 assms(2)] by blast+
  have res: "q = Some (length m1)" "m' = m1 @ [AppsCell ys]"
    using assms(1) by (auto simp: RemoteAppList_DeepCopyInto_def 1 alloc_def)
  have k: "keeps (length m1) m1 m'" by (simp add: res(2) keeps_def)
  have "app_of m' y = app_of m1 y" if "y \<in> set ys" for y
    using c(3) that by (intro app_of_cong [OF k]) (auto simp: app_ok_def)
  then have "map (app_of m') ys = map (app_of m) (as_apps (m ! a))" using c(2) by (metis map_eq_conv)
  moreover have "length m \<le> length m1" using c(1) by (simp add: keeps_def)
  ultimately show ?thesis using keeps_chain [OF c(1) k] c(3) by (auto simp: res)
qed


section \<open>Lemmas: writing conditions\<close>






section \<open>Lemmas: conditions in memory\<close>










section \<open>Lemmas: the pass\<close>

lemma app_of_update: "a \<notin> app_addrs z \<Longrightarrow> app_of (m[a := v]) z = app_of m z"
proof -
  assume a: "a \<notin> app_addrs z"
  have "deref (m[a := v]) p = deref m p" if "a \<notin> set_option p" for p
    using that by (cases p) (auto simp: deref_def)
  then have "spec_of (m[a := v]) (xa_Spec z) = spec_of m (xa_Spec z)"
    using a by (simp add: spec_of_def app_addrs_def spec_addrs_def)
  moreover have "slice_view (m[a := v]) (xt_Conditions (xa_Status z)) = slice_view m (xt_Conditions (xa_Status z))"
    using a by (cases "xt_Conditions (xa_Status z)") (auto simp: slice_view_def app_addrs_def slice_addrs_def)
  ultimately show ?thesis by (simp add: app_of_def status_of_def)
qed















section \<open>Properties\<close>

text \<open>C19. A deep copy shows what its original shows and shares nothing with it: whatever is stored at an
  address of the one leaves the other as it was.\<close>

theorem deep_copy_independent:
  assumes "app_ok m x" and "RemoteApp_DeepCopyInto x m = (y, m')"
  shows "app_of m' y = app_of m x \<and> app_of m' x = app_of m x \<and> app_addrs x \<inter> app_addrs y = {} \<and>
    (\<forall>a c. a \<in> app_addrs y \<longrightarrow> app_of (m'[a := c]) x = app_of m x) \<and>
    (\<forall>a c. a \<in> app_addrs x \<longrightarrow> app_of (m'[a := c]) y = app_of m x)"
proof -
  have below: "\<forall>a \<in> app_addrs x. a < length m" using assms(1) by (simp add: app_ok_def)
  have c: "keeps (length m) m m'" "app_of m' y = app_of m x" "app_ok m' y" "\<forall>a \<in> app_addrs y. length m \<le> a"
    using copy_app [OF assms(2,1)] by blast+
  have x: "app_of m' x = app_of m x" by (rule app_of_cong [OF c(1) below])
  have disj: "app_addrs x \<inter> app_addrs y = {}" using below c(4) by fastforce
  have upd: "app_of (m'[a := v]) z = app_of m' z" if "a \<notin> app_addrs z" for a v z
    using that by (rule app_of_update)
  show ?thesis using c(2) x disj upd by (metis disjoint_iff)
qed


text \<open>An object with a replica count and one condition.\<close>

definition example_memory :: memory where
  "example_memory =
     [IntCell 2,
      ConditionsCell [\<lparr>cond_type = ConditionTypeUpstreamReachable, cond_status = ConditionTrue,
        cond_observedGeneration = 2, cond_lastTransitionTime = 5, cond_reason = reasonUpstreamReachable,
        cond_message = ''''\<rparr>]]"

definition example_ref :: app_ref where
  "example_ref =
     \<lparr>xa_Namespace = ''mcp'', xa_Name = ''kube'', xa_UID = ''u1'', xa_Generation = 3, xa_DeletionTimestamp = None,
      xa_Spec = \<lparr>xp_AppName = ''kube-app'', xp_Port = 8080, xp_TokenName = ''tok'', xp_Replicas = Some 0,
        xp_NodeSelector = None, xp_Tolerations = None, xp_Affinity = None, xp_Probe = None\<rparr>,
      xa_Status = \<lparr>xt_Ready = True, xt_LastError = '''', xt_ObservedGeneration = 2,
        xt_Conditions = Some (1, 1)\<rparr>\<rparr>"

lemma example_ref_ok: "app_ok example_memory example_ref"
  by (simp add: app_ok_def app_addrs_def spec_addrs_def slice_addrs_def slice_ok_def example_memory_def example_ref_def)

theorem deep_copy_independent_witness:
  "\<exists>y m'. RemoteApp_DeepCopyInto example_ref example_memory = (y, m') \<and> length m' = 4 \<and>
     spec_Replicas (ra_Spec (app_of (m'[2 := IntCell 9]) y)) = Some 9 \<and>
     spec_Replicas (ra_Spec (app_of (m'[2 := IntCell 9]) example_ref)) = Some 2"
proof -
  obtain y m' where copy: "RemoteApp_DeepCopyInto example_ref example_memory = (y, m')" by fastforce
  then have y: "xp_Replicas (xa_Spec y) = Some 2" "length m' = 4"
    by (auto simp: RemoteApp_DeepCopyInto_def RemoteAppSpec_DeepCopyInto_def RemoteAppStatus_DeepCopyInto_def
        copy_ptr_def alloc_def example_ref_def example_memory_def)
  then have "2 \<in> app_addrs y" by (simp add: app_addrs_def spec_addrs_def)
  with deep_copy_independent [OF example_ref_ok copy]
  have "app_of (m'[2 := IntCell 9]) example_ref = app_of example_memory example_ref" by blast
  moreover have "spec_Replicas (ra_Spec (app_of example_memory example_ref)) = Some 2"
    by (simp add: app_of_def spec_of_def deref_def example_ref_def example_memory_def)
  moreover have "spec_Replicas (ra_Spec (app_of (m'[2 := IntCell 9]) y)) = Some 9"
    using y by (simp add: app_of_def spec_of_def deref_def)
  ultimately show ?thesis using copy y(2) by metis
qed



end
