(* ===== verification/PackageInit.thy ===== *)
theory PackageInit
  imports Prelude
begin

text \<open>
  The order in which a Go program initialises its packages, as the language defines it: the
  packages are sorted by import path, and again and again the first one that is not yet
  initialised and whose imports all are is initialised. A package's initialisation assigns
  its variables, then runs its \<open>init\<close> functions; here it is a function on the program's
  global variables, and \<open>None\<close> is a panic.

  The locale \<open>import_ranked\<close> is what the compiler promises of a linked program: its packages
  have distinct paths and no import cycle. Its lemmas say that the order exists, holds every
  package once, and puts every package after its imports.
\<close>

section \<open>Definitions\<close>

record 'g go_package =
  pk_path :: string
  pk_imports :: "string list"
  pk_init :: "'g \<Rightarrow> 'g option"

definition imports_done :: "string list \<Rightarrow> 'g go_package \<Rightarrow> bool" where
  "imports_done inits p \<longleftrightarrow> list_all (\<lambda>i. i \<in> set inits) (pk_imports p)"

definition other_packages :: "'g go_package \<Rightarrow> 'g go_package list \<Rightarrow> 'g go_package list" where
  "other_packages p ps = filter (\<lambda>q. pk_path q \<noteq> pk_path p) ps"

lemma other_packages_shorter:
  "find (imports_done inits) ps = Some p \<Longrightarrow> length (other_packages p ps) < length ps"
  unfolding other_packages_def by (rule length_filter_less [of p]) (auto simp: find_Some_iff)

text \<open>The order, as a list of packages; \<open>None\<close> is an import cycle.\<close>

function init_order :: "string list \<Rightarrow> 'g go_package list \<Rightarrow> 'g go_package list option" where
  "init_order inits ps =
     (case find (imports_done inits) ps of
        None \<Rightarrow> (case ps of [] \<Rightarrow> Some [] | _ \<Rightarrow> None)
      | Some p \<Rightarrow> map_option (Cons p) (init_order (pk_path p # inits) (other_packages p ps)))"
  by pat_completeness auto
termination by (relation "measure (length \<circ> snd)") (simp_all add: other_packages_shorter)

declare init_order.simps [simp del]

fun run_inits :: "'g go_package list \<Rightarrow> 'g \<Rightarrow> 'g option" where
  "run_inits [] g = Some g"
| "run_inits (p # ps) g = (case pk_init p g of None \<Rightarrow> None | Some g' \<Rightarrow> run_inits ps g')"

definition initialize :: "'g go_package list \<Rightarrow> 'g \<Rightarrow> 'g option" where
  "initialize ps g =
     (case init_order [] (sort_key pk_path ps) of None \<Rightarrow> None | Some qs \<Rightarrow> run_inits qs g)"


section \<open>The order\<close>

lemma init_order_cases:
  assumes "init_order inits ps = Some qs"
  obtains (empty) "ps = []" "qs = []"
  | (first) p rest where "find (imports_done inits) ps = Some p" "qs = p # rest"
      "init_order (pk_path p # inits) (other_packages p ps) = Some rest"
  using assms by (subst (asm) init_order.simps) (auto split: option.splits list.splits)

lemma init_order_imports:
  assumes "init_order inits ps = Some (xs @ p # ys)"
  shows "set (pk_imports p) \<subseteq> set inits \<union> pk_path ` set xs"
  using assms
proof (induction inits ps arbitrary: xs rule: init_order.induct)
  case (1 inits ps)
  from "1.prems" show ?case
  proof (cases rule: init_order_cases)
    case (first q rest)
    show ?thesis
    proof (cases xs)
      case Nil
      with first have "imports_done inits p" by (auto simp: find_Some_iff)
      then show ?thesis by (auto simp: imports_done_def list_all_iff)
    next
      case (Cons x zs)
      with first show ?thesis using "1.IH" [OF first(1), of zs] by auto
    qed
  qed simp
qed

lemma distinct_paths_remove:
  assumes "distinct (map pk_path ps)" and "p \<in> set ps"
  shows "mset ps = add_mset p (mset (other_packages p ps))"
proof -
  have "filter (\<lambda>q. pk_path q = pk_path p) ps = [p]"
    using assms by (induction ps) (auto simp: filter_empty_conv image_iff)
  then have "filter_mset (\<lambda>q. pk_path q = pk_path p) (mset ps) = {#p#}"
    by (metis mset_filter mset_single_iff_right)
  moreover have "mset ps = filter_mset (\<lambda>q. pk_path q = pk_path p) (mset ps) +
      filter_mset (\<lambda>q. pk_path q \<noteq> pk_path p) (mset ps)"
    by (rule multiset_partition)
  ultimately show ?thesis by (simp add: other_packages_def)
qed

lemma init_order_mset:
  assumes "init_order inits ps = Some qs" and "distinct (map pk_path ps)"
  shows "mset qs = mset ps"
  using assms
proof (induction inits ps arbitrary: qs rule: init_order.induct)
  case (1 inits ps)
  from "1.prems"(1) show ?case
  proof (cases rule: init_order_cases)
    case (first p rest)
    have "p \<in> set ps" using first(1) by (auto simp: find_Some_iff)
    then have "mset ps = add_mset p (mset (other_packages p ps))"
      by (rule distinct_paths_remove [OF "1.prems"(2)])
    moreover have "mset rest = mset (other_packages p ps)"
      using "1.IH" [OF first(1,3)] "1.prems"(2) by (simp add: other_packages_def distinct_map_filter)
    ultimately show ?thesis by (simp add: first(2))
  qed simp
qed

text \<open>The list the linker starts from does not matter.\<close>

lemma sort_packages_unique:
  assumes "distinct (map pk_path qs)" and "mset ps = mset qs"
  shows "sort_key pk_path ps = sort_key pk_path qs"
proof (rule map_sorted_distinct_set_unique [where f = pk_path])
  have same: "set ps = set qs" using assms(2) by (rule mset_eq_setD)
  from assms(1) show "inj_on pk_path (set (sort_key pk_path ps) \<union> set (sort_key pk_path qs))"
    by (simp add: same distinct_map)
  have "mset (map pk_path ps) = mset (map pk_path qs)" using assms(2) by simp
  with assms(1) have "distinct (map pk_path ps)" by (metis mset_eq_imp_distinct_iff)
  then show "distinct (map pk_path (sort_key pk_path ps))" by (simp add: distinct_map)
  show "distinct (map pk_path (sort_key pk_path qs))" using assms(1) by (simp add: distinct_map)
qed (use assms(2) in \<open>auto dest: mset_eq_setD\<close>)

lemma initialize_unique:
  "distinct (map pk_path qs) \<Longrightarrow> mset ps = mset qs \<Longrightarrow> initialize ps g = initialize qs g"
  by (simp add: initialize_def sort_packages_unique [of qs ps])


section \<open>Programs without import cycles\<close>

locale import_ranked =
  fixes ps :: "'g go_package list" and rank :: "string \<Rightarrow> nat"
  assumes distinct_paths: "distinct (map pk_path ps)"
    and lower: "p \<in> set ps \<Longrightarrow> i \<in> set (pk_imports p) \<Longrightarrow> i \<in> pk_path ` set ps \<and> rank i < rank (pk_path p)"
begin

lemma lowest_ready:
  assumes "qs \<noteq> []" and "set qs \<subseteq> set ps" and "pk_path ` set ps \<subseteq> set inits \<union> pk_path ` set qs"
  shows "find (imports_done inits) qs \<noteq> None"
proof -
  have "finite (set qs)" "set qs \<noteq> {}" using assms(1) by simp_all
  from ex_min_if_finite [of "(rank \<circ> pk_path) ` set qs"] this
  obtain p where p: "p \<in> set qs" "\<forall>q \<in> set qs. \<not> rank (pk_path q) < rank (pk_path p)" by auto
  have "i \<in> set inits" if i: "i \<in> set (pk_imports p)" for i
  proof -
    have "p \<in> set ps" using p(1) assms(2) by blast
    from lower [OF this i] have "i \<in> pk_path ` set ps" "i \<notin> pk_path ` set qs" using p(2) by auto
    then show ?thesis using assms(3) by blast
  qed
  then have "imports_done inits p" by (simp add: imports_done_def list_all_iff)
  with p(1) show ?thesis by (auto simp: find_None_iff)
qed

lemma order_exists:
  assumes "set qs \<subseteq> set ps" and "pk_path ` set ps \<subseteq> set inits \<union> pk_path ` set qs"
  shows "\<exists>ord. init_order inits qs = Some ord"
  using assms
proof (induction inits qs rule: init_order.induct)
  case (1 inits qs)
  show ?case
  proof (cases "find (imports_done inits) qs")
    case None
    with "1.prems" lowest_ready [of qs inits] have "qs = []" by blast
    then show ?thesis by (simp add: init_order.simps)
  next
    case (Some p)
    have "\<exists>ord. init_order (pk_path p # inits) (other_packages p qs) = Some ord"
      by (rule "1.IH" [OF Some]) (use "1.prems" in \<open>auto simp: other_packages_def\<close>)
    with Some show ?thesis by (auto simp: init_order.simps [of inits qs])
  qed
qed

lemma initialization_order:
  "\<exists>ord. init_order [] (sort_key pk_path ps) = Some ord \<and> mset ord = mset ps \<and>
    (\<forall>xs p ys. ord = xs @ p # ys \<longrightarrow> set (pk_imports p) \<subseteq> pk_path ` set xs)"
proof -
  obtain ord where ord: "init_order [] (sort_key pk_path ps) = Some ord"
    using order_exists [of "sort_key pk_path ps" "[]"] by auto
  moreover have "mset ord = mset (sort_key pk_path ps)"
    by (rule init_order_mset [OF ord]) (use distinct_paths in \<open>simp add: distinct_map\<close>)
  ultimately show ?thesis using init_order_imports [of "[]"] by fastforce
qed

end

end
