(* ===== verification/Scheme.thy ===== *)
theory Scheme
  imports PackageInit Controller
begin

text \<open>
  What happens before \<open>main\<close>: the group and version of the API (\<open>groupversion_info.go\<close>), the
  registration of its types (\<open>remoteapp_types.go\<close>), the renderer's private scheme
  (\<open>render.go\<close>) and the manager's scheme (\<open>main.go\<close>), in the order in which Go initialises the
  packages.

  The package variables are a record that starts as Go's zero values. \<open>SchemeBuilder\<close> is a
  pointer, and \<open>AddToScheme\<close> a method value bound to that pointer, so both are an index into
  the builders allocated so far. Schemes and builders are apimachinery's, so their operations
  are the record \<open>scheme_ops\<close>; a panic is \<open>None\<close>. The locale \<open>scheme_machinery\<close> states the
  documented behaviour the operator relies on, and \<open>owner_machinery\<close> that of the two
  functions of controller-runtime that read a scheme.
\<close>

section \<open>Schemes\<close>

text \<open>A Go type, by its package and name; a kind carries the name.\<close>

datatype go_type = GoType (ty_package: string) (ty_name: string)

record group_version =
  gv_Group :: string
  gv_Version :: string

record group_version_kind =
  gvk_Group :: string
  gvk_Version :: string
  gvk_Kind :: string

record ('s, 'b) scheme_ops =
  so_NewScheme :: 's
  so_clientgo_AddToScheme :: "'s \<Rightarrow> ('s \<times> go_error option) option"
  so_AddKnownTypes :: "'s \<Rightarrow> group_version \<Rightarrow> go_type list \<Rightarrow> 's option"
  so_AddToGroupVersion :: "'s \<Rightarrow> group_version \<Rightarrow> 's option"
  so_ObjectKinds :: "'s \<Rightarrow> go_type \<Rightarrow> group_version_kind list"
  so_NewBuilder :: 'b
  so_Register :: "'b \<Rightarrow> ('s \<Rightarrow> ('s \<times> go_error option) option) \<Rightarrow> 'b"
  so_AddToScheme :: "'b \<Rightarrow> 's \<Rightarrow> ('s \<times> go_error option) option"
  so_SetControllerReference :: "remote_app \<Rightarrow> k8s_object \<Rightarrow> 's \<Rightarrow> go_error + k8s_object"
  so_OwnerRequests :: "'s \<Rightarrow> go_type \<Rightarrow> k8s_object \<Rightarrow> namespaced_name list"

text \<open>The package variables this component assigns.\<close>

record ('s, 'b) globals =
  gl_builders :: "'b list"
  gl_SchemeBuilder :: "nat option"
  gl_AddToScheme :: "nat option"
  gl_renderScheme :: "'s option"
  gl_scheme :: "'s option"

definition zero_globals :: "('s, 'b) globals" where
  "zero_globals =
     \<lparr>gl_builders = [], gl_SchemeBuilder = None, gl_AddToScheme = None, gl_renderScheme = None,
      gl_scheme = None\<rparr>"


section \<open>The API package\<close>

definition api_path :: string where
  "api_path = ''github.com/giantswarm/tunnelport/api/v1alpha1''"

definition SchemeGroupVersion :: group_version where
  "SchemeGroupVersion = \<lparr>gv_Group = ''access.giantswarm.io'', gv_Version = ''v1alpha1''\<rparr>"

definition GroupVersion :: group_version where
  "GroupVersion = SchemeGroupVersion"

definition RemoteAppType :: go_type where "RemoteAppType = GoType api_path ''RemoteApp''"

definition RemoteAppListType :: go_type where "RemoteAppListType = GoType api_path ''RemoteAppList''"

text \<open>\<open>SchemeBuilder\<close> points to a new builder; \<open>AddToScheme\<close> is bound to the same pointer.\<close>

definition api_vars :: "('s, 'b) scheme_ops \<Rightarrow> ('s, 'b) globals \<Rightarrow> ('s, 'b) globals" where
  "api_vars ops g =
     (let addr = length (gl_builders g) in
      g\<lparr>gl_builders := gl_builders g @ [so_NewBuilder ops], gl_SchemeBuilder := Some addr,
        gl_AddToScheme := Some addr\<rparr>)"

text \<open>The function \<open>init\<close> registers, and \<open>init\<close> itself.\<close>

definition register_types :: "('s, 'b) scheme_ops \<Rightarrow> 's \<Rightarrow> ('s \<times> go_error option) option" where
  "register_types ops scheme =
     (case so_AddKnownTypes ops scheme GroupVersion [RemoteAppType, RemoteAppListType] of
        None \<Rightarrow> None
      | Some scheme' \<Rightarrow>
          (case so_AddToGroupVersion ops scheme' GroupVersion of
             None \<Rightarrow> None | Some scheme'' \<Rightarrow> Some (scheme'', None)))"

definition api_init :: "('s, 'b) scheme_ops \<Rightarrow> ('s, 'b) globals \<Rightarrow> ('s, 'b) globals option" where
  "api_init ops g =
     (case gl_SchemeBuilder g of
        None \<Rightarrow> None
      | Some addr \<Rightarrow>
          Some (g\<lparr>gl_builders := (gl_builders g)
            [addr := so_Register ops (gl_builders g ! addr) (register_types ops)]\<rparr>))"

text \<open>A call of the package variable \<open>AddToScheme\<close>: the builder as it is at the call.\<close>

definition AddToScheme ::
  "('s, 'b) scheme_ops \<Rightarrow> ('s, 'b) globals \<Rightarrow> 's \<Rightarrow> ('s \<times> go_error option) option" where
  "AddToScheme ops g s =
     (case gl_AddToScheme g of
        None \<Rightarrow> None | Some addr \<Rightarrow> so_AddToScheme ops (gl_builders g ! addr) s)"


section \<open>The renderer's and the manager's scheme\<close>

definition renderScheme_var ::
  "('s, 'b) scheme_ops \<Rightarrow> ('s, 'b) globals \<Rightarrow> ('s, 'b) globals option" where
  "renderScheme_var ops g =
     (case so_clientgo_AddToScheme ops (so_NewScheme ops) of
        None \<Rightarrow> None
      | Some (s, _) \<Rightarrow>
          (case AddToScheme ops g s of
             None \<Rightarrow> None | Some (s', _) \<Rightarrow> Some (g\<lparr>gl_renderScheme := Some s'\<rparr>)))"

definition scheme_var :: "('s, 'b) scheme_ops \<Rightarrow> ('s, 'b) globals \<Rightarrow> ('s, 'b) globals" where
  "scheme_var ops g = g\<lparr>gl_scheme := Some (so_NewScheme ops)\<rparr>"

text \<open>\<open>utilruntime.Must\<close> panics on an error.\<close>

definition must :: "('s \<times> go_error option) option \<Rightarrow> 's option" where
  "must r = (case r of Some (s, None) \<Rightarrow> Some s | _ \<Rightarrow> None)"

definition main_init :: "('s, 'b) scheme_ops \<Rightarrow> ('s, 'b) globals \<Rightarrow> ('s, 'b) globals option" where
  "main_init ops g =
     (case gl_scheme g of
        None \<Rightarrow> None
      | Some s \<Rightarrow>
          (case must (so_clientgo_AddToScheme ops s) of
             None \<Rightarrow> None
           | Some s' \<Rightarrow>
               (case must (AddToScheme ops g s') of
                  None \<Rightarrow> None | Some s'' \<Rightarrow> Some (g\<lparr>gl_scheme := Some s''\<rparr>))))"


section \<open>The program\<close>

definition main_path :: string where "main_path = ''github.com/giantswarm/tunnelport''"

definition remoteapp_path :: string where
  "remoteapp_path = ''github.com/giantswarm/tunnelport/internal/controller/remoteapp''"

text \<open>The packages of the repository, with the imports among them.\<close>

definition program :: "('s, 'b) scheme_ops \<Rightarrow> ('s, 'b) globals go_package list" where
  "program ops =
     [\<lparr>pk_path = main_path, pk_imports = [api_path, remoteapp_path],
       pk_init = (\<lambda>g. main_init ops (scheme_var ops g))\<rparr>,
      \<lparr>pk_path = api_path, pk_imports = [], pk_init = (\<lambda>g. api_init ops (api_vars ops g))\<rparr>,
      \<lparr>pk_path = remoteapp_path, pk_imports = [api_path], pk_init = renderScheme_var ops\<rparr>]"

lemmas path_defs = main_path_def api_path_def remoteapp_path_def

fun program_rank :: "string \<Rightarrow> nat" where
  "program_rank p = (if p = api_path then 0 else if p = remoteapp_path then 1 else 2)"

interpretation linked: import_ranked "program ops" program_rank
  by unfold_locales (auto simp: program_def path_defs)

lemma program_sorted: "sort_key pk_path (program ops) = program ops"
  by (simp add: program_def path_defs)

lemma program_order:
  "init_order [] (program ops) = Some [program ops ! 1, program ops ! 2, program ops ! 0]"
  by (simp add: program_def init_order.simps imports_done_def other_packages_def path_defs)



section \<open>What the operator relies on\<close>

definition kind_of :: "group_version \<Rightarrow> go_type \<Rightarrow> group_version_kind" where
  "kind_of gv t = \<lparr>gvk_Group = gv_Group gv, gvk_Version = gv_Version gv, gvk_Kind = ty_name t\<rparr>"

definition of_group_version :: "group_version \<Rightarrow> group_version_kind \<Rightarrow> bool" where
  "of_group_version gv k \<longleftrightarrow> gvk_Group k = gv_Group gv \<and> gvk_Version k = gv_Version gv"

definition meta_kinds :: "string list" where
  "meta_kinds = [''WatchEvent'', ''ListOptions'', ''GetOptions'', ''DeleteOptions'', ''CreateOptions'',
     ''UpdateOptions'', ''PatchOptions'']"

definition gvk_apiVersion :: "group_version_kind \<Rightarrow> string" where
  "gvk_apiVersion k = (if gvk_Group k = '''' then gvk_Version k else gvk_Group k @ ''/'' @ gvk_Version k)"

definition reference_of :: "group_version_kind \<Rightarrow> remote_app \<Rightarrow> owner_reference" where
  "reference_of k = reference_to (gvk_apiVersion k) (gvk_Kind k)"

text \<open>A scheme under which each type of the API has exactly one kind, the API's own.\<close>

definition knows_api :: "('s, 'b) scheme_ops \<Rightarrow> 's \<Rightarrow> bool" where
  "knows_api ops s \<longleftrightarrow>
     so_ObjectKinds ops s RemoteAppType = [kind_of GroupVersion RemoteAppType] \<and>
     so_ObjectKinds ops s RemoteAppListType = [kind_of GroupVersion RemoteAppListType]"

text \<open>
  A new scheme knows no type. A builder runs its functions in order until one fails. Types
  can be added to a group and version that has none yet, each under the kind of its name;
  the meta types can be added where their kinds are free, and change nothing for the types
  of the API package; nor does client-go, which registers nothing in the operator's group.
\<close>

locale scheme_machinery =
  fixes ops :: "('s, 'b) scheme_ops"
  assumes new_kinds: "so_ObjectKinds ops (so_NewScheme ops) t = []"
    and builder_new: "so_AddToScheme ops (so_NewBuilder ops) s = Some (s, None)"
    and builder_register: "so_AddToScheme ops (so_Register ops b f) s =
      (case so_AddToScheme ops b s of Some (s', None) \<Rightarrow> f s' | r \<Rightarrow> r)"
    and known_types: "gv_Version gv \<noteq> '''' \<Longrightarrow> distinct (map ty_name ts) \<Longrightarrow>
      (\<And>t k. k \<in> set (so_ObjectKinds ops s t) \<Longrightarrow> \<not> of_group_version gv k) \<Longrightarrow>
      \<exists>s'. so_AddKnownTypes ops s gv ts = Some s' \<and>
        (\<forall>t. so_ObjectKinds ops s' t = so_ObjectKinds ops s t @ (if t \<in> set ts then [kind_of gv t] else []))"
    and meta_types: "gv_Version gv \<noteq> '''' \<Longrightarrow>
      (\<And>t k. k \<in> set (so_ObjectKinds ops s t) \<Longrightarrow> of_group_version gv k \<Longrightarrow> gvk_Kind k \<notin> set meta_kinds) \<Longrightarrow>
      \<exists>s'. so_AddToGroupVersion ops s gv = Some s' \<and>
        (\<forall>t. ty_package t = api_path \<longrightarrow> so_ObjectKinds ops s' t = so_ObjectKinds ops s t)"
    and clientgo_types: "so_clientgo_AddToScheme ops s = Some (s', e) \<Longrightarrow> ty_package t = api_path \<Longrightarrow>
      so_ObjectKinds ops s' t = so_ObjectKinds ops s t"
    and clientgo_group: "so_clientgo_AddToScheme ops s = Some (s', e) \<Longrightarrow>
      k \<in> set (so_ObjectKinds ops s' t) \<Longrightarrow>
      k \<in> set (so_ObjectKinds ops s t) \<or> gvk_Group k \<noteq> gv_Group SchemeGroupVersion"
begin

lemma register_after_clientgo:
  assumes "so_clientgo_AddToScheme ops (so_NewScheme ops) = Some (s, e)"
  shows "\<exists>s'. register_types ops s = Some (s', None) \<and> knows_api ops s'"
proof -
  let ?ts = "[RemoteAppType, RemoteAppListType]"
  have free: "\<not> of_group_version GroupVersion k" if "k \<in> set (so_ObjectKinds ops s t)" for t k
    using clientgo_group [OF assms that]
    by (auto simp: new_kinds of_group_version_def GroupVersion_def)
  have none: "so_ObjectKinds ops s t = []" if "ty_package t = api_path" for t
    using clientgo_types [OF assms that] by (simp add: new_kinds)
  obtain s1 where s1: "so_AddKnownTypes ops s GroupVersion ?ts = Some s1"
    and kinds: "\<And>t. so_ObjectKinds ops s1 t =
      so_ObjectKinds ops s t @ (if t \<in> set ?ts then [kind_of GroupVersion t] else [])"
    using known_types [of GroupVersion ?ts s] free
    by (auto simp: RemoteAppType_def RemoteAppListType_def GroupVersion_def SchemeGroupVersion_def)
  have unmeta: "gvk_Kind k \<notin> set meta_kinds"
    if "k \<in> set (so_ObjectKinds ops s1 t)" "of_group_version GroupVersion k" for t k
    using that free [of k t]
    by (auto simp: kinds kind_of_def RemoteAppType_def RemoteAppListType_def meta_kinds_def split: if_splits)
  have "\<exists>s2. so_AddToGroupVersion ops s1 GroupVersion = Some s2 \<and>
      (\<forall>t. ty_package t = api_path \<longrightarrow> so_ObjectKinds ops s2 t = so_ObjectKinds ops s1 t)"
    by (rule meta_types) (simp add: GroupVersion_def SchemeGroupVersion_def, rule unmeta)
  then obtain s2 where s2: "so_AddToGroupVersion ops s1 GroupVersion = Some s2"
    "\<And>t. ty_package t = api_path \<Longrightarrow> so_ObjectKinds ops s2 t = so_ObjectKinds ops s1 t" by blast
  have "knows_api ops s2"
    by (simp add: knows_api_def s2(2) kinds none RemoteAppType_def RemoteAppListType_def)
  with s1 s2(1) show ?thesis by (simp add: register_types_def)
qed

text \<open>The variables after the API package: one builder, with the one function.\<close>

lemma AddToScheme_registered:
  assumes "api_init ops (api_vars ops zero_globals) = Some g"
  shows "AddToScheme ops (g\<lparr>gl_renderScheme := x, gl_scheme := y\<rparr>) = register_types ops"
  using assms
  by (auto simp: api_init_def api_vars_def zero_globals_def AddToScheme_def builder_register builder_new)

lemma initialize_cases:
  "initialize (program ops) zero_globals =
     (case so_clientgo_AddToScheme ops (so_NewScheme ops) of
        Some (s, None) \<Rightarrow>
          Some \<lparr>gl_builders = [so_Register ops (so_NewBuilder ops) (register_types ops)],
            gl_SchemeBuilder = Some 0, gl_AddToScheme = Some 0,
            gl_renderScheme = map_option fst (register_types ops s),
            gl_scheme = map_option fst (register_types ops s)\<rparr>
      | _ \<Rightarrow> None)"
proof -
  obtain g where g: "api_init ops (api_vars ops zero_globals) = Some g"
    by (auto simp: api_init_def api_vars_def zero_globals_def)
  note add = AddToScheme_registered [OF g]
  have vars: "g = \<lparr>gl_builders = [so_Register ops (so_NewBuilder ops) (register_types ops)],
      gl_SchemeBuilder = Some 0, gl_AddToScheme = Some 0, gl_renderScheme = None, gl_scheme = None\<rparr>"
    using g by (auto simp: api_init_def api_vars_def zero_globals_def)
  have run: "initialize (program ops) zero_globals =
      (case renderScheme_var ops g of None \<Rightarrow> None | Some g' \<Rightarrow> main_init ops (scheme_var ops g'))"
    by (simp add: initialize_def program_sorted program_order)
      (simp add: program_def g split: option.split)
  show ?thesis
  proof (cases "so_clientgo_AddToScheme ops (so_NewScheme ops)")
    case None
    then show ?thesis by (simp add: run renderScheme_var_def)
  next
    case (Some r)
    obtain s e where r: "r = (s, e)" by (cases r)
    obtain s' where "register_types ops s = Some (s', None)"
      using register_after_clientgo Some r by blast
    then show ?thesis
      using Some r add [where x = None and y = None]
        add [where x = "Some s'" and y = "Some (so_NewScheme ops)"]
      by (cases e) (simp_all add: run renderScheme_var_def main_init_def scheme_var_def must_def vars)
  qed
qed

lemma initialized_schemes:
  assumes "initialize (program ops) zero_globals = Some g"
  shows "\<exists>s. gl_renderScheme g = Some s \<and> gl_scheme g = Some s \<and> knows_api ops s"
proof -
  obtain s where s: "so_clientgo_AddToScheme ops (so_NewScheme ops) = Some (s, None)"
    using assms by (auto simp: initialize_cases split: option.splits)
  from register_after_clientgo [OF this] obtain s' where "register_types ops s = Some (s', None)" "knows_api ops s'"
    by blast
  with assms s show ?thesis by (auto simp: initialize_cases)
qed

end

text \<open>
  The two functions that read a scheme: \<open>SetControllerReference\<close> refers to the owner by the one
  kind its type has; the handler of \<open>Owns\<close> maps an object to the controller among its owners
  when that is of the kind the manager's scheme has for the owner type, which is namespaced.
\<close>

locale owner_machinery = scheme_machinery ops for ops :: "('s, 'b) scheme_ops" +
  assumes set_reference: "so_ObjectKinds ops s RemoteAppType = [k] \<Longrightarrow> ownable cr obj \<Longrightarrow>
      so_SetControllerReference ops cr obj s = Inr (with_owner (reference_of k cr) obj)"
    and owner_requests: "so_ObjectKinds ops s t = [k] \<Longrightarrow> om_OwnerReferences (ob_Meta obj) = [r] \<Longrightarrow>
      or_Controller r \<Longrightarrow> or_APIVersion r = gvk_apiVersion k \<Longrightarrow> or_Kind r = gvk_Kind k \<Longrightarrow>
      so_OwnerRequests ops s t obj = [NamespacedName (om_Namespace (ob_Meta obj)) (or_Name r)]"
begin

lemma references:
  "knows_api ops s \<Longrightarrow> controller_reference (\<lambda>cr obj. so_SetControllerReference ops cr obj s)
     (reference_of (kind_of GroupVersion RemoteAppType))"
  by unfold_locales (auto simp: knows_api_def set_reference)

lemma requests:
  "knows_api ops s \<Longrightarrow> om_Namespace (ob_Meta obj) = ra_Namespace cr \<Longrightarrow>
   om_OwnerReferences (ob_Meta obj) = [reference_of (kind_of GroupVersion RemoteAppType) cr] \<Longrightarrow>
   so_OwnerRequests ops s RemoteAppType obj = [ra_key cr]"
  using owner_requests [of s RemoteAppType "kind_of GroupVersion RemoteAppType" obj]
  by (simp add: knows_api_def reference_of_def reference_to_def)

end


section \<open>A scheme as the documentation describes it\<close>

text \<open>A list of kinds with their types; a builder is the list of its functions.\<close>

type_synonym kind_table = "(group_version_kind \<times> go_type) list"

definition table_kinds :: "kind_table \<Rightarrow> go_type \<Rightarrow> group_version_kind list" where
  "table_kinds s t = map fst (filter (\<lambda>e. snd e = t) s)"

definition table_add :: "(group_version_kind \<times> go_type) list \<Rightarrow> kind_table \<Rightarrow> kind_table option" where
  "table_add new s =
     (if list_ex (\<lambda>e. gvk_Version (fst e) = '''' \<or> list_ex (\<lambda>e'. fst e' = fst e \<and> snd e' \<noteq> snd e) s) new
      then None else Some (s @ filter (\<lambda>e. e \<notin> set s) new))"

definition meta_path :: string where "meta_path = ''k8s.io/apimachinery/pkg/apis/meta/v1''"

definition clientgo_table :: kind_table where
  "clientgo_table =
     [(\<lparr>gvk_Group = '''', gvk_Version = ''v1'', gvk_Kind = ''Service''\<rparr>, GoType ''k8s.io/api/core/v1'' ''Service''),
      (\<lparr>gvk_Group = ''apps'', gvk_Version = ''v1'', gvk_Kind = ''Deployment''\<rparr>,
       GoType ''k8s.io/api/apps/v1'' ''Deployment'')]"

fun run_builder ::
  "(kind_table \<Rightarrow> (kind_table \<times> go_error option) option) list \<Rightarrow> kind_table \<Rightarrow>
   (kind_table \<times> go_error option) option" where
  "run_builder [] s = Some (s, None)"
| "run_builder (f # fs) s = (case f s of Some (s', None) \<Rightarrow> run_builder fs s' | r \<Rightarrow> r)"

definition table_reference :: "remote_app \<Rightarrow> k8s_object \<Rightarrow> kind_table \<Rightarrow> go_error + k8s_object" where
  "table_reference cr obj s =
     (case table_kinds s RemoteAppType of
        [k] \<Rightarrow> documented_reference (gvk_apiVersion k) (gvk_Kind k) cr obj
      | _ \<Rightarrow> Inl (errors_new ''no kind is registered for the type''))"

definition table_requests :: "kind_table \<Rightarrow> go_type \<Rightarrow> k8s_object \<Rightarrow> namespaced_name list" where
  "table_requests s t obj =
     (case table_kinds s t of
        [k] \<Rightarrow> map (\<lambda>r. NamespacedName (om_Namespace (ob_Meta obj)) (or_Name r))
          (filter (\<lambda>r. or_Controller r \<and> or_APIVersion r = gvk_apiVersion k \<and> or_Kind r = gvk_Kind k)
             (om_OwnerReferences (ob_Meta obj)))
      | _ \<Rightarrow> [])"

definition documented_scheme ::
  "go_error option \<Rightarrow>
   (kind_table, (kind_table \<Rightarrow> (kind_table \<times> go_error option) option) list) scheme_ops" where
  "documented_scheme err =
     \<lparr>so_NewScheme = [], so_clientgo_AddToScheme = (\<lambda>s. Some (s @ clientgo_table, err)),
      so_AddKnownTypes = (\<lambda>s gv ts. table_add (map (\<lambda>t. (kind_of gv t, t)) ts) s),
      so_AddToGroupVersion = (\<lambda>s gv. table_add
        (map (\<lambda>n. (kind_of gv (GoType meta_path n), GoType meta_path n)) meta_kinds) s),
      so_ObjectKinds = table_kinds, so_NewBuilder = [], so_Register = (\<lambda>b f. b @ [f]),
      so_AddToScheme = run_builder, so_SetControllerReference = table_reference,
      so_OwnerRequests = table_requests\<rparr>"

lemma run_builder_append:
  "run_builder (fs @ [f]) s = (case run_builder fs s of Some (s', None) \<Rightarrow> f s' | r \<Rightarrow> r)"
  by (induction fs arbitrary: s) (auto split: option.split prod.split)

lemma table_kinds_append: "table_kinds (s @ s') t = table_kinds s t @ table_kinds s' t"
  by (simp add: table_kinds_def)

lemma table_kinds_new:
  "distinct (map ty_name ts) \<Longrightarrow>
   table_kinds (map (\<lambda>t. (kind_of gv t, t)) ts) t = (if t \<in> set ts then [kind_of gv t] else [])"
  by (induction ts) (auto simp: table_kinds_def filter_empty_conv)

lemma table_add_free:
  assumes "\<And>e. e \<in> set new \<Longrightarrow> gvk_Version (fst e) \<noteq> '''' \<and> fst e \<notin> fst ` set s"
  shows "table_add new s = Some (s @ new)"
proof -
  have "filter (\<lambda>e. e \<notin> set s) new = new" using assms by (force simp: filter_id_conv)
  moreover have "\<not> list_ex (\<lambda>e. gvk_Version (fst e) = '''' \<or> list_ex (\<lambda>e'. fst e' = fst e \<and> snd e' \<noteq> snd e) s) new"
    using assms by (force simp: list_ex_iff)
  ultimately show ?thesis by (simp only: table_add_def if_False)
qed

lemma table_kinds_entry: "e \<in> set s \<Longrightarrow> fst e \<in> set (table_kinds s (snd e))"
  by (auto simp: table_kinds_def)

interpretation kind_tables: owner_machinery "documented_scheme err"
proof (unfold_locales, goal_cases)
  case (4 gv ts s)
  have "\<not> of_group_version gv (fst e)" if "e \<in> set s" for e
    using 4(3) [of "fst e" "snd e"] table_kinds_entry [OF that] by (simp add: documented_scheme_def)
  then have "table_add (map (\<lambda>t. (kind_of gv t, t)) ts) s = Some (s @ map (\<lambda>t. (kind_of gv t, t)) ts)"
    using 4(1) by (intro table_add_free) (force simp: of_group_version_def kind_of_def)
  with 4(2) show ?case by (simp add: documented_scheme_def table_kinds_append table_kinds_new)
next
  case (5 gv s)
  let ?new = "map (\<lambda>n. (kind_of gv (GoType meta_path n), GoType meta_path n)) meta_kinds"
  have "fst e \<notin> set (map fst ?new)" if "e \<in> set s" for e
    using 5(2) [of "fst e" "snd e"] table_kinds_entry [OF that]
    by (auto simp: documented_scheme_def of_group_version_def kind_of_def)
  then have "table_add ?new s = Some (s @ ?new)"
    using 5(1) by (intro table_add_free) (force simp: kind_of_def)
  moreover have "table_kinds ?new t = []" if "ty_package t = api_path" for t
    using that by (auto simp: table_kinds_def filter_empty_conv meta_path_def api_path_def)
  ultimately show ?case by (simp add: documented_scheme_def table_kinds_append)
next
  case (6 s s' e t)
  then show ?case
    by (auto simp: documented_scheme_def table_kinds_append table_kinds_def clientgo_table_def api_path_def)
next
  case (7 s s' e k t)
  then show ?case
    by (force simp: documented_scheme_def table_kinds_append table_kinds_def clientgo_table_def
        SchemeGroupVersion_def split: if_splits)
next
  case (8 s k cr obj)
  then show ?case
    by (simp add: documented_scheme_def table_reference_def reference_of_def documented_owner.ownable_set)
next
  case (9 s t k obj r)
  then show ?case by (simp add: documented_scheme_def table_requests_def)
qed (simp_all add: documented_scheme_def table_kinds_def run_builder_append split: option.split prod.split)


section \<open>Properties\<close>

text \<open>C17. Package initialisation, whatever the order in which the packages are listed, ends
  without a panic exactly when client-go's registration reports no error; then the
  renderer's scheme, which ignores the errors of its registrations, is the manager's, and in
  it each type of the API has exactly one kind, that of the API's group and version.\<close>

theorem package_init:
  assumes "scheme_machinery ops" and "mset ps = mset (program ops)"
  shows "(initialize ps zero_globals \<noteq> None \<longleftrightarrow>
      (\<exists>s. so_clientgo_AddToScheme ops (so_NewScheme ops) = Some (s, None))) \<and>
    (\<forall>g. initialize ps zero_globals = Some g \<longrightarrow>
      (\<exists>s. gl_renderScheme g = Some s \<and> gl_scheme g = Some s \<and> knows_api ops s))"
proof -
  have same: "initialize ps zero_globals = initialize (program ops) zero_globals"
    by (rule initialize_unique [OF linked.distinct_paths assms(2)])
  have "initialize (program ops) zero_globals \<noteq> None \<longleftrightarrow>
      (\<exists>s. so_clientgo_AddToScheme ops (so_NewScheme ops) = Some (s, None))"
    by (auto simp: scheme_machinery.initialize_cases [OF assms(1)] split: option.splits)
  with scheme_machinery.initialized_schemes [OF assms(1)] show ?thesis unfolding same by blast
qed

theorem package_init_witness:
  "(\<exists>g s. initialize (rev (program (documented_scheme None))) zero_globals = Some g \<and>
     gl_renderScheme g = Some s \<and> gl_scheme g = Some s \<and>
     so_ObjectKinds (documented_scheme None) s RemoteAppType =
       [\<lparr>gvk_Group = ''access.giantswarm.io'', gvk_Version = ''v1alpha1'', gvk_Kind = ''RemoteApp''\<rparr>]) \<and>
   initialize (program (documented_scheme (Some (errors_new ''conflict'')))) zero_globals = None"
proof -
  let ?ok = "documented_scheme None" and ?bad = "documented_scheme (Some (errors_new ''conflict''))"
  have "so_clientgo_AddToScheme ?ok (so_NewScheme ?ok) = Some (clientgo_table, None)"
    by (simp add: documented_scheme_def)
  moreover have "\<nexists>s. so_clientgo_AddToScheme ?bad (so_NewScheme ?bad) = Some (s, None)"
    by (simp add: documented_scheme_def)
  ultimately show ?thesis
    using package_init [OF kind_tables.scheme_machinery_axioms, of "rev (program ?ok)" None]
      package_init [OF kind_tables.scheme_machinery_axioms, of "program ?bad"]
    by (force simp: knows_api_def kind_of_def GroupVersion_def SchemeGroupVersion_def RemoteAppType_def)
qed

text \<open>C16. An object the operator applied finds the way back: after package initialisation, every
  object a pass sends, also a pass that fails later, has the RemoteApp as its one owner and
  controller, and an event about it, of a kind the controller watches, is mapped through the
  manager's scheme to a request for that RemoteApp.\<close>

theorem owned_events_return:
  assumes "owner_machinery ops" and "initialize (program ops) zero_globals = Some g"
    and "gl_renderScheme g = Some rs" and "gl_scheme g = Some ms"
    and "en_SetControllerReference env = (\<lambda>cr obj. so_SetControllerReference ops cr obj rs)"
    and "en_Get env req = Found cr" and "obj \<in> set (applied_objects (snd (Reconcile env r req)))"
  shows "om_OwnerReferences (ob_Meta obj) =
      [reference_to ''access.giantswarm.io/v1alpha1'' ''RemoteApp'' cr] \<and>
    Owns (applied_kind obj) \<in> set (SetupWithManager verificationEvents) \<and>
    so_OwnerRequests ops ms RemoteAppType obj = [ra_key cr]"
proof -
  let ?ref = "reference_of (kind_of GroupVersion RemoteAppType)"
  have sm: "scheme_machinery ops" using assms(1) by (rule owner_machinery.axioms)
  have knows: "knows_api ops rs" "ms = rs"
    using scheme_machinery.initialized_schemes [OF sm assms(2)] assms(3,4) by auto
  from controller_reference.reconcile_objects
    [OF owner_machinery.references [OF assms(1) knows(1)] assms(5-7)]
  obtain steps st where st: "owned_steps env cr (rc_PodDefaults r) = Some steps" "st \<in> set steps"
    "obj = with_owner (?ref cr) (snd st)" by blast
  have kind: "applied_kind obj = applied_kind (snd st)" and ns: "om_Namespace (ob_Meta obj) = ra_Namespace cr"
    using owned_steps_kinds [OF st(1)] st(2,3) by (auto simp: applied_kind_def list_all_iff)
  have "Owns (applied_kind obj) \<in> set (SetupWithManager verificationEvents)"
    using owned_steps_kinds [OF st(1)] st(2) unfolding kind
    by (auto simp: SetupWithManager_def dest!: arg_cong [of "map _ steps" _ set])
  moreover have "so_OwnerRequests ops ms RemoteAppType obj = [ra_key cr]"
    using owner_machinery.requests [OF assms(1) knows(1) ns] by (simp add: knows(2) st(3))
  ultimately show ?thesis
    by (simp add: st(3) reference_of_def gvk_apiVersion_def kind_of_def GroupVersion_def
        SchemeGroupVersion_def RemoteAppType_def)
qed

lemma example_sends:
  assumes "controller_reference setref ref"
  shows "applied_objects (snd (Reconcile (example_rec_env\<lparr>en_SetControllerReference := setref\<rparr>)
    example_reconciler (ra_key example_cr))) \<noteq> []"
proof -
  let ?env = "example_rec_env\<lparr>en_SetControllerReference := setref\<rparr>"
  have "owned_steps ?env = owned_steps example_rec_env" by (simp add: owned_steps_def fun_eq_iff)
  then obtain steps where steps: "owned_steps ?env example_cr (rc_PodDefaults example_reconciler) = Some steps"
    using example_steps by auto
  note own = owned_steps_ownable [OF this]
  have ok: "list_all (step_ok ?env example_cr) steps"
    by (rule controller_reference.steps_ok [OF assms _ own]) (simp_all add: example_rec_env_def)
  have "en_Get ?env (ra_key example_cr) = Found example_cr" "ra_DeletionTimestamp example_cr = None"
    by (simp_all add: example_rec_env_def example_cr_def)
  from Reconcile_live [OF this steps apply_steps_ok [OF ok] refl]
  have "applied_objects (snd (Reconcile ?env example_reconciler (ra_key example_cr))) =
      map (with_owner (ref example_cr) \<circ> snd) steps"
    using controller_reference.step_effects_objects(2) [OF assms _ own ok] by simp
  then show ?thesis using owned_steps_kinds [OF steps] by auto
qed

theorem owned_events_return_witness:
  "\<exists>rs obj. obj \<in> set (applied_objects (snd (Reconcile (example_rec_env\<lparr>en_SetControllerReference :=
       (\<lambda>cr obj. table_reference cr obj rs)\<rparr>) example_reconciler (ra_key example_cr)))) \<and>
     om_OwnerReferences (ob_Meta obj) =
       [reference_to ''access.giantswarm.io/v1alpha1'' ''RemoteApp'' example_cr] \<and>
     table_requests rs RemoteAppType obj = [ra_key example_cr]"
proof -
  let ?ops = "documented_scheme None"
  have "so_clientgo_AddToScheme ?ops (so_NewScheme ?ops) = Some (clientgo_table, None)"
    by (simp add: documented_scheme_def)
  then obtain g where g: "initialize (program ?ops) zero_globals = Some g"
    by (simp add: kind_tables.initialize_cases)
  then obtain rs where rs: "gl_renderScheme g = Some rs" "gl_scheme g = Some rs" "knows_api ?ops rs"
    using kind_tables.initialized_schemes by blast
  have ops: "so_SetControllerReference ?ops = table_reference" "so_OwnerRequests ?ops = table_requests"
    by (simp_all add: documented_scheme_def)
  let ?env = "example_rec_env\<lparr>en_SetControllerReference := \<lambda>cr obj. table_reference cr obj rs\<rparr>"
  obtain obj where sent: "obj \<in> set (applied_objects (snd (Reconcile ?env example_reconciler (ra_key example_cr))))"
    using example_sends [OF kind_tables.references [OF rs(3)]] unfolding ops by fastforce
  have "en_SetControllerReference ?env = (\<lambda>cr obj. so_SetControllerReference ?ops cr obj rs)"
    "en_Get ?env (ra_key example_cr) = Found example_cr"
    by (simp_all add: ops example_rec_env_def)
  from owned_events_return [OF kind_tables.owner_machinery_axioms g rs(1,2) this sent]
  have "om_OwnerReferences (ob_Meta obj) =
      [reference_to ''access.giantswarm.io/v1alpha1'' ''RemoteApp'' example_cr] \<and>
    table_requests rs RemoteAppType obj = [ra_key example_cr]" by (simp add: ops)
  with sent show ?thesis by blast
qed

end
