(* ===== verification/Spec2Isabelle.thy ===== *)
theory Spec2Isabelle
  imports System Flags Memory Scheme
begin

text \<open>
  A model of tunnelport, a Kubernetes operator in Go that turns every RemoteApp into a
  Teleport tunnel (tbot with a ghostunnel TLS sidecar) and keeps checking that the tunnel
  works when it is used.

  \<^bold>\<open>The program.\<close> The reconciler (\<open>internal/controller/remoteapp/controller.go\<close>) renders five
  owned objects (\<open>render.go\<close>, \<open>tbot_config.go\<close>), applies them, and writes a status computed
  from the pods and from the latest verification outcomes (\<open>status.go\<close>). The verifier
  (\<open>verify.go\<close>) runs in rounds beside it: it dials every ready tunnel, verifies the
  certificate against the trust bundle, sends one HTTP request through the session, puts
  the outcomes in the store (\<open>verify_metrics.go\<close>), and sends the changed RemoteApps to the
  reconciler over a channel. The store also feeds the metrics and the Events about outages.
  \<open>main.go\<close> validates the flags and wires the parts together.

  \<^bold>\<open>The theories.\<close>
  \<^item> \<open>Prelude\<close>, \<open>GoText\<close>: Go's maps as association lists, decimal text, quoting, stable sorting,
    dates, durations, status texts, host and port. Locales \<open>key_order\<close> (what a sort's less
    predicate promises) and \<open>keyed_loop\<close> (a loop over a map that writes its own key), both
    interpreted on the orders and loops of the components.
  \<^item> \<open>Api\<close>: \<open>api/v1alpha1\<close>, the pods as the operator reads them, labels and condition names.
  \<^item> \<open>Verification\<close>: outcomes, configuration and \<open>withDefaults\<close>, names and paths of targets.
  \<^item> \<open>Store\<close>: the store's methods on one record, since its mutex makes each method atomic.
    Locale \<open>outage_tracker\<close>: from the effect of one round to histories of rounds.
  \<^item> \<open>Status\<close>: pod and role summaries, conditions, \<open>computeStatus\<close>. Locale \<open>condition_meta\<close>: the
    documented behaviour of the condition helpers of apimachinery, which are a parameter.
  \<^item> \<open>Probe\<close>: one probe, as a function of what the network answers, with the list of its
    actions; diagnoses; the trust bundle.
  \<^item> \<open>Round\<close>: \<open>RunOnce\<close>, the worker pool as a step relation, the schedule, \<open>Start\<close>.
  \<^item> \<open>Sha256\<close>, \<open>Render\<close>: the owned objects and the hash that rolls the pods.
  \<^item> \<open>Controller\<close>: \<open>Reconcile\<close>, \<open>applyOwned\<close>, \<open>reconcileStatus\<close>, Events, watches. Locales
    \<open>deep_equality\<close> (semantic equality of two statuses is equality) and \<open>time_precision\<close> (the API
    server stores times with less precision).
  \<^item> \<open>Regex\<close>, \<open>Startup\<close>: flag patterns, validations, wiring.
  \<^item> \<open>GoFlag\<close>, \<open>Flags\<close>: \<open>ParseBool\<close>, \<open>ParseInt\<close>, \<open>ParseDuration\<close> (with its floating point fraction)
    and the parser of package \<open>flag\<close>; the table of flags, \<open>parseFlags\<close> and the process \<open>run_main\<close>.
  \<^item> \<open>System\<close>: the running operator as a step relation: rounds, the event channel, the work
    queue, passes, and the watch events of RemoteApps, pods and applied objects, on the
    objects of the API server.
  \<^item> \<open>Memory\<close>: the deep copies, and the status pass on an object behind a pointer. Locales
    \<open>condition_memory\<close>, an extension of \<open>condition_meta\<close> (the condition helpers write nothing but the
    slice they are given), and \<open>answer_decoder\<close> (the answer to a patch is decoded into the object
    and the cells it points to).
  \<^item> \<open>PackageInit\<close>, \<open>Scheme\<close>: the order in which Go initialises packages (locale \<open>import_ranked\<close>: a
    program without import cycles) and what the packages do then: the API's types are
    registered and the renderer's and the manager's schemes built. Locales \<open>scheme_machinery\<close>
    (apimachinery's schemes and builders) and, extending it, \<open>owner_machinery\<close> (the two functions
    of controller-runtime that read a scheme); the latter provides \<open>controller_reference\<close>, the
    interface through which \<open>Controller\<close> stamps owners.
  \<^item> This theory: properties from the socket to the status.

  \<^bold>\<open>How the code is modelled.\<close> A struct is a record, a function of the source is a definition
  with its name, and a piece of a long function is a definition named in the text before it.
  Errors are values: \<open>Inl\<close> of a sum, a chain of error layers where the code asks \<open>errors.As\<close>,
  and \<open>None\<close> where the source would panic. Times and durations are integers counting
  nanoseconds, times from 1 January of year 1. Ports and counts are integers, with the
  narrowing to 32 bits written out where \<open>main.go\<close> narrows; the hash works on 32-bit words.
  Go's random map order is the order of an association list, and what may depend on it is
  shown not to. What lies outside the repository is a parameter: the network, TLS, HTTP and
  the PEM parser (\<open>network\<close>, \<open>round_env\<close>), the API server and controller-runtime (\<open>rec_env\<close>,
  \<open>main_env\<close>), schemes and their builders (\<open>scheme_ops\<close>), YAML and quantities (\<open>render_ops\<close>,
  \<open>quantity_ops\<close>), the clock and the random source. Where a property needs more of a parameter
  than its type, a hypothesis says so.
  Objects are values, except in \<open>Memory\<close>, which shows that sharing does not change what the
  status pass does.

  \<^bold>\<open>What is shown.\<close> Ready is the pods' readiness and a far end that answers, and the reasons say
  which of the two failed; a failing certificate and a dead far end reach the status from
  the socket; an outage is reported by one Warning and its end by one Normal Event,
  whatever the rounds in between meet; the status is not written again when only times
  differ; the worker pool has no deadlock, ends after at most four steps per target and one,
  and computes the array \<open>RunOnce\<close> publishes; events are sent for exactly the changed
  outcomes while the buffer has room, and an unchanged outcome leaves the status unchanged, so
  that in every reachable state of the operator a status that disagrees with the pods and
  the store has a request pending, and delivering requests ends with statuses that agree,
  the watch events of the status patches and of the applied objects included;
  this needs rounds that load the trust bundle, and a lost bundle is shown to leave a stale
  verdict in the status;
  failed rounds publish nothing and failed applies stop the pass at the failing object and
  are reported; the rendered objects fit together; package initialisation leaves the renderer
  and the manager with the same scheme, so that every object the operator applied leads the
  events about it back to the RemoteApp that owns it; the flags that start the operator give
  the renderer and the verifier one port; a command line sets each flag to its last setting
  and a wrong one ends the process before anything starts; deep copies share nothing with
  their originals, and of the memory there was, the status pass writes only the object it was
  given and, when the answer to its patch is decoded into that object, the cells of its spec.

  \<^bold>\<open>Bounds.\<close> Deliveries end after at most two steps for each event in the channel or on its way,
  one for each request, and eleven for each RemoteApp: one for its status and two for each of
  its five objects. No definition uses fuel. The recursions are structural, or end by the measure given
  with them; \<open>Start\<close> runs over the list of the rounds of a process, and a statement about
  \<open>Start\<close> is one about every such list.

  \<^bold>\<open>Not modelled.\<close> The flags of \<open>zap\<close> and of imported packages, which are a parameter of the
  command line; log lines and help texts; RBAC markers; CRD validation, which the API server
  does; the Helm chart, kustomize files and shell harness. Timers fire on time and a
  cancelled context is what ends a sleep early. In \<open>System\<close> a round is one step at the moment
  it publishes, and an apply of what is already there is no change and no watch event.
\<close>

section \<open>Lemmas from the socket to the status\<close>

lemma probeTunnel_consistent: "consistent_outcome (fst (probeTunnel net t roots))"
  unfolding consistent_outcome_def
  by (auto simp: probeTunnel_classification)

text \<open>A round that completes over a network that answers, for one live and ready RemoteApp.\<close>

definition answered ::
  "'roots tls_verifier \<Rightarrow> 'roots round_env \<Rightarrow> verify_config \<Rightarrow> 'roots \<Rightarrow> remote_app list \<Rightarrow> pod list \<Rightarrow>
   remote_app \<Rightarrow> bool" where
  "answered v env cfg roots apps pods cr \<longleftrightarrow>
     tv_probe v = None \<and>
     loadTrustBundle (re_readFile env) (re_appendCerts env) (vc_TrustBundleFile (withDefaults cfg)) = Inr roots \<and>
     re_listRemoteApps env = Inr apps \<and> re_listPods env = Inr pods \<and> re_ctxErr env = None \<and>
     distinct (map ra_key apps) \<and> cr \<in> set apps \<and> ra_DeletionTimestamp cr = None \<and> ra_Name cr \<noteq> '''' \<and>
     (\<exists>p \<in> set pods. belongs (ra_key cr) p \<and> pod_DeletionTimestamp p = None \<and> isPodReady p) \<and>
     net_dial (re_network env) (pt_addr (app_target (withDefaults cfg) cr)) = None"

lemma answered_Result:
  assumes "answered v env cfg roots apps pods cr"
  shows "Result (fst (RunOnce v env cfg store events)) (ra_key cr) =
    Some (fst (probeTunnel (re_network env) (app_target (withDefaults cfg) cr) roots))"
proof -
  have "find (\<lambda>x. ra_key x = ra_key cr) (live_apps apps) = Some cr"
    using assms by (intro find_key_unique) (auto simp: answered_def live_apps_def distinct_map_filter)
  moreover have "pods_ready (pods_of (groupTunnelPods pods) (ra_key cr))"
    using assms by (auto simp: answered_def pods_of_group pods_ready_def)
  ultimately show ?thesis
    using assms RunOnce_Result [of env cfg roots apps pods v store events "ra_key cr"]
    by (simp add: answered_def app_outcome_def prober_def)
qed


section \<open>Properties across components\<close>

text \<open>C2. A dead path behind a healthy tunnel takes Ready down, from the socket to the status: in
  a round that completes, for a RemoteApp with a Ready pod whose tunnel accepts the
  connection, verifies, and returns an HTTP status, the next status pass reports Ready
  exactly when the pods are Ready and the status is none of 502, 503 and 504; and when it is
  one of them over Ready pods, the Ready condition carries the reason UpstreamUnreachable
  and the message that is also \<open>lastError\<close>.\<close>

theorem end_to_end_upstream:
  assumes "answered v env cfg roots apps pods cr" and "condition_meta ops"
    and "vc_UpstreamProbe cfg" and "Enabled store" and "UpstreamProbeEnabled store"
    and "net_handshake (re_network env) (pt_addr (app_target (withDefaults cfg) cr))
      (pt_serverName (app_target (withDefaults cfg) cr)) roots = None"
    and "\<forall>url. net_newRequest (re_network env) url = None"
    and "\<forall>d. net_setDeadline (re_network env) d = None"
    and "\<forall>req. net_write (re_network env) req = None"
    and "\<forall>req. net_readResponse (re_network env) req = Inr code"
    and "computeStatus ops clock cr pods' prev applyErr
      (Some (store_reader (fst (RunOnce v env cfg store events)))) = Some s"
  shows "\<exists>c. (st_Ready s \<longleftrightarrow> pods_ready pods' \<and> code \<notin> {502, 503, 504}) \<and>
    FindStatusCondition ops (st_Conditions s) ConditionTypeReady = Some c \<and>
    cond_status c = boolToConditionStatus (st_Ready s) \<and>
    (pods_ready pods' \<and> code \<in> {502, 503, 504} \<longrightarrow>
       cond_reason c = reasonUpstreamUnreachable \<and> cond_message c = st_LastError s)"
proof -
  let ?s' = "fst (RunOnce v env cfg store events)" and ?t = "app_target (withDefaults cfg) cr"
  let ?o = "fst (probeTunnel (re_network env) ?t roots)"
  have res: "Result ?s' (ra_key cr) = Some ?o" by (rule answered_Result [OF assms(1)])
  have "pt_path ?t \<noteq> ''''" using assms(3) by (simp add: app_target_def Let_def)
  then have "v_Result ?o = ResultVerified" "v_Upstream ?o = fst (probeUpstream (re_network env) ?t)"
    using assms(1,6) probeTunnel_classification [of "re_network env" ?t roots]
    by (auto simp: answered_def)
  moreover have "up_Result (fst (probeUpstream (re_network env) ?t)) =
      (if code \<in> {502, 503, 504} then UpstreamUnreachable else UpstreamReachable)"
    using assms(7-10) by (simp add: probeUpstream_def Let_def gateway_failure_def)
  ultimately have down: "upstream_down cr (Some (store_reader ?s')) \<longleftrightarrow> code \<in> {502, 503, 504}"
    using res assms(4,5) by (auto simp: upstream_down_def store_reader_def)
  let ?part = "ready_part cr (pods_ready pods') (pod_error pods') (upstreamCondition cr (Some (store_reader ?s')))"
  have s: "st_Ready s = fst ?part" "st_LastError s = snd (snd ?part)"
    using assms(11) by (auto simp: computeStatus_eq)
  obtain old where "FindStatusCondition ops (st_Conditions s) ConditionTypeReady =
      Some (stamp (clock ConditionTypeReady) old (fst (snd ?part)))"
    using find_computed [OF assms(2,11), of ConditionTypeReady] by simp
  moreover have "fst ?part \<longleftrightarrow> pods_ready pods' \<and> code \<notin> {502, 503, 504}"
    using down by (simp only: ready_part_ready)
  ultimately show ?thesis using s down ready_part_condition [where cr = cr and r = "pods_ready pods'"]
    by simp
qed

lemma example_target_domain: "vc_ClusterDomain (withDefaults example_config) = ''cluster.local''"
  by (simp add: example_config_def withDefaults_eq Let_def DefaultClusterDomain_def)

definition example_session :: "go_error option \<Rightarrow> go_error + int \<Rightarrow> unit round_env" where
  "example_session handshake response =
     (example_env [example_pod ''a'' True] response)\<lparr>re_network := example_net None handshake response\<rparr>"

lemma example_pod_answers:
  "belongs (ra_key example_cr) (example_pod ''a'' True)"
  "pod_DeletionTimestamp (example_pod ''a'' True) = None" "isPodReady (example_pod ''a'' True)"
  by (simp_all add: belongs_def example_cr_def example_pod_def LabelRole_def LabelRoleValue_def
      LabelRemoteAppInstance_def isPodReady_def
      go_index_def PodReady_def)

lemma example_answered:
  "answered example_verifier (example_session handshake response) example_config ()
     [example_cr] [example_pod ''a'' True] example_cr"
proof -
  have "ra_DeletionTimestamp example_cr = None" "ra_Name example_cr \<noteq> ''''"
    by (simp_all add: example_cr_def)
  then show ?thesis
    by (simp add: answered_def example_session_def example_pod_answers example_net_def example_verifier_def)
qed

theorem end_to_end_upstream_witness:
  "computeStatus documented_meta (\<lambda>_. 7) example_cr [example_pod ''a'' True] [] ''''
     (Some (store_reader (fst (RunOnce example_verifier
        (example_session None (Inr 504)) example_config
        (NewVerificationStore True True) None)))) \<noteq> None \<and>
   \<not> st_Ready (the (computeStatus documented_meta (\<lambda>_. 7) example_cr [example_pod ''a'' True] [] ''''
     (Some (store_reader (fst (RunOnce example_verifier
        (example_session None (Inr 504)) example_config
        (NewVerificationStore True True) None))))))"
proof -
  let ?env = "example_session None (Inr 504)"
  let ?r = "Some (store_reader (fst (RunOnce example_verifier ?env example_config
        (NewVerificationStore True True) None)))"
  obtain s where s: "computeStatus documented_meta (\<lambda>_. 7) example_cr [example_pod ''a'' True] [] '''' ?r = Some s"
    by (simp add: computeStatus_eq)
  have "\<not> st_Ready s"
    using end_to_end_upstream [OF example_answered documented.condition_meta_axioms _ _ _ _ _ _ _ _ s, of 504]
    by (simp add: example_config_def example_session_def example_net_def)
  with s show ?thesis by simp
qed

text \<open>C13. A certificate that stopped verifying is seen although every pod is fine, from the
  handshake to the status: in a round that completes, for a RemoteApp with a Ready pod
  whose tunnel accepts the connection but fails the handshake, the next status pass
  reports TunnelVerified False with the diagnosis of the handshake error as its message,
  UpstreamReachable not False, and Ready as the pods have it.\<close>

theorem end_to_end_certificate:
  assumes "condition_meta ops" and "answered v env cfg roots apps pods cr" and "Enabled store"
    and "net_handshake (re_network env) (pt_addr (app_target (withDefaults cfg) cr))
      (pt_serverName (app_target (withDefaults cfg) cr)) roots = Some err"
    and "computeStatus ops clock cr pods' prev applyErr
      (Some (store_reader (fst (RunOnce v env cfg store events)))) = Some s"
  shows "\<exists>c. FindStatusCondition ops (st_Conditions s) ConditionTypeTunnelVerified = Some c \<and>
    cond_status c = ConditionFalse \<and>
    cond_message c = describeHandshakeError
      (serviceFQDN (ra_Namespace cr) (ra_Name cr) (vc_ClusterDomain (withDefaults cfg))) err \<and>
    cond_is ops (st_Conditions s) ConditionTypeUpstreamReachable \<noteq> Some ConditionFalse \<and>
    st_Ready s = pods_ready pods'"
proof -
  let ?s' = "fst (RunOnce v env cfg store events)" and ?t = "app_target (withDefaults cfg) cr"
  let ?o = "fst (probeTunnel (re_network env) ?t roots)"
  have res: "Result ?s' (ra_key cr) = Some ?o" by (rule answered_Result [OF assms(2)])
  have o: "v_Result ?o = ResultCertInvalid" "v_Detail ?o = describeHandshakeError (pt_serverName ?t) err"
    using assms(2,4) by (simp_all add: answered_def probeTunnel_def Let_def)
  have name: "pt_serverName ?t = serviceFQDN (ra_Namespace cr) (ra_Name cr) (vc_ClusterDomain (withDefaults cfg))"
    by (simp add: app_target_def Let_def)
  have up: "\<not> upstream_down cr (Some (store_reader ?s'))"
    using res o by (auto simp: upstream_down_def store_reader_def)
  have "cond_is ops (st_Conditions s) ConditionTypeUpstreamReachable \<noteq> Some ConditionFalse"
    using up cond_is_computed [OF assms(1,5), of ConditionTypeUpstreamReachable]
    by (auto simp: upstream_down_iff)
  moreover from up have "st_Ready s = pods_ready pods'"
    using assms(5) by (auto simp: computeStatus_eq ready_part_ready)
  moreover have "verified_want cr (Some (store_reader ?s')) =
      Some (mk_condition ConditionTypeTunnelVerified (ra_Generation cr) (verified_body (Some ?o)))"
    using res assms(3) by (simp add: verified_want_def store_reader_def)
  then obtain old where "FindStatusCondition ops (st_Conditions s) ConditionTypeTunnelVerified =
      Some (stamp (clock ConditionTypeTunnelVerified) old
        (mk_condition ConditionTypeTunnelVerified (ra_Generation cr) (verified_body (Some ?o))))"
    using find_computed [OF assms(1,5), of ConditionTypeTunnelVerified] by simp
  ultimately show ?thesis using o name by (simp add: verified_body_def)
qed

theorem end_to_end_certificate_witness:
  "\<exists>s c. computeStatus documented_meta (\<lambda>_. 7) example_cr [] [] ''''
     (Some (store_reader (fst (RunOnce example_verifier
        (example_session (Some (errors_new ''tls: bad record MAC'')) (Inr 200)) example_config
        (NewVerificationStore True True) None)))) = Some s \<and>
     FindStatusCondition documented_meta (st_Conditions s) ConditionTypeTunnelVerified = Some c \<and>
     cond_status c = ConditionFalse"
proof -
  let ?env = "example_session (Some (errors_new ''tls: bad record MAC'')) (Inr 200)"
  let ?r = "Some (store_reader (fst (RunOnce example_verifier ?env example_config
        (NewVerificationStore True True) None)))"
  obtain s where s: "computeStatus documented_meta (\<lambda>_. 7) example_cr [] [] '''' ?r = Some s"
    by (simp add: computeStatus_eq)
  then show ?thesis
    using end_to_end_certificate [OF documented.condition_meta_axioms example_answered _ _ s]
    by (auto simp: example_session_def example_net_def)
qed

text \<open>C27. What the verifier publishes is consistent: in every round that completes with the
  production probe, an outcome that carries an upstream verdict has a verified handshake,
  so that "nobody answered" is never said of a session that was not trusted.\<close>

theorem verifier_outcomes_consistent:
  assumes "tv_probe v = None" and "distinct (map ra_key apps)"
    and "loadTrustBundle (re_readFile env) (re_appendCerts env)
      (vc_TrustBundleFile (withDefaults cfg)) = Inr roots"
    and "re_listRemoteApps env = Inr apps" and "re_listPods env = Inr pods" and "re_ctxErr env = None"
    and "Result (fst (RunOnce v env cfg store events)) k = Some o'"
    and "up_Result (v_Upstream o') \<in> {UpstreamReachable, UpstreamUnreachable}"
  shows "v_Result o' = ResultVerified"
proof -
  obtain cr where "o' = app_outcome v env (withDefaults cfg) roots pods cr"
    using RunOnce_Result [OF assms(3-6,2), of v store events k] assms(7)
    by (cases "find (\<lambda>cr. ra_key cr = k) (live_apps apps)") auto
  then have "o' = fst (probeTunnel (re_network env) (app_target (withDefaults cfg) cr) roots) \<or>
      up_Result (v_Upstream o') = UpstreamNotProbed"
    using assms(1) by (simp add: app_outcome_def prober_def)
  then show ?thesis
    using assms(8) probeTunnel_consistent [of "re_network env" _ roots] by (auto simp: consistent_outcome_def)
qed

theorem verifier_outcomes_consistent_witness:
  "\<exists>o'. Result (fst (RunOnce example_verifier (example_session None (Inr 504)) example_config
      (NewVerificationStore True True) None)) (ra_key example_cr) = Some o' \<and>
    up_Result (v_Upstream o') = UpstreamUnreachable \<and> v_Result o' = ResultVerified"
proof -
  let ?env = "example_session None (Inr 504)" and ?t = "app_target (withDefaults example_config) example_cr"
  let ?o = "fst (probeTunnel (re_network ?env) ?t ())"
  have res: "Result (fst (RunOnce example_verifier ?env example_config (NewVerificationStore True True) None))
      (ra_key example_cr) = Some ?o" by (rule answered_Result [OF example_answered])
  have "pt_path ?t \<noteq> ''''" by (simp add: app_target_def Let_def example_config_def)
  then have up: "up_Result (v_Upstream ?o) = UpstreamUnreachable"
    by (simp add: probeTunnel_classification example_session_def example_net_def probeUpstream_def
        Let_def gateway_failure_def)
  have "v_Result ?o = ResultVerified"
    by (rule verifier_outcomes_consistent [OF _ _ _ _ _ _ res])
      (use example_answered [of None "Inr 504"] up in \<open>simp_all add: answered_def\<close>)
  with res up show ?thesis by blast
qed

text \<open>The probe tells the RemoteApps apart: two RemoteApps with different names or
  namespaces, without dots as Service and namespace names are, are dialled at different
  addresses and verified against different server names.\<close>

theorem probe_targets_distinct:
  assumes "CHR ''.'' \<notin> set (ra_Name cr)" "CHR ''.'' \<notin> set (ra_Name cr')"
    and "CHR ''.'' \<notin> set (ra_Namespace cr)" "CHR ''.'' \<notin> set (ra_Namespace cr')"
    and "ra_key cr \<noteq> ra_key cr'"
  shows "pt_serverName (app_target cfg cr) \<noteq> pt_serverName (app_target cfg cr') \<and>
    pt_addr (app_target cfg cr) \<noteq> pt_addr (app_target cfg cr')"
proof -
  have "serviceFQDN (ra_Namespace cr) (ra_Name cr) (vc_ClusterDomain cfg) \<noteq>
      serviceFQDN (ra_Namespace cr') (ra_Name cr') (vc_ClusterDomain cfg)"
    using assms(5) serviceFQDN_inject [OF assms(1-4), of "vc_ClusterDomain cfg"] by auto
  then show ?thesis by (simp add: app_target_def Let_def join_host_port_inject)
qed

theorem probe_targets_distinct_witness:
  "pt_addr (app_target example_config example_cr) \<noteq>
   pt_addr (app_target example_config (example_cr\<lparr>ra_Name := ''kubu''\<rparr>))"
  using probe_targets_distinct [of example_cr "example_cr\<lparr>ra_Name := ''kubu''\<rparr>" example_config]
  by (simp add: example_cr_def)

end
